(* ===== verification/Prelude.thy ===== *)
theory Prelude
  imports Complex_Main
begin

text \<open>
  Shared vocabulary of the development. JavaScript numbers are modelled as \<open>real\<close>
  (the game logic never depends on floating-point rounding), entity handles as \<open>nat\<close>,
  and the IEEE value \<open>Infinity\<close> that the source uses as the start value of its
  minimum searches as the extra element \<open>PInf\<close> of \<open>xreal\<close>. Vector helpers follow
  the gl-matrix functions \<open>J.vec3.*\<close> the source calls; \<open>js_round\<close> is
  \<open>Math.round\<close>. The datatype \<open>flow\<close> models an early \<open>return\<close> of a handler:
  \<open>Return s\<close> leaves the handler with state \<open>s\<close>, \<open>Continue s\<close> runs the next
  statement on \<open>s\<close>.
\<close>

named_theorems model_simps "equations that evaluate the model on concrete inputs"

type_synonym eid = nat
type_synonym vec3 = "real \<times> real \<times> real"

subsection \<open>Numbers extended with Infinity\<close>

datatype xreal = Fin real | PInf

instantiation xreal :: linorder
begin

fun less_eq_xreal :: "xreal \<Rightarrow> xreal \<Rightarrow> bool" where
  "less_eq_xreal _ PInf = True"
| "less_eq_xreal PInf (Fin _) = False"
| "less_eq_xreal (Fin a) (Fin b) = (a \<le> b)"

fun less_xreal :: "xreal \<Rightarrow> xreal \<Rightarrow> bool" where
  "less_xreal PInf _ = False"
| "less_xreal (Fin _) PInf = True"
| "less_xreal (Fin a) (Fin b) = (a < b)"

instance
proof
  fix x y z :: xreal
  show "(x < y) = (x \<le> y \<and> \<not> y \<le> x)"
    by (cases x; cases y) auto
  show "x \<le> x" by (cases x) auto
  show "x \<le> y \<Longrightarrow> y \<le> z \<Longrightarrow> x \<le> z"
    by (cases x; cases y; cases z) auto
  show "x \<le> y \<Longrightarrow> y \<le> x \<Longrightarrow> x = y"
    by (cases x; cases y) auto
  show "x \<le> y \<or> y \<le> x"
    by (cases x; cases y) auto
qed

end

text \<open>\<open>x - c\<close> for a finite \<open>c\<close>: \<open>Infinity - c = Infinity\<close> in JavaScript.\<close>

fun xsub :: "xreal \<Rightarrow> real \<Rightarrow> xreal" where
  "xsub (Fin a) c = Fin (a - c)"
| "xsub PInf _ = PInf"

lemma Fin_less_PInf [simp]: "Fin a < PInf"
  by simp

lemma not_PInf_less [simp]: "\<not> PInf < x"
  by simp

lemma Fin_less_le_Fin: "Fin a < b \<Longrightarrow> b \<le> Fin c \<Longrightarrow> a < c"
  by (cases b) auto

lemma Fin_le_less_Fin: "Fin a \<le> b \<Longrightarrow> b < Fin c \<Longrightarrow> a < c"
  by (cases b) auto

subsection \<open>Vectors (gl-matrix \<open>vec3\<close>)\<close>

definition vx :: "vec3 \<Rightarrow> real" where "vx v = fst v"
definition vy :: "vec3 \<Rightarrow> real" where "vy v = fst (snd v)"
definition vz :: "vec3 \<Rightarrow> real" where "vz v = snd (snd v)"

lemma v_sel [simp, model_simps]:
  "vx (a, b, c) = a" "vy (a, b, c) = b" "vz (a, b, c) = c"
  by (simp_all add: vx_def vy_def vz_def)

definition vadd :: "vec3 \<Rightarrow> vec3 \<Rightarrow> vec3" where
  "vadd a b = (vx a + vx b, vy a + vy b, vz a + vz b)"

definition vsub :: "vec3 \<Rightarrow> vec3 \<Rightarrow> vec3" where
  "vsub a b = (vx a - vx b, vy a - vy b, vz a - vz b)"

definition vscale :: "vec3 \<Rightarrow> real \<Rightarrow> vec3" where
  "vscale a s = (vx a * s, vy a * s, vz a * s)"

definition vlen2 :: "vec3 \<Rightarrow> real" where
  "vlen2 a = vx a * vx a + vy a * vy a + vz a * vz a"

text \<open>\<open>vec3.distance\<close> is \<open>Math.hypot\<close> of the difference.\<close>

definition vdist :: "vec3 \<Rightarrow> vec3 \<Rightarrow> real" where
  "vdist a b = sqrt (vlen2 (vsub b a))"

text \<open>\<open>vec3.normalize\<close>: scale by \<open>1/sqrt len\<close> when \<open>len > 0\<close>, else the zero vector.\<close>

definition vnormalize :: "vec3 \<Rightarrow> vec3" where
  "vnormalize a = (let l = vlen2 a in if 0 < l then vscale a (1 / sqrt l) else vscale a 0)"

declare vadd_def [model_simps] vsub_def [model_simps] vscale_def [model_simps]
  vlen2_def [model_simps] vdist_def [model_simps] vnormalize_def [model_simps]

lemma vlen2_nonneg [simp]: "0 \<le> vlen2 a"
  by (simp add: vlen2_def)

lemma vdist_nonneg [simp]: "0 \<le> vdist a b"
  by (simp add: vdist_def)

lemma vdist_self [simp]: "vdist a a = 0"
  by (simp add: vdist_def vsub_def vlen2_def)

lemma vdist_sym: "vdist a b = vdist b a"
proof -
  have "vlen2 (vsub b a) = vlen2 (vsub a b)"
    by (simp add: vlen2_def vsub_def algebra_simps)
  then show ?thesis by (simp add: vdist_def)
qed

text \<open>
  Comparing distances is comparing squared distances: \<open>sqrt\<close> is monotone. This is
  what lets a witness decide the source's \<open>distance < nearestDistance\<close> by \<open>simp\<close>.
\<close>

lemma vdist_less_iff: "vdist a b < vdist c d \<longleftrightarrow> vlen2 (vsub b a) < vlen2 (vsub d c)"
  by (simp add: vdist_def)

lemma vdist_le_iff: "vdist a b \<le> vdist c d \<longleftrightarrow> vlen2 (vsub b a) \<le> vlen2 (vsub d c)"
  by (simp add: vdist_def)

subsection \<open>Math.round and Math.floor\<close>

text \<open>\<open>Math.round\<close> rounds halves towards \<open>+\<infinity>\<close>: \<open>floor (x + 1/2)\<close>.\<close>

definition js_round :: "real \<Rightarrow> int" where
  "js_round x = \<lfloor>x + 1 / 2\<rfloor>"

declare js_round_def [model_simps]

lemma js_round_of_int [simp]: "js_round (of_int k) = k"
  by (simp add: js_round_def floor_unique)

lemma js_round_error: "\<bar>of_int (js_round x) - x\<bar> \<le> 1 / 2"
  unfolding js_round_def
  using of_int_floor_le [of "x + 1 / 2"] real_of_int_floor_add_one_gt [of "x + 1 / 2"]
  by linarith

subsection \<open>Early returns\<close>

datatype 's flow = Return 's | Continue 's

fun flow_state :: "'s flow \<Rightarrow> 's" where
  "flow_state (Return s) = s"
| "flow_state (Continue s) = s"

fun is_continue :: "'s flow \<Rightarrow> bool" where
  "is_continue (Return s) = False"
| "is_continue (Continue s) = True"

lemma is_continue_iff: "is_continue x \<longleftrightarrow> x = Continue (flow_state x)"
  by (cases x) auto

text \<open>Run the next statement only when the previous one did not return.\<close>

fun then_flow :: "'s flow \<Rightarrow> ('s \<Rightarrow> 's flow) \<Rightarrow> 's flow" where
  "then_flow (Return s) f = Return s"
| "then_flow (Continue s) f = f s"

text \<open>A relation that holds of every statement holds across \<open>then_flow\<close>.\<close>

lemma then_flow_rel:
  assumes refl: "\<And>s. R s s" and step: "\<And>s. R s (flow_state (f s))"
  shows "R (flow_state x) (flow_state (then_flow x f))"
  by (cases x) (auto intro: refl step)

subsection \<open>Thrown exceptions\<close>

text \<open>
  A handler that may throw (a \<open>TypeError\<close> from reading a field of \<open>undefined\<close>
  after a non-null assertion \<open>!\<close>) returns \<open>Raised s\<close>: JavaScript does not roll
  back, so \<open>s\<close> is the state reached when the exception was thrown.
\<close>

datatype 's js_result = Ok 's | Raised 's

fun js_state :: "'s js_result \<Rightarrow> 's" where
  "js_state (Ok s) = s"
| "js_state (Raised s) = s"

subsection \<open>JavaScript truthiness of an entity handle\<close>

text \<open>
  \<open>if (id)\<close> on a \<open>EntityId | null\<close> is false for \<open>null\<close> and also for the
  number \<open>0\<close>: \<open>truthy_id\<close> keeps exactly the handles such a test lets through.
\<close>

fun truthy_id :: "eid option \<Rightarrow> eid option" where
  "truthy_id None = None"
| "truthy_id (Some e) = (if e = 0 then None else Some e)"

lemma truthy_id_Some [simp]: "truthy_id x = Some e \<longleftrightarrow> x = Some e \<and> e \<noteq> 0"
  by (cases x) auto

subsection \<open>Generic list lemmas shared by the loop models\<close>

lemma foldl_invariant:
  assumes "P a" and "\<And>a x. P a \<Longrightarrow> x \<in> set xs \<Longrightarrow> P (f a x)"
  shows "P (foldl f a xs)"
  using assms by (induction xs arbitrary: a) auto

subsection \<open>First minimum of a list (reference for the nearest-entity searches)\<close>

text \<open>
  The element of least key, the first one among equal keys: the specification the
  source's \<open>for\<close> loops with a strict \<open>distance < nearestDistance\<close> test implement.
\<close>

fun argmin_first :: "('a \<Rightarrow> real) \<Rightarrow> 'a list \<Rightarrow> 'a option" where
  "argmin_first f [] = None"
| "argmin_first f (x # xs) =
     (case argmin_first f xs of None \<Rightarrow> Some x | Some y \<Rightarrow> if f y < f x then Some y else Some x)"

lemma argmin_first_None_iff [simp]: "argmin_first f xs = None \<longleftrightarrow> xs = []"
  by (induction xs) (auto split: option.splits)

lemma argmin_first_in: "argmin_first f xs = Some y \<Longrightarrow> y \<in> set xs"
  by (induction xs arbitrary: y) (auto split: option.splits if_splits)

lemma argmin_first_le: "argmin_first f xs = Some y \<Longrightarrow> x \<in> set xs \<Longrightarrow> f y \<le> f x"
proof (induction xs arbitrary: y)
  case Nil
  then show ?case by simp
next
  case (Cons a xs)
  then show ?case
    by (cases "argmin_first f xs") (force split: if_splits)+
qed

lemma argmin_first_first:
  "argmin_first f xs = Some y \<Longrightarrow> \<exists>as bs. xs = as @ y # bs \<and> (\<forall>a \<in> set as. f y < f a)"
proof (induction xs arbitrary: y)
  case Nil
  then show ?case by simp
next
  case (Cons a xs)
  show ?case
  proof (cases "argmin_first f xs")
    case None
    with Cons.prems show ?thesis by force
  next
    case (Some z)
    show ?thesis
    proof (cases "f z < f a")
      case True
      with Cons.prems Some have "y = z" by simp
      with Cons.IH [OF Some] True obtain as bs where
        "xs = as @ y # bs" "\<forall>a \<in> set as. f y < f a" by blast
      then have "a # xs = (a # as) @ y # bs" "\<forall>c \<in> set (a # as). f y < f c"
        using True \<open>y = z\<close> by auto
      then show ?thesis by blast
    next
      case False
      with Cons.prems Some show ?thesis by force
    qed
  qed
qed

lemmas argmin_first_props = argmin_first_in argmin_first_le argmin_first_first


subsection \<open>Minimum folds and option lists\<close>

lemma min_Fin [simp]: "min (Fin a) (Fin b) = Fin (min a b)"
  by (simp add: min_def)

lemma foldl_min_Fin:
  "foldl (\<lambda>m p. min m (Fin (d p))) a L = (if L = [] then a else min a (Fin (Min (d ` set L))))"
proof (induction L arbitrary: a)
  case Nil
  then show ?case by simp
next
  case (Cons x xs)
  show ?case
  proof (cases "xs = []")
    case True
    then show ?thesis by simp
  next
    case False
    then have "Min (d ` set (x # xs)) = min (d x) (Min (d ` set xs))"
      by (simp add: Min_insert)
    with Cons.IH False show ?thesis by (simp add: min.assoc)
  qed
qed

lemma those_map_None: "those (map f xs) = None \<longleftrightarrow> (\<exists>x \<in> set xs. f x = None)"
  by (induction xs) (auto split: option.splits)

lemma those_map_Some: "those (map f xs) = Some ys \<Longrightarrow> x \<in> set xs \<Longrightarrow> f x \<noteq> None"
  using those_map_None [of f xs] by auto

subsection \<open>JavaScript Sets as distinct lists\<close>

text \<open>A \<open>Set\<close> iterates in insertion order; \<open>Set.add\<close> appends a new element and
  leaves a present one in place, \<open>Set.delete\<close> is \<open>removeAll\<close>.\<close>

definition set_add :: "'a \<Rightarrow> 'a list \<Rightarrow> 'a list" where
  "set_add x xs = (if x \<in> set xs then xs else xs @ [x])"

lemma set_add_props [simp]:
  "set (set_add x xs) = insert x (set xs)" "distinct xs \<Longrightarrow> distinct (set_add x xs)"
  "x \<notin> set xs \<Longrightarrow> set_add x xs = xs @ [x]"
  by (auto simp: set_add_def)

end
