(* ===== verification/Host.thy ===== *)
theory Host
  imports Prelude
begin

text \<open>
  The host engine as the scripts see it. \<open>src/project/traits.ts\<close> declares the trait
  payloads (records below), \<open>src/project/commands.ts\<close> the network commands (the
  datatype \<open>net_msg\<close>). The engine's entity store is the record \<open>world\<close>: one
  partial map per trait kind, the live entities in creation order (the iteration order
  of \<open>J.getAllWithTraits\<close>), positions, liveness, view rays, the movement/aim sinks
  the bot writes, and the log of \<open>J.net.sendToAll\<close> broadcasts. The physics and
  pathfinding services the code only calls are the record \<open>host\<close> of functions,
  passed to the handlers as a parameter.
\<close>

subsection \<open>Traits (traits.ts)\<close>

record player_trait =
  kills :: int
  deathCount :: int
  respawnTime :: real
  arrowCount :: int
  maxArrows :: int
  lastKillTime :: real
  name :: string
  killStreak :: int

record spawner_trait =
  spawnedItemId :: int
  dryTime :: real

subsection \<open>Network commands (commands.ts)\<close>

type_synonym ray = "vec3 \<times> vec3"

datatype net_msg =
    ArrowCommand ray real eid int
  | HitCommand eid eid vec3 int
  | RespawnCommand eid vec3
  | PickupCommand eid vec3
  | ItemSpawnCommand vec3
  | EnvironmentalDeathCommand eid string

subsection \<open>The entity store\<close>

record world =
  w_time :: real
  w_entities :: "eid list"
  w_next :: eid
  w_player :: "eid \<Rightarrow> player_trait option"
  w_username :: "eid \<Rightarrow> string option"
  w_pickup :: "eid \<Rightarrow> bool"
  w_spawner :: "eid \<Rightarrow> spawner_trait option"
  w_respawner :: "eid \<Rightarrow> bool"
  w_pos :: "eid \<Rightarrow> vec3 option"
  w_alive :: "eid \<Rightarrow> bool"
  w_view :: "eid \<Rightarrow> ray option"
  w_move :: "eid \<Rightarrow> vec3 list option"
  w_look :: "eid \<Rightarrow> vec3 option"
  w_crouch :: "eid \<Rightarrow> bool"
  w_sent :: "(net_msg \<times> eid option) list"
  w_avatar :: "eid \<Rightarrow> string option"

text \<open>External services: \<open>J.raycast\<close> (hit flag and hit entity) and \<open>J.findPath\<close>.\<close>

record host =
  h_raycast :: "vec3 \<Rightarrow> vec3 \<Rightarrow> real \<Rightarrow> bool \<times> eid option"
  h_find_path :: "vec3 \<Rightarrow> vec3 \<Rightarrow> nat \<Rightarrow> bool \<times> vec3 list"

text \<open>\<open>J.getAllWithTraits([PlayerTrait])\<close>, \<open>([PickupTrait])\<close>, \<open>([PickupSpawnerTrait])\<close>,
  \<open>([RespawnerTrait])\<close>: the live entities carrying the trait, in store order.\<close>

definition players_of :: "world \<Rightarrow> eid list" where
  "players_of w = filter (\<lambda>e. w_player w e \<noteq> None) (w_entities w)"

definition pickups_of :: "world \<Rightarrow> eid list" where
  "pickups_of w = filter (w_pickup w) (w_entities w)"

definition spawners_of :: "world \<Rightarrow> eid list" where
  "spawners_of w = filter (\<lambda>e. w_spawner w e \<noteq> None) (w_entities w)"

definition respawners_of :: "world \<Rightarrow> eid list" where
  "respawners_of w = filter (w_respawner w) (w_entities w)"

definition set_player :: "eid \<Rightarrow> player_trait \<Rightarrow> world \<Rightarrow> world" where
  "set_player e p w = w\<lparr>w_player := (w_player w)(e \<mapsto> p)\<rparr>"

definition set_pos :: "eid \<Rightarrow> vec3 \<Rightarrow> world \<Rightarrow> world" where
  "set_pos e p w = w\<lparr>w_pos := (w_pos w)(e \<mapsto> p)\<rparr>"

definition send_to_all :: "net_msg \<Rightarrow> eid option \<Rightarrow> world \<Rightarrow> world" where
  "send_to_all m excl w = w\<lparr>w_sent := w_sent w @ [(m, excl)]\<rparr>"

definition clear_move :: "eid \<Rightarrow> world \<Rightarrow> world" where
  "clear_move e w = w\<lparr>w_move := (w_move w)(e := None)\<rparr>"

definition clear_look :: "eid \<Rightarrow> world \<Rightarrow> world" where
  "clear_look e w = w\<lparr>w_look := (w_look w)(e := None)\<rparr>"

definition set_look :: "eid \<Rightarrow> vec3 \<Rightarrow> world \<Rightarrow> world" where
  "set_look e p w = w\<lparr>w_look := (w_look w)(e \<mapsto> p)\<rparr>"

definition set_move :: "eid \<Rightarrow> vec3 list \<Rightarrow> world \<Rightarrow> world" where
  "set_move e ps w = w\<lparr>w_move := (w_move w)(e \<mapsto> ps)\<rparr>"

definition set_crouch :: "eid \<Rightarrow> bool \<Rightarrow> world \<Rightarrow> world" where
  "set_crouch e b w = w\<lparr>w_crouch := (w_crouch w)(e := b)\<rparr>"

definition set_alive :: "eid \<Rightarrow> bool \<Rightarrow> world \<Rightarrow> world" where
  "set_alive e b w = w\<lparr>w_alive := (w_alive w)(e := b)\<rparr>"

text \<open>\<open>J.spawnCharacter\<close> / \<open>J.spawnProp\<close>: a fresh handle, appended to the store.\<close>

definition spawn_entity :: "world \<Rightarrow> eid \<times> world" where
  "spawn_entity w = (w_next w,
     w\<lparr>w_entities := w_entities w @ [w_next w], w_next := Suc (w_next w)\<rparr>)"

text \<open>\<open>J.spawnCharacter(avatarId)\<close>: a fresh entity wearing the avatar.\<close>

definition spawn_character :: "string \<Rightarrow> world \<Rightarrow> eid \<times> world" where
  "spawn_character avatarId w =
     (let (e, w1) = spawn_entity w in (e, w1\<lparr>w_avatar := (w_avatar w1)(e \<mapsto> avatarId)\<rparr>))"

text \<open>\<open>J.removeEntity\<close>: the entity leaves the store with all its traits.\<close>

definition remove_entity :: "eid \<Rightarrow> world \<Rightarrow> world" where
  "remove_entity e w = w\<lparr>w_entities := removeAll e (w_entities w),
     w_player := (w_player w)(e := None), w_pickup := (w_pickup w)(e := False),
     w_spawner := (w_spawner w)(e := None), w_respawner := (w_respawner w)(e := False),
     w_pos := (w_pos w)(e := None), w_alive := (w_alive w)(e := False),
     w_view := (w_view w)(e := None), w_avatar := (w_avatar w)(e := None)\<rparr>"

lemmas world_ops_defs = set_player_def set_pos_def send_to_all_def clear_move_def
  clear_look_def set_look_def set_move_def set_crouch_def set_alive_def
  spawn_entity_def spawn_character_def remove_entity_def

declare world_ops_defs [model_simps] players_of_def [model_simps]
  pickups_of_def [model_simps] spawners_of_def [model_simps] respawners_of_def [model_simps]

subsection \<open>Well-formed stores\<close>

text \<open>Traits and positions belong to live entities, handles are distinct and below the
  next fresh handle.\<close>

definition world_wf :: "world \<Rightarrow> bool" where
  "world_wf w \<longleftrightarrow> distinct (w_entities w) \<and> (\<forall>e \<in> set (w_entities w). e < w_next w)
     \<and> (\<forall>e. w_player w e \<noteq> None \<longrightarrow> e \<in> set (w_entities w))
     \<and> (\<forall>e. w_pickup w e \<longrightarrow> e \<in> set (w_entities w))"

lemma spawn_entity_fresh:
  "world_wf w \<Longrightarrow> spawn_entity w = (e, w') \<Longrightarrow> e \<notin> set (w_entities w) \<and> w_player w e = None"
  unfolding world_wf_def spawn_entity_def by auto

lemma spawn_entity_wf: "world_wf w \<Longrightarrow> world_wf (snd (spawn_entity w))"
  unfolding world_wf_def spawn_entity_def by auto

lemma remove_entity_wf: "world_wf w \<Longrightarrow> world_wf (remove_entity e w)"
  unfolding world_wf_def remove_entity_def by (auto simp: distinct_removeAll)

lemma set_player_wf:
  "world_wf w \<Longrightarrow> e \<in> set (w_entities w) \<Longrightarrow> world_wf (set_player e p w)"
  unfolding world_wf_def set_player_def by auto

lemma players_of_set_player [simp]:
  "w_player w e \<noteq> None \<Longrightarrow> players_of (set_player e p w) = players_of w"
  unfolding players_of_def set_player_def by (auto intro: filter_cong)


subsection \<open>The frame of a bot's think cycle\<close>

text \<open>
  \<open>world_frame b w w'\<close>: \<open>w'\<close> differs from \<open>w\<close> at most in the movement,
  look-at and crouch sinks and the player trait of entity \<open>b\<close> (a trait that stays
  present), and by broadcasts appended to the log.
\<close>

definition world_frame :: "eid \<Rightarrow> world \<Rightarrow> world \<Rightarrow> bool" where
  "world_frame b w w' \<longleftrightarrow>
     w' = w\<lparr>w_player := w_player w', w_move := w_move w', w_look := w_look w',
            w_crouch := w_crouch w', w_sent := w_sent w'\<rparr>
     \<and> (\<forall>e. e \<noteq> b \<longrightarrow> w_player w' e = w_player w e \<and> w_move w' e = w_move w e
            \<and> w_look w' e = w_look w e \<and> w_crouch w' e = w_crouch w e)
     \<and> (w_player w' b = None \<longleftrightarrow> w_player w b = None)
     \<and> (\<exists>ms. w_sent w' = w_sent w @ ms)"

lemma world_frame_refl [intro, simp]: "world_frame b w w"
  by (simp add: world_frame_def)

lemma world_frame_trans: "world_frame b w1 w2 \<Longrightarrow> world_frame b w2 w3 \<Longrightarrow> world_frame b w1 w3"
  unfolding world_frame_def by (cases w1; cases w2; cases w3) fastforce

lemma world_frame_ops [intro, simp]:
  "world_frame b w (set_crouch b c w)" "world_frame b w (set_look b p w)"
  "world_frame b w (clear_look b w)" "world_frame b w (set_move b ps w)"
  "world_frame b w (clear_move b w)" "world_frame b w (send_to_all m x w)"
  "w_player w b \<noteq> None \<Longrightarrow> world_frame b w (set_player b q w)"
  by (auto simp: world_frame_def world_ops_defs)

lemma world_frame_same:
  assumes "world_frame b w w'"
  shows "w_pos w' = w_pos w" "w_alive w' = w_alive w" "w_view w' = w_view w"
    "w_entities w' = w_entities w" "w_pickup w' = w_pickup w" "w_time w' = w_time w"
    "players_of w' = players_of w" "pickups_of w' = pickups_of w"
    "w_next w' = w_next w" "w_avatar w' = w_avatar w"
proof -
  from assms have eq: "w' = w\<lparr>w_player := w_player w', w_move := w_move w', w_look := w_look w',
      w_crouch := w_crouch w', w_sent := w_sent w'\<rparr>"
    and pl: "\<And>e. (w_player w' e = None) = (w_player w e = None)"
    unfolding world_frame_def by (blast, metis)
  have ent: "w_entities w' = w_entities w" and pk: "w_pickup w' = w_pickup w"
    by (subst eq; simp)+
  show "w_pos w' = w_pos w" "w_alive w' = w_alive w" "w_view w' = w_view w"
    "w_entities w' = w_entities w" "w_pickup w' = w_pickup w" "w_time w' = w_time w"
    "w_next w' = w_next w" "w_avatar w' = w_avatar w"
    by (subst eq; simp)+
  show "players_of w' = players_of w"
    unfolding players_of_def using pl ent by (auto intro: filter_cong)
  show "pickups_of w' = pickups_of w"
    unfolding pickups_of_def using ent pk by simp
qed

subsection \<open>Well-formedness under the store operations\<close>

text \<open>Well-formedness reads only the entity list, the next handle, the pickup flags and
  which entities hold a player trait.\<close>

lemma world_wf_cong:
  assumes "world_wf w" "w_entities w' = w_entities w" "w_next w' = w_next w"
    "w_pickup w' = w_pickup w" "\<And>e. w_player w' e \<noteq> None \<Longrightarrow> w_player w e \<noteq> None \<or> e \<in> set (w_entities w)"
  shows "world_wf w'"
proof -
  have pl: "w_player w' e \<noteq> None \<Longrightarrow> e \<in> set (w_entities w)" for e
    using assms(1) assms(5) [of e] unfolding world_wf_def by blast
  show ?thesis using assms(1-4) pl unfolding world_wf_def by simp
qed

lemma world_frame_wf:
  assumes fr: "world_frame b w w'" and wf: "world_wf w"
  shows "world_wf w'"
proof (rule world_wf_cong [OF wf])
  have "w_player w' e = None \<longleftrightarrow> w_player w e = None" for e
    using fr unfolding world_frame_def by metis
  then show "w_player w' e \<noteq> None \<Longrightarrow> w_player w e \<noteq> None \<or> e \<in> set (w_entities w)" for e
    by simp
qed (simp_all add: world_frame_same [OF fr])

lemma spawn_character_props:
  assumes "world_wf w" "spawn_character a w = (e, w')"
  shows "e = w_next w" "e \<notin> set (w_entities w)" "w_player w e = None" "world_wf w'"
    "w_entities w' = w_entities w @ [e]" "w_time w' = w_time w" "w_pos w' = w_pos w"
    "w_alive w' = w_alive w" "w_player w' = w_player w" "w_avatar w' e = Some a"
  using assms unfolding spawn_character_def world_wf_def spawn_entity_def by (auto simp: less_Suc_eq)

subsection \<open>The trait typing invariant\<close>

text \<open>A player trait is well typed when its counters are naturals and it holds between 0
  and \<open>maxArrows\<close> arrows, \<open>maxArrows\<close> being 3, the value every trait is created with
  (traits.ts declares them all as \<open>number\<close>). \<open>trait_inv\<close> says every trait of the store is;
  the lemmas below are the interface the handlers' preservation proofs use.\<close>

definition trait_typed :: "player_trait \<Rightarrow> bool" where
  "trait_typed p \<longleftrightarrow> maxArrows p = 3 \<and> 0 \<le> arrowCount p \<and> arrowCount p \<le> 3
     \<and> 0 \<le> kills p \<and> 0 \<le> deathCount p \<and> 0 \<le> killStreak p"

definition trait_inv :: "world \<Rightarrow> bool" where
  "trait_inv w \<longleftrightarrow> (\<forall>e p. w_player w e = Some p \<longrightarrow> trait_typed p)"

lemma trait_inv_players: "trait_inv w \<Longrightarrow> w_player w' = w_player w \<Longrightarrow> trait_inv w'"
  unfolding trait_inv_def by metis

lemma trait_inv_set_player:
  "trait_inv w \<Longrightarrow> trait_typed p \<Longrightarrow> trait_inv (set_player e p w)"
  unfolding trait_inv_def set_player_def by auto

lemma trait_inv_ops [simp]:
  "trait_inv (set_pos e v w) = trait_inv w" "trait_inv (send_to_all m x w) = trait_inv w"
  "trait_inv (set_alive e b w) = trait_inv w" "trait_inv (clear_move e w) = trait_inv w"
  "trait_inv (clear_look e w) = trait_inv w" "trait_inv (set_look e v w) = trait_inv w"
  "trait_inv (set_move e ps w) = trait_inv w" "trait_inv (set_crouch e b w) = trait_inv w"
  "trait_inv (snd (spawn_entity w)) = trait_inv w" "trait_inv (snd (spawn_character a w)) = trait_inv w"
  by (simp_all add: trait_inv_def world_ops_defs split: prod.splits)

lemma trait_inv_typed: "trait_inv w \<Longrightarrow> w_player w e = Some p \<Longrightarrow> trait_typed p"
  unfolding trait_inv_def by blast

lemma trait_inv_arrows:
  "trait_inv w \<Longrightarrow> w_player w e = Some p \<Longrightarrow> 0 \<le> n \<Longrightarrow> n \<le> 3 \<Longrightarrow>
     trait_inv (set_player e (p\<lparr>arrowCount := n\<rparr>) w)"
  unfolding trait_inv_def trait_typed_def set_player_def by auto

lemma trait_inv_same_arrows:
  assumes "trait_inv w" "w_player w e = Some p" "arrowCount q = arrowCount p"
    "maxArrows q = maxArrows p" "kills p \<le> kills q" "deathCount p \<le> deathCount q"
    "killStreak p \<le> killStreak q \<or> killStreak q = 0"
  shows "trait_inv (set_player e q w)"
proof (rule trait_inv_set_player [OF assms(1)])
  have "trait_typed p" using assms(1,2) by (rule trait_inv_typed)
  then show "trait_typed q" using assms(3-7) unfolding trait_typed_def by auto
qed

lemma trait_inv_remove: "trait_inv w \<Longrightarrow> trait_inv (remove_entity e w)"
  unfolding trait_inv_def trait_typed_def remove_entity_def by auto

subsection \<open>A small arena for the witnesses\<close>

text \<open>Bot 1 at the origin, players 2 (distance 5) and 3 (distance 10) alive, pickups 4
  (distance 1) and 5 (distance 2).\<close>

definition demo_player :: player_trait where
  "demo_player = \<lparr>kills = 0, deathCount = 0, respawnTime = 0, arrowCount = 3, maxArrows = 3,
     lastKillTime = 0, name = ''Legolas'', killStreak = 0\<rparr>"

definition demo_world :: world where
  "demo_world = \<lparr>w_time = 10, w_entities = [1, 2, 3, 4, 5], w_next = 6,
     w_player = [1 \<mapsto> demo_player, 2 \<mapsto> demo_player, 3 \<mapsto> demo_player],
     w_username = [2 \<mapsto> ''alice''],
     w_pickup = (\<lambda>e. e = 4 \<or> e = 5), w_spawner = Map.empty, w_respawner = (\<lambda>_. False),
     w_pos = [1 \<mapsto> (0, 0, 0), 2 \<mapsto> (3, 4, 0), 3 \<mapsto> (6, 8, 0), 4 \<mapsto> (1, 0, 0), 5 \<mapsto> (0, 2, 0)],
     w_alive = (\<lambda>e. e \<in> {1, 2, 3}), w_view = [1 \<mapsto> ((0, 2, 0), (1, 0, 0)), 2 \<mapsto> ((3, 6, 0), (1, 0, 0))],
     w_move = Map.empty, w_look = Map.empty, w_crouch = (\<lambda>_. False), w_sent = [],
     w_avatar = Map.empty\<rparr>"

end
