(* ===== verification/Targeting.thy ===== *)
theory Targeting
  imports Host
begin

text \<open>
  The Targeting Selector of \<open>src/project/server/bots.ts\<close>: \<open>findNearestPickup\<close>,
  \<open>findRandomPickup\<close> and \<open>findNearestEnemy\<close>. Both nearest searches are the same
  \<open>for\<close> loop over a trait query, with \<open>continue\<close> for skipped handles and for
  entities without a position, and a strict \<open>distance < nearestDistance\<close> update
  starting from \<open>Infinity\<close>; \<open>nearest_scan\<close> is that loop, with the skip test as
  its parameter. The main results: each search returns the first entity of least
  distance among the candidates (\<open>argmin_first\<close>), and the random choice stays in
  the pickup list for a \<open>Math.random()\<close> value in \<open>[0, 1)\<close>.
\<close>

fun nearest_scan :: "(eid \<Rightarrow> bool) \<Rightarrow> (eid \<Rightarrow> vec3 option) \<Rightarrow> vec3 \<Rightarrow>
    eid option \<times> xreal \<Rightarrow> eid list \<Rightarrow> eid option \<times> xreal" where
  "nearest_scan skip pos bp acc [] = acc"
| "nearest_scan skip pos bp (best, bd) (i # ids) =
     (if skip i then nearest_scan skip pos bp (best, bd) ids
      else case pos i of
        None \<Rightarrow> nearest_scan skip pos bp (best, bd) ids
      | Some p \<Rightarrow>
          (let d = vdist bp p in
           if Fin d < bd then nearest_scan skip pos bp (Some i, Fin d) ids
           else nearest_scan skip pos bp (best, bd) ids))"

definition findNearestPickup :: "world \<Rightarrow> eid \<Rightarrow> eid option" where
  "findNearestPickup w botId =
     (case w_pos w botId of
       None \<Rightarrow> None
     | Some botPos \<Rightarrow> fst (nearest_scan (\<lambda>_. False) (w_pos w) botPos (None, PInf) (pickups_of w)))"

text \<open>\<open>Math.floor(Math.random() * pickupArray.length)\<close>, the random number given as \<open>r\<close>.\<close>

definition findRandomPickup :: "world \<Rightarrow> real \<Rightarrow> eid option" where
  "findRandomPickup w r =
     (let pickupArray = pickups_of w in
      if length pickupArray = 0 then None
      else Some (pickupArray ! nat \<lfloor>r * real (length pickupArray)\<rfloor>))"

definition enemy_skip :: "world \<Rightarrow> eid \<Rightarrow> eid \<Rightarrow> bool" where
  "enemy_skip w botId i \<longleftrightarrow> i = botId \<or> \<not> w_alive w i"

definition findNearestEnemy :: "world \<Rightarrow> eid \<Rightarrow> eid option" where
  "findNearestEnemy w botId =
     (case w_pos w botId of
       None \<Rightarrow> None
     | Some botPos \<Rightarrow> fst (nearest_scan (enemy_skip w botId) (w_pos w) botPos (None, PInf) (players_of w)))"

declare findNearestPickup_def [model_simps] findRandomPickup_def [model_simps]
  enemy_skip_def [model_simps] findNearestEnemy_def [model_simps]

subsection \<open>The loop refines the first-minimum search\<close>

text \<open>The entities the loop compares: not skipped, with a position.\<close>

fun candidates :: "(eid \<Rightarrow> bool) \<Rightarrow> (eid \<Rightarrow> vec3 option) \<Rightarrow> eid list \<Rightarrow> (eid \<times> vec3) list" where
  "candidates skip pos [] = []"
| "candidates skip pos (i # ids) =
     (if skip i then candidates skip pos ids
      else case pos i of None \<Rightarrow> candidates skip pos ids | Some p \<Rightarrow> (i, p) # candidates skip pos ids)"

lemma candidates_iff:
  "(i, p) \<in> set (candidates skip pos ids) \<longleftrightarrow> i \<in> set ids \<and> \<not> skip i \<and> pos i = Some p"
  by (induction ids) (auto split: option.splits)

text \<open>
  With any accumulator: the loop ends at the first least candidate when its distance
  beats the accumulator's, and keeps the accumulator otherwise.
\<close>

lemma nearest_scan_argmin:
  "nearest_scan skip pos bp acc ids =
     (case argmin_first (\<lambda>(i, p). vdist bp p) (candidates skip pos ids) of
        None \<Rightarrow> acc
      | Some (e, p) \<Rightarrow> if Fin (vdist bp p) < snd acc then (Some e, Fin (vdist bp p)) else acc)"
proof (induction ids arbitrary: acc)
  case Nil
  then show ?case by simp
next
  case (Cons i ids)
  obtain best bd where acc: "acc = (best, bd)" by fastforce
  show ?case
  proof (cases "skip i")
    case True
    then show ?thesis unfolding acc by (simp add: Cons.IH)
  next
    case False
    show ?thesis
    proof (cases "pos i")
      case None
      with False show ?thesis unfolding acc by (simp add: Cons.IH)
    next
      case (Some q)
      with False show ?thesis unfolding acc
        by (auto simp: Cons.IH Let_def not_less split: option.splits prod.splits
            dest: Fin_less_le_Fin)
    qed
  qed
qed

lemma fst_nearest_scan_init:
  "fst (nearest_scan skip pos bp (None, PInf) ids) =
     map_option fst (argmin_first (\<lambda>(i, p). vdist bp p) (candidates skip pos ids))"
  by (simp add: nearest_scan_argmin split: option.splits)


text \<open>What the loop's result is, started as the source starts it.\<close>

lemma nearest_scan_init_Some:
  assumes "fst (nearest_scan skip pos bp (None, PInf) ids) = Some e"
  shows "\<exists>p. pos e = Some p \<and> e \<in> set ids \<and> \<not> skip e
           \<and> (\<forall>c q. c \<in> set ids \<and> \<not> skip c \<and> pos c = Some q \<longrightarrow> vdist bp p \<le> vdist bp q)"
proof -
  from assms obtain p where am: "argmin_first (\<lambda>(i, p). vdist bp p) (candidates skip pos ids) = Some (e, p)"
    by (auto simp: fst_nearest_scan_init)
  then have "(e, p) \<in> set (candidates skip pos ids)" by (rule argmin_first_in)
  moreover have "vdist bp p \<le> vdist bp q" if "(c, q) \<in> set (candidates skip pos ids)" for c q
    using argmin_first_le [OF am that] by simp
  ultimately show ?thesis by (auto simp: candidates_iff)
qed

lemma nearest_scan_init_None:
  "fst (nearest_scan skip pos bp (None, PInf) ids) = None \<longleftrightarrow>
     (\<forall>c \<in> set ids. skip c \<or> pos c = None)"
proof -
  have "candidates skip pos ids = [] \<longleftrightarrow> (\<forall>c \<in> set ids. skip c \<or> pos c = None)"
    using candidates_iff [of _ _ skip pos ids]
    by (metis (no_types, opaque_lifting) list.set_intros(1) neq_Nil_conv not_None_eq old.prod.exhaust
        empty_iff list.set(1))
  then show ?thesis by (simp add: fst_nearest_scan_init)
qed

lemma random_index_bound:
  assumes "0 \<le> r" and "r < 1" and "0 < n"
  shows "nat \<lfloor>r * real n\<rfloor> < n"
proof -
  have "r * real n < real n" using assms by simp
  then have "\<lfloor>r * real n\<rfloor> < int n" by linarith
  with assms(3) show ?thesis by (simp add: nat_less_iff)
qed

subsection \<open>Properties\<close>

lemma candidates_map_filter:
  "candidates skip pos ids = List.map_filter (\<lambda>i. map_option (Pair i) (pos i)) (filter (\<lambda>i. \<not> skip i) ids)"
  by (induction ids) (auto simp: map_filter_simps split: option.split)

text \<open>C8: findNearestEnemy is the first-minimum search over the living players other
  than the bot that have a position: the loop of bots.ts equals argmin_first on the
  explicitly filtered list of candidates (a functional refinement of the loop).\<close>

theorem findNearestEnemy_refines:
  "findNearestEnemy w b =
     (case w_pos w b of
        None \<Rightarrow> None
      | Some bp \<Rightarrow> map_option fst
          (argmin_first (\<lambda>(i, p). vdist bp p)
             (List.map_filter (\<lambda>i. map_option (Pair i) (w_pos w i))
                (filter (\<lambda>i. i \<noteq> b \<and> w_alive w i) (players_of w)))))"
  by (simp add: findNearestEnemy_def fst_nearest_scan_init candidates_map_filter enemy_skip_def
      split: option.splits)

text \<open>the enemy found is a living player other than the bot, with a position, and no
  living player with a position is nearer to the bot.\<close>

theorem findNearestEnemy_nearest:
  assumes "findNearestEnemy w b = Some e"
  shows "\<exists>bp p. w_pos w b = Some bp \<and> w_pos w e = Some p \<and> e \<in> set (players_of w)
           \<and> e \<noteq> b \<and> w_alive w e
           \<and> (\<forall>c q. c \<in> set (players_of w) \<and> c \<noteq> b \<and> w_alive w c \<and> w_pos w c = Some q
                  \<longrightarrow> vdist bp p \<le> vdist bp q)"
proof -
  from assms obtain bp where bp: "w_pos w b = Some bp"
    and scan: "fst (nearest_scan (enemy_skip w b) (w_pos w) bp (None, PInf) (players_of w)) = Some e"
    by (auto simp: findNearestEnemy_def split: option.splits)
  from nearest_scan_init_Some [OF scan] bp show ?thesis
    by (auto simp: enemy_skip_def)
qed

theorem findNearestEnemy_nearest_witness:
  "findNearestEnemy demo_world 1 = Some 2 \<and> w_alive demo_world 2 \<and> 2 \<in> set (players_of demo_world)"
proof -
  have h: "findNearestEnemy demo_world 1 = Some 2"
    by (simp add: demo_world_def model_simps)
  from findNearestEnemy_nearest [OF h]
  have "w_alive demo_world 2 \<and> 2 \<in> set (players_of demo_world)" by blast
  with h show ?thesis by simp
qed

text \<open>findNearestPickup returns a pickup with a position that no other pickup with
  a position is nearer than.\<close>

theorem findNearestPickup_nearest:
  assumes "findNearestPickup w b = Some e"
  shows "\<exists>bp p. w_pos w b = Some bp \<and> w_pos w e = Some p \<and> e \<in> set (pickups_of w)
           \<and> (\<forall>c q. c \<in> set (pickups_of w) \<and> w_pos w c = Some q \<longrightarrow> vdist bp p \<le> vdist bp q)"
proof -
  from assms obtain bp where bp: "w_pos w b = Some bp"
    and scan: "fst (nearest_scan (\<lambda>_. False) (w_pos w) bp (None, PInf) (pickups_of w)) = Some e"
    by (auto simp: findNearestPickup_def split: option.splits)
  from nearest_scan_init_Some [OF scan] bp show ?thesis by auto
qed

theorem findNearestPickup_nearest_witness:
  "findNearestPickup demo_world 1 = Some 4 \<and> 4 \<in> set (pickups_of demo_world)"
proof -
  have h: "findNearestPickup demo_world 1 = Some 4"
    by (simp add: demo_world_def model_simps)
  from findNearestPickup_nearest [OF h] have "4 \<in> set (pickups_of demo_world)" by blast
  with h show ?thesis by simp
qed

text \<open>for a random number in [0, 1), findRandomPickup returns an element of the pickup
  list when there is one, and null when there is none.\<close>

theorem findRandomPickup_in_list:
  assumes "0 \<le> r" and "r < 1"
  shows "(pickups_of w = [] \<longrightarrow> findRandomPickup w r = None)
       \<and> (pickups_of w \<noteq> [] \<longrightarrow> (\<exists>e. findRandomPickup w r = Some e \<and> e \<in> set (pickups_of w)))"
proof -
  have "pickups_of w ! nat \<lfloor>r * real (length (pickups_of w))\<rfloor> \<in> set (pickups_of w)"
    if "pickups_of w \<noteq> []"
    using random_index_bound [OF assms, of "length (pickups_of w)"] that by simp
  then show ?thesis by (auto simp: findRandomPickup_def Let_def)
qed

theorem findRandomPickup_in_list_witness:
  "findRandomPickup demo_world 0.99 = Some 5 \<and> 5 \<in> set (pickups_of demo_world)"
proof -
  have "(0::real) \<le> 0.99" "(0.99::real) < 1" by simp_all
  from findRandomPickup_in_list [OF this, of demo_world]
  have "\<exists>e. findRandomPickup demo_world 0.99 = Some e \<and> e \<in> set (pickups_of demo_world)"
    by (simp add: demo_world_def pickups_of_def)
  moreover have "findRandomPickup demo_world 0.99 = Some 5"
    by (simp add: demo_world_def model_simps)
  ultimately show ?thesis by auto
qed

end
