(* ===== verification/BotAI.thy ===== *)
theory BotAI
  imports Targeting
begin

text \<open>
  The Bot Decision Policy: \<open>updateBotAI\<close> of \<open>src/project/server/bots.ts\<close>
  (lines 170-370) with its per-bot state \<open>BotState\<close> (lines 49-61) and constants
  (lines 6-14). The handler is split at its statement groups, each a definition here,
  composed with \<open>then_flow\<close> so that every \<open>return\<close> of the source is a
  \<open>Return\<close>: \<open>bot_engage\<close> (look at and shoot the nearest enemy, lines 188-283, with
  \<open>bot_try_shoot\<close> for lines 246-276 and the aim solver \<open>aim_target\<close> for lines
  221-234), \<open>bot_idle_gate\<close> (285-289), \<open>bot_follow_goal\<close> (291-313) and
  \<open>bot_select_goal\<close> (315-369). Every \<open>Math.random()\<close> call of a think cycle is a
  field of \<open>think_rolls\<close>, each a number in \<open>[0, 1)\<close>.
\<close>

subsection \<open>Constants and state\<close>

definition BOT_THINK_INTERVAL :: real where "BOT_THINK_INTERVAL = 0.7"
definition BOT_SHOOT_COOLDOWN :: real where "BOT_SHOOT_COOLDOWN = 3.0"
definition BOT_STUCK_THRESHOLD :: real where "BOT_STUCK_THRESHOLD = 5.0"
definition BOT_PROGRESS_THRESHOLD :: real where "BOT_PROGRESS_THRESHOLD = 0.1"
definition BOT_IDLE_DURATION_MIN :: real where "BOT_IDLE_DURATION_MIN = 0.5"
definition BOT_IDLE_DURATION_MAX :: real where "BOT_IDLE_DURATION_MAX = 2"

lemmas bot_constants = BOT_THINK_INTERVAL_def BOT_SHOOT_COOLDOWN_def BOT_STUCK_THRESHOLD_def
  BOT_PROGRESS_THRESHOLD_def BOT_IDLE_DURATION_MIN_def BOT_IDLE_DURATION_MAX_def

declare bot_constants [model_simps]

record bot_state =
  lastThinkTime :: real
  currentTargetPickup :: "eid option"
  lastShootTime :: real
  currentPath :: "vec3 list"
  currentPathStart :: vec3
  currentPathGoal :: vec3
  lastDistanceToGoal :: xreal
  lastDistanceDecreaseTime :: real
  idleUntilTime :: real
  spawnTime :: real
  leaveTime :: real

text \<open>\<open>botStates\<close>: the map from bot handles to their state.\<close>

type_synonym bots = "eid \<Rightarrow> bot_state option"

record think_rolls =
  roll_offset :: real
  roll_draw :: real
  roll_crouch :: real
  roll_net :: real
  roll_idle :: real
  roll_idle_dur :: real
  roll_pick :: real

subsection \<open>Ballistic aim solver (lines 221-234)\<close>

definition aim_draw :: "real \<Rightarrow> real" where
  "aim_draw r = 0.7 + r * 0.3"

definition aim_offset :: "real \<Rightarrow> real" where
  "aim_offset r = (1 + r) * -2"

definition aim_target :: "vec3 \<Rightarrow> real \<Rightarrow> real \<Rightarrow> real \<Rightarrow> vec3" where
  "aim_target enemyViewPos distance r draw =
     (let randomOffset = aim_offset r;
          arrowSpeed = 50 * draw * 1.5;
          g = 9.81;
          time = distance / arrowSpeed;
          drop = 0.5 * g * time * time
      in (vx enemyViewPos, vy enemyViewPos + drop + randomOffset, vz enemyViewPos))"

declare aim_draw_def [model_simps] aim_offset_def [model_simps] aim_target_def [model_simps]

subsection \<open>Shooting (lines 244-276)\<close>

definition bot_try_shoot :: "think_rolls \<Rightarrow> eid \<Rightarrow> real \<Rightarrow> real \<Rightarrow> bot_state \<times> world \<Rightarrow> bot_state \<times> world" where
  "bot_try_shoot r botId t draw = (\<lambda>(st, w).
     if BOT_SHOOT_COOLDOWN \<le> t - lastShootTime st then
       (case w_player w botId of
          None \<Rightarrow> (st, w)
        | Some p \<Rightarrow>
            if 0 < arrowCount p then
              (case w_view w botId of
                 None \<Rightarrow> (st, w)
               | Some viewRay \<Rightarrow>
                   (let netId = \<lfloor>roll_net r * 2147483647\<rfloor>;
                        w1 = send_to_all (ArrowCommand viewRay draw botId netId) None w;
                        w2 = set_player botId (p\<lparr>arrowCount := arrowCount p - 1\<rparr>) w1;
                        st1 = st\<lparr>lastShootTime := t\<rparr>;
                        st2 = (if roll_idle r < 0.3
                               then st1\<lparr>idleUntilTime := t + (roll_idle_dur r *
                                   (BOT_IDLE_DURATION_MAX - BOT_IDLE_DURATION_MIN) + BOT_IDLE_DURATION_MIN)\<rparr>
                               else st1)
                    in (st2, w2)))
            else (st, w))
     else (st, w))"

subsection \<open>Engagement (lines 188-283)\<close>

definition bot_engage :: "host \<Rightarrow> think_rolls \<Rightarrow> eid \<Rightarrow> real \<Rightarrow> vec3 \<Rightarrow>
    bot_state \<times> world \<Rightarrow> (bot_state \<times> world) flow" where
  "bot_engage h r botId t botPos = (\<lambda>(st, w).
     case truthy_id (findNearestEnemy w botId) of
       None \<Rightarrow> Continue (st, set_crouch botId False w)
     | Some nearestEnemy \<Rightarrow>
         (case w_view w nearestEnemy of
            None \<Rightarrow> Continue (st, w)
          | Some (enemyViewPos, _) \<Rightarrow>
              (let distance = vdist botPos enemyViewPos in
               case w_view w botId of
                 None \<Rightarrow> Return (st, w)
               | Some (origin, _) \<Rightarrow>
                   (let directionToEnemy = vnormalize (vsub enemyViewPos origin);
                        rayStart = vadd origin (vscale directionToEnemy 2);
                        (hit, hitEntityId) = h_raycast h rayStart directionToEnemy 200;
                        hasLineOfSight = (\<not> hit \<or> hitEntityId = Some nearestEnemy);
                        draw = aim_draw (roll_draw r);
                        aimTarget = aim_target enemyViewPos distance (roll_offset r) draw;
                        w1 = set_crouch botId (roll_crouch r < 0.2) (set_look botId aimTarget w)
                    in if hasLineOfSight then Continue (bot_try_shoot r botId t draw (st, w1))
                       else Continue (st, set_crouch botId False w1)))))"

subsection \<open>Idle gate and goal following (lines 285-313)\<close>

definition bot_idle_gate :: "eid \<Rightarrow> real \<Rightarrow> bot_state \<times> world \<Rightarrow> (bot_state \<times> world) flow" where
  "bot_idle_gate botId t = (\<lambda>(st, w).
     if t < idleUntilTime st then Return (st, clear_move botId w) else Continue (st, w))"

definition bot_follow_goal :: "eid \<Rightarrow> real \<Rightarrow> vec3 \<Rightarrow> bot_state \<times> world \<Rightarrow> (bot_state \<times> world) flow" where
  "bot_follow_goal botId t botPos = (\<lambda>(st, w).
     case currentTargetPickup st of
       None \<Rightarrow> Continue (st, w)
     | Some tgt \<Rightarrow>
         (case w_pos w tgt of
            None \<Rightarrow> Continue (st\<lparr>currentTargetPickup := None, currentPath := [],
                                   lastDistanceToGoal := PInf\<rparr>, w)
          | Some targetPos \<Rightarrow>
              (let currentDistance = vdist botPos targetPos;
                   st1 = (if Fin currentDistance < xsub (lastDistanceToGoal st) BOT_PROGRESS_THRESHOLD
                          then st\<lparr>lastDistanceToGoal := Fin currentDistance,
                                  lastDistanceDecreaseTime := t\<rparr>
                          else st)
               in if t - lastDistanceDecreaseTime st1 < BOT_STUCK_THRESHOLD then Return (st1, w)
                  else Continue (st1\<lparr>lastDistanceToGoal := PInf, lastDistanceDecreaseTime := t\<rparr>, w))))"

subsection \<open>Goal selection (lines 315-369)\<close>

definition path_start :: "vec3 \<Rightarrow> vec3" where
  "path_start p = (of_int (js_round (vx p - 0.5)), of_int (js_round (vy p)), of_int (js_round (vz p - 0.5)))"

definition path_goal :: "vec3 \<Rightarrow> vec3" where
  "path_goal p = (of_int (js_round (vx p - 0.5)), of_int \<lfloor>vy p - 1\<rfloor>, of_int (js_round (vz p - 0.5)))"

definition adjust_waypoint :: "vec3 \<Rightarrow> vec3" where
  "adjust_waypoint p = (vx p + 0.5, vy p + 0.2, vz p + 0.5)"

declare path_start_def [model_simps] path_goal_def [model_simps] adjust_waypoint_def [model_simps]

definition has_max_arrows :: "world \<Rightarrow> eid \<Rightarrow> bool" where
  "has_max_arrows w botId = (case w_player w botId of None \<Rightarrow> False | Some p \<Rightarrow> arrowCount p = 3)"

definition bot_select_goal :: "host \<Rightarrow> think_rolls \<Rightarrow> eid \<Rightarrow> real \<Rightarrow> vec3 \<Rightarrow>
    bot_state \<times> world \<Rightarrow> bot_state \<times> world" where
  "bot_select_goal h r botId t botPos = (\<lambda>(st, w).
     (let targetPickup = (if has_max_arrows w botId then findRandomPickup w (roll_pick r)
                          else findNearestPickup w botId)
      in case truthy_id targetPickup of
           None \<Rightarrow> (st\<lparr>currentPath := []\<rparr>, clear_look botId (clear_move botId w))
         | Some tp \<Rightarrow>
             (case w_pos w tp of
                None \<Rightarrow> (st, w)
              | Some pickupPos \<Rightarrow>
                  (let pathStart = path_start botPos;
                       pathGoal = path_goal pickupPos;
                       (success, path) = h_find_path h pathStart pathGoal 1000
                   in if \<not> success \<or> path = [] then
                        (st\<lparr>currentPath := [], currentPathStart := pathStart,
                            currentPathGoal := pathGoal\<rparr>, w)
                      else
                        (let adjustedPath = map adjust_waypoint path;
                             st1 = st\<lparr>currentTargetPickup := Some tp, currentPath := adjustedPath,
                                      currentPathStart := pathStart, currentPathGoal := pathGoal,
                                      lastDistanceToGoal := Fin (vdist botPos pickupPos),
                                      lastDistanceDecreaseTime := t\<rparr>;
                             w1 = (if truthy_id (findNearestEnemy w botId) = None
                                   then set_look botId pickupPos w else w)
                         in (st1, set_move botId adjustedPath w1))))))"

subsection \<open>The whole think cycle\<close>

definition bot_think :: "host \<Rightarrow> think_rolls \<Rightarrow> eid \<Rightarrow> real \<Rightarrow> vec3 \<Rightarrow>
    bot_state \<times> world \<Rightarrow> (bot_state \<times> world) flow" where
  "bot_think h r botId t botPos s =
     then_flow (then_flow (then_flow (bot_engage h r botId t botPos s)
       (bot_idle_gate botId t))
       (bot_follow_goal botId t botPos))
       (\<lambda>s. Return (bot_select_goal h r botId t botPos s))"

definition updateBotAI :: "host \<Rightarrow> think_rolls \<Rightarrow> eid \<Rightarrow> real \<Rightarrow> bots \<Rightarrow> world \<Rightarrow> bots \<times> world" where
  "updateBotAI h r botId t states w =
     (case states botId of
        None \<Rightarrow> (states, w)
      | Some st \<Rightarrow>
          if \<not> w_alive w botId then
            (states(botId \<mapsto> st\<lparr>currentTargetPickup := None\<rparr>), clear_look botId (clear_move botId w))
          else
            (case w_pos w botId of
               None \<Rightarrow> (states, w)
             | Some botPos \<Rightarrow>
                 if t - lastThinkTime st < BOT_THINK_INTERVAL then (states, w)
                 else
                   (let (st', w') = flow_state (bot_think h r botId t botPos (st\<lparr>lastThinkTime := t\<rparr>, w))
                    in (states(botId \<mapsto> st'), w'))))"

subsection \<open>What a think cycle can change\<close>

text \<open>
  \<open>same_shot\<close> relates two (state, world) pairs with the same broadcast log, the same
  traits and the same \<open>lastShootTime\<close>. Idle gate, goal following and goal selection
  keep it; only \<open>bot_try_shoot\<close> inside \<open>bot_engage\<close> breaks it, and then
  exactly as \<open>shot_effect\<close> says.
\<close>

definition same_shot :: "bot_state \<times> world \<Rightarrow> bot_state \<times> world \<Rightarrow> bool" where
  "same_shot s s' \<longleftrightarrow> w_sent (snd s') = w_sent (snd s) \<and> w_player (snd s') = w_player (snd s)
     \<and> lastShootTime (fst s') = lastShootTime (fst s)"

lemma same_shot_refl: "same_shot s s"
  by (simp add: same_shot_def)
lemma same_shot_trans: "same_shot a b \<Longrightarrow> same_shot b c \<Longrightarrow> same_shot a c"
  by (simp add: same_shot_def)

lemma idle_gate_same_shot: "same_shot s (flow_state (bot_idle_gate b t s))"
  by (cases s) (simp add: bot_idle_gate_def same_shot_def clear_move_def)

lemma follow_goal_same_shot: "same_shot s (flow_state (bot_follow_goal b t bp s))"
  by (cases s) (auto simp: bot_follow_goal_def same_shot_def Let_def split: option.splits)

lemma select_goal_same_shot: "same_shot s (bot_select_goal h r b t bp s)"
  by (cases s) (auto simp: bot_select_goal_def same_shot_def Let_def world_ops_defs split: option.splits prod.splits)

lemma bot_think_after_engage:
  "same_shot (flow_state (bot_engage h r b t bp s)) (flow_state (bot_think h r b t bp s))"
proof -
  let ?e = "bot_engage h r b t bp s"
  have 1: "same_shot (flow_state ?e) (flow_state (then_flow ?e (bot_idle_gate b t)))"
    by (rule then_flow_rel [where R = same_shot, OF same_shot_refl idle_gate_same_shot])
  have 2: "same_shot (flow_state (then_flow ?e (bot_idle_gate b t)))
     (flow_state (then_flow (then_flow ?e (bot_idle_gate b t)) (bot_follow_goal b t bp)))"
    by (rule then_flow_rel [where R = same_shot, OF same_shot_refl follow_goal_same_shot])
  have 3: "same_shot (flow_state (then_flow (then_flow ?e (bot_idle_gate b t)) (bot_follow_goal b t bp)))
     (flow_state (bot_think h r b t bp s))"
    unfolding bot_think_def
    by (rule then_flow_rel [where R = same_shot, OF same_shot_refl]) (simp add: select_goal_same_shot)
  from 1 2 3 show ?thesis by (blast intro: same_shot_trans)
qed

lemma try_shoot_cases:
  assumes "bot_try_shoot r b t d (st, w) = (st', w')"
  shows "same_shot (st, w) (st', w')
     \<or> (BOT_SHOOT_COOLDOWN \<le> t - lastShootTime st \<and> (\<exists>p vr. w_player w b = Some p \<and> 0 < arrowCount p
         \<and> w_view w b = Some vr
         \<and> w_sent w' = w_sent w @ [(ArrowCommand vr d b \<lfloor>roll_net r * 2147483647\<rfloor>, None)]
         \<and> w_player w' = (w_player w)(b \<mapsto> p\<lparr>arrowCount := arrowCount p - 1\<rparr>)
         \<and> lastShootTime st' = t))"
  using assms
  by (auto simp: bot_try_shoot_def same_shot_def Let_def world_ops_defs split: option.splits if_splits)

lemma engage_shot:
  assumes "flow_state (bot_engage h r b t bp (st, w)) = (st', w')" and "\<not> same_shot (st, w) (st', w')"
  shows "BOT_SHOOT_COOLDOWN \<le> t - lastShootTime st \<and> (\<exists>p vr. w_player w b = Some p \<and> 0 < arrowCount p
         \<and> w_view w b = Some vr
         \<and> w_sent w' = w_sent w @ [(ArrowCommand vr (aim_draw (roll_draw r)) b \<lfloor>roll_net r * 2147483647\<rfloor>, None)]
         \<and> w_player w' = (w_player w)(b \<mapsto> p\<lparr>arrowCount := arrowCount p - 1\<rparr>)
         \<and> lastShootTime st' = t)"
  using assms
  by (auto simp: bot_engage_def Let_def world_ops_defs same_shot_def split: option.splits prod.splits if_splits
      dest!: try_shoot_cases)

definition shot_effect :: "think_rolls \<Rightarrow> eid \<Rightarrow> real \<Rightarrow> bot_state \<Rightarrow> world \<Rightarrow> bot_state \<Rightarrow> world \<Rightarrow> bool" where
  "shot_effect r b t st w st' w' \<longleftrightarrow> BOT_SHOOT_COOLDOWN \<le> t - lastShootTime st \<and>
     (\<exists>p vr. w_player w b = Some p \<and> 0 < arrowCount p \<and> w_view w b = Some vr
         \<and> w_sent w' = w_sent w @ [(ArrowCommand vr (aim_draw (roll_draw r)) b \<lfloor>roll_net r * 2147483647\<rfloor>, None)]
         \<and> w_player w' = (w_player w)(b \<mapsto> p\<lparr>arrowCount := arrowCount p - 1\<rparr>)
         \<and> lastShootTime st' = t)"

lemma think_cases:
  assumes "flow_state (bot_think h r b t bp (st, w)) = (st', w')"
  shows "same_shot (st, w) (st', w') \<or> shot_effect r b t st w st' w'"
proof -
  obtain st1 w1 where e: "flow_state (bot_engage h r b t bp (st, w)) = (st1, w1)" by fastforce
  have after: "same_shot (st1, w1) (st', w')"
    using bot_think_after_engage [of h r b t bp "(st, w)"] e assms by simp
  show ?thesis
  proof (cases "same_shot (st, w) (st1, w1)")
    case True
    with after show ?thesis by (blast intro: same_shot_trans)
  next
    case False
    from engage_shot [OF e False] after show ?thesis
      by (auto simp: shot_effect_def same_shot_def)
  qed
qed

lemma updateBotAI_cases:
  assumes "updateBotAI h r b t states w = (states', w')"
  shows "(w_sent w' = w_sent w \<and> w_player w' = w_player w
          \<and> (\<forall>st. states b = Some st \<longrightarrow> (\<exists>st'. states' b = Some st' \<and> lastShootTime st' = lastShootTime st)))
       \<or> (\<exists>st st'. states b = Some st \<and> w_alive w b \<and> BOT_THINK_INTERVAL \<le> t - lastThinkTime st
          \<and> states' b = Some st' \<and> shot_effect r b t st w st' w')"
proof (cases "states b")
  case None
  with assms show ?thesis by (simp add: updateBotAI_def)
next
  case (Some st)
  show ?thesis
  proof (cases "w_alive w b \<and> w_pos w b \<noteq> None \<and> BOT_THINK_INTERVAL \<le> t - lastThinkTime st")
    case False
    with assms Some show ?thesis
      by (auto simp: updateBotAI_def world_ops_defs split: option.splits if_splits)
  next
    case True
    then obtain bp where bp: "w_pos w b = Some bp" by blast
    obtain st2 w2 where th: "flow_state (bot_think h r b t bp (st\<lparr>lastThinkTime := t\<rparr>, w)) = (st2, w2)"
      by fastforce
    with assms Some True bp have res: "states' = states(b \<mapsto> st2)" "w' = w2"
      by (auto simp: updateBotAI_def)
    from think_cases [OF th] have
      "same_shot (st\<lparr>lastThinkTime := t\<rparr>, w) (st2, w2) \<or> shot_effect r b t (st\<lparr>lastThinkTime := t\<rparr>) w st2 w2" .
    then show ?thesis
    proof
      assume "same_shot (st\<lparr>lastThinkTime := t\<rparr>, w) (st2, w2)"
      with res Some show ?thesis by (simp add: same_shot_def)
    next
      assume "shot_effect r b t (st\<lparr>lastThinkTime := t\<rparr>) w st2 w2"
      with res Some True show ?thesis by (auto simp: shot_effect_def)
    qed
  qed
qed


lemma try_shoot_frame: "world_frame b (snd s) (snd (bot_try_shoot r b t d s))"
proof -
  obtain st w where s: "s = (st, w)" by fastforce
  have "world_frame b w (set_player b q (send_to_all m x w))" if "w_player w b \<noteq> None" for q m x
    using that by (auto intro: world_frame_trans [of b w "send_to_all m x w"] simp: send_to_all_def)
  then show ?thesis unfolding s
    by (auto simp: bot_try_shoot_def Let_def split: option.splits)
qed

lemma engage_frame: "world_frame b (snd s) (snd (flow_state (bot_engage h r b t bp s)))"
proof -
  obtain st w where s: "s = (st, w)" by fastforce
  have look: "world_frame b w w1" if "w1 = set_crouch b c (set_look b p w)" for w1 c p
    using that by (auto intro: world_frame_trans [of b w "set_look b p w"])
  have shoot: "world_frame b w (snd (bot_try_shoot r b t d (st, w1)))"
    if "world_frame b w w1" for w1 d
    using that try_shoot_frame [of b "(st, w1)"] by (auto intro: world_frame_trans)
  have crouch: "world_frame b w (set_crouch b False w1)" if "world_frame b w w1" for w1
    using that by (auto intro: world_frame_trans)
  show ?thesis unfolding s
    by (auto simp: bot_engage_def Let_def split: option.splits prod.splits
        intro: shoot crouch look)
qed

lemma idle_gate_frame: "world_frame b (snd s) (snd (flow_state (bot_idle_gate b t s)))"
  by (cases s) (simp add: bot_idle_gate_def)

lemma follow_goal_frame: "world_frame b (snd s) (snd (flow_state (bot_follow_goal b t bp s)))"
  by (cases s) (auto simp: bot_follow_goal_def Let_def split: option.splits)

lemma select_goal_frame: "world_frame b (snd s) (snd (bot_select_goal h r b t bp s))"
proof -
  obtain st w where s: "s = (st, w)" by fastforce
  have "world_frame b w (clear_look b (clear_move b w))"
    by (auto intro: world_frame_trans [of b w "clear_move b w"])
  moreover have "world_frame b w (set_move b ps (set_look b p w))" for ps p
    by (auto intro: world_frame_trans [of b w "set_look b p w"])
  ultimately show ?thesis unfolding s
    by (auto simp: bot_select_goal_def Let_def split: option.splits prod.splits)
qed

lemma think_frame: "world_frame b (snd s) (snd (flow_state (bot_think h r b t bp s)))"
proof -
  let ?R = "\<lambda>x y. world_frame b (snd x) (snd y)"
  let ?e = "bot_engage h r b t bp s"
  have 1: "?R (flow_state ?e) (flow_state (then_flow ?e (bot_idle_gate b t)))"
    by (rule then_flow_rel [where R = ?R]) (simp_all add: idle_gate_frame)
  have 2: "?R (flow_state (then_flow ?e (bot_idle_gate b t)))
     (flow_state (then_flow (then_flow ?e (bot_idle_gate b t)) (bot_follow_goal b t bp)))"
    by (rule then_flow_rel [where R = ?R]) (simp_all add: follow_goal_frame)
  have 3: "?R (flow_state (then_flow (then_flow ?e (bot_idle_gate b t)) (bot_follow_goal b t bp)))
     (flow_state (bot_think h r b t bp s))"
    unfolding bot_think_def by (rule then_flow_rel [where R = ?R]) (simp_all add: select_goal_frame)
  from engage_frame [of b s] 1 2 3 show ?thesis by (blast intro: world_frame_trans)
qed

lemma updateBotAI_frame_core:
  "(\<forall>c. c \<noteq> b \<longrightarrow> fst (updateBotAI h r b t states w) c = states c)
   \<and> world_frame b w (snd (updateBotAI h r b t states w))"
proof -
  have "world_frame b w (clear_look b (clear_move b w))"
    by (auto intro: world_frame_trans [of b w "clear_move b w"])
  moreover have "world_frame b w w'"
    if "flow_state (bot_think h r b t bp (st, w)) = (st', w')" for bp st st' w'
    using think_frame [of b "(st, w)" h r t bp] that by simp
  ultimately show ?thesis
    by (auto simp: updateBotAI_def Let_def split: option.splits prod.splits)
qed

subsection \<open>The trait typing invariant\<close>

lemma updateBotAI_ammo:
  assumes inv: "trait_inv w"
  shows "trait_inv (snd (updateBotAI h r b t states w))"
proof -
  obtain states' w' where u: "updateBotAI h r b t states w = (states', w')" by fastforce
  from updateBotAI_cases [OF u] have "w_player w' = w_player w
      \<or> (\<exists>p. w_player w b = Some p \<and> 0 < arrowCount p
             \<and> w_player w' = (w_player w)(b \<mapsto> p\<lparr>arrowCount := arrowCount p - 1\<rparr>))"
    by (auto simp: shot_effect_def)
  then have "trait_inv w'"
  proof
    assume "w_player w' = w_player w"
    with inv show ?thesis by (rule trait_inv_players)
  next
    assume "\<exists>p. w_player w b = Some p \<and> 0 < arrowCount p
      \<and> w_player w' = (w_player w)(b \<mapsto> p\<lparr>arrowCount := arrowCount p - 1\<rparr>)"
    then obtain p where p: "w_player w b = Some p" "0 < arrowCount p"
      "w_player w' = (w_player w)(b \<mapsto> p\<lparr>arrowCount := arrowCount p - 1\<rparr>)" by blast
    have "arrowCount p \<le> 3" using inv p(1) unfolding trait_inv_def trait_typed_def by blast
    then have "trait_inv (set_player b (p\<lparr>arrowCount := arrowCount p - 1\<rparr>) w)"
      using p(2) by (intro trait_inv_arrows [OF inv p(1)]) simp_all
    then show ?thesis using p(3) by (auto intro: trait_inv_players simp: set_player_def)
  qed
  then show ?thesis using u by simp
qed

subsection \<open>Fixtures\<close>

definition demo_host :: host where
  "demo_host = \<lparr>h_raycast = (\<lambda>_ _ _. (False, None)),
     h_find_path = (\<lambda>_ _ _. (True, [(0, 0, 0), (1, 0, 0)]))\<rparr>"

definition demo_bot :: bot_state where
  "demo_bot = \<lparr>lastThinkTime = 0, currentTargetPickup = None, lastShootTime = 0, currentPath = [],
     currentPathStart = (0, 0, 0), currentPathGoal = (0, 0, 0), lastDistanceToGoal = PInf,
     lastDistanceDecreaseTime = 0, idleUntilTime = 0, spawnTime = 0, leaveTime = 250\<rparr>"

definition demo_rolls :: think_rolls where
  "demo_rolls = \<lparr>roll_offset = 0, roll_draw = 1 / 2, roll_crouch = 0.5, roll_net = 0.5,
     roll_idle = 0.9, roll_idle_dur = 0, roll_pick = 0\<rparr>"

lemmas demo_defs = demo_host_def demo_bot_def demo_rolls_def demo_world_def demo_player_def

lemmas bot_phase_defs = updateBotAI_def bot_think_def bot_engage_def bot_try_shoot_def
  bot_idle_gate_def bot_follow_goal_def bot_select_goal_def has_max_arrows_def

text \<open>A dead bot's think cycle clears its movement and look-at targets and its committed pickup, and changes nothing else: no shot, no trait change, other bots untouched.\<close>

theorem updateBotAI_dead:
  assumes "states b = Some st" and "\<not> w_alive w b"
  shows "updateBotAI h r b t states w =
    (states(b \<mapsto> st\<lparr>currentTargetPickup := None\<rparr>),
     w\<lparr>w_move := (w_move w)(b := None), w_look := (w_look w)(b := None)\<rparr>)"
  using assms by (simp add: updateBotAI_def world_ops_defs)

theorem updateBotAI_dead_witness:
  "updateBotAI demo_host demo_rolls 1 10 [1 \<mapsto> demo_bot] (demo_world\<lparr>w_alive := (\<lambda>_. False)\<rparr>) =
    ([1 \<mapsto> demo_bot\<lparr>currentTargetPickup := None\<rparr>],
     demo_world\<lparr>w_alive := (\<lambda>_. False), w_move := (w_move demo_world)(1 := None),
       w_look := (w_look demo_world)(1 := None)\<rparr>)"
  using updateBotAI_dead [of "[1 \<mapsto> demo_bot]" 1 demo_bot "demo_world\<lparr>w_alive := (\<lambda>_. False)\<rparr>"] by simp

text \<open>A living bot whose think interval (0.7 s) has not elapsed since its last think is left entirely unchanged by the cycle.\<close>

theorem updateBotAI_think_gate:
  assumes "states b = Some st" and "w_alive w b" and "t - lastThinkTime st < BOT_THINK_INTERVAL"
  shows "updateBotAI h r b t states w = (states, w)"
  using assms by (simp add: updateBotAI_def split: option.splits)

theorem updateBotAI_think_gate_witness:
  "updateBotAI demo_host demo_rolls 1 0.5 [1 \<mapsto> demo_bot] demo_world = ([1 \<mapsto> demo_bot], demo_world)"
  by (rule updateBotAI_think_gate [where st = demo_bot])
    (simp_all add: demo_bot_def demo_world_def BOT_THINK_INTERVAL_def)

text \<open>A bot whose trait is missing or holds no arrows never fires: the think cycle appends no broadcast and leaves every player trait unchanged, whatever the cooldown or line of sight.\<close>

theorem updateBotAI_no_ammo_no_shot:
  assumes "\<forall>p. w_player w b = Some p \<longrightarrow> arrowCount p \<le> 0"
  shows "w_sent (snd (updateBotAI h r b t states w)) = w_sent w
       \<and> w_player (snd (updateBotAI h r b t states w)) = w_player w"
  using updateBotAI_cases [of h r b t states w "fst (updateBotAI h r b t states w)"
      "snd (updateBotAI h r b t states w)"] assms
  by (auto simp: shot_effect_def)

theorem updateBotAI_no_ammo_no_shot_witness:
  "w_sent (snd (updateBotAI demo_host demo_rolls 1 10 [1 \<mapsto> demo_bot]
      (set_player 1 (demo_player\<lparr>arrowCount := 0\<rparr>) demo_world))) = []"
proof -
  have "\<forall>p. w_player (set_player 1 (demo_player\<lparr>arrowCount := 0\<rparr>) demo_world) 1 = Some p
          \<longrightarrow> arrowCount p \<le> 0"
    by (simp add: set_player_def)
  from updateBotAI_no_ammo_no_shot [OF this, of demo_host demo_rolls 10 "[1 \<mapsto> demo_bot]"]
  show ?thesis by (simp add: set_player_def demo_world_def)
qed

text \<open>C1: A think cycle broadcasts something only when it fires: the bot has a state, is alive, its think interval and its shoot cooldown (3 s) have passed, it holds at least one arrow and has a view ray; then it appends exactly one ArrowCommand with the solved draw, takes exactly one arrow from its own trait and records the current time as its last shot.\<close>

theorem updateBotAI_shot_guarded:
  assumes "w_sent (snd (updateBotAI h r b t states w)) \<noteq> w_sent w"
  shows "\<exists>st st' p vr. states b = Some st \<and> w_alive w b
     \<and> BOT_THINK_INTERVAL \<le> t - lastThinkTime st \<and> BOT_SHOOT_COOLDOWN \<le> t - lastShootTime st
     \<and> w_player w b = Some p \<and> 0 < arrowCount p \<and> w_view w b = Some vr
     \<and> w_sent (snd (updateBotAI h r b t states w)) =
         w_sent w @ [(ArrowCommand vr (aim_draw (roll_draw r)) b \<lfloor>roll_net r * 2147483647\<rfloor>, None)]
     \<and> w_player (snd (updateBotAI h r b t states w)) b = Some (p\<lparr>arrowCount := arrowCount p - 1\<rparr>)
     \<and> fst (updateBotAI h r b t states w) b = Some st' \<and> lastShootTime st' = t"
  using updateBotAI_cases [of h r b t states w "fst (updateBotAI h r b t states w)"
      "snd (updateBotAI h r b t states w)"] assms
  by (auto simp: shot_effect_def)

theorem updateBotAI_shot_guarded_witness:
  "w_sent (snd (updateBotAI demo_host demo_rolls 1 10 [1 \<mapsto> demo_bot] demo_world)) \<noteq> []
   \<and> BOT_SHOOT_COOLDOWN \<le> 10 - lastShootTime demo_bot"
proof -
  have sent: "w_sent (snd (updateBotAI demo_host demo_rolls 1 10 [1 \<mapsto> demo_bot] demo_world)) \<noteq> w_sent demo_world"
    by (simp add: bot_phase_defs demo_defs model_simps Let_def)
  from updateBotAI_shot_guarded [OF sent] have "BOT_SHOOT_COOLDOWN \<le> 10 - lastShootTime demo_bot"
    by auto
  with sent show ?thesis by (simp add: demo_world_def)
qed

text \<open>A think cycle of one bot changes no other bot's state, and in the world only that bot's movement, look-at, crouch and player trait, plus appended broadcasts.\<close>

theorem updateBotAI_frame:
  assumes "updateBotAI h r b t states w = (states', w')"
  shows "(\<forall>c. c \<noteq> b \<longrightarrow> states' c = states c) \<and> world_frame b w w'"
  using updateBotAI_frame_core [of b h r t states w] assms by simp

theorem updateBotAI_frame_witness:
  "world_frame 1 demo_world (snd (updateBotAI demo_host demo_rolls 1 10 [1 \<mapsto> demo_bot] demo_world))"
  by (rule conjunct2 [OF updateBotAI_frame [OF surjective_pairing]])

subsection \<open>Runs of think cycles\<close>

fun bot_shot_times :: "host \<Rightarrow> eid \<Rightarrow> (real \<times> think_rolls \<times> (world \<Rightarrow> world)) list \<Rightarrow>
    bots \<Rightarrow> world \<Rightarrow> real list" where
  "bot_shot_times h b [] states w = []"
| "bot_shot_times h b ((t, r, env) # evs) states w =
     (let w0 = env w; (states', w') = updateBotAI h r b t states w0
      in (if w_sent w' = w_sent w0 then [] else [t]) @ bot_shot_times h b evs states' w')"


lemma updateBotAI_shot_step:
  assumes "states b = Some st" and "updateBotAI h r b t states w = (states', w')"
  shows "\<exists>st'. states' b = Some st' \<and>
           (if w_sent w' = w_sent w then lastShootTime st' = lastShootTime st
            else lastShootTime st' = t \<and> lastShootTime st + BOT_SHOOT_COOLDOWN \<le> t)"
  using updateBotAI_cases [OF assms(2)]
proof
  assume "w_sent w' = w_sent w \<and> w_player w' = w_player w
    \<and> (\<forall>st. states b = Some st \<longrightarrow> (\<exists>st'. states' b = Some st' \<and> lastShootTime st' = lastShootTime st))"
  with assms(1) show ?thesis by auto
next
  assume "\<exists>st0 st'. states b = Some st0 \<and> w_alive w b \<and> BOT_THINK_INTERVAL \<le> t - lastThinkTime st0
    \<and> states' b = Some st' \<and> shot_effect r b t st0 w st' w'"
  then obtain st0 st' where st0: "states b = Some st0" and st': "states' b = Some st'"
    and eff: "shot_effect r b t st0 w st' w'"
    by blast
  from st0 assms(1) have "st0 = st" by simp
  with eff have "BOT_SHOOT_COOLDOWN \<le> t - lastShootTime st" and "lastShootTime st' = t"
    and "\<exists>m. w_sent w' = w_sent w @ [m]"
    unfolding shot_effect_def by blast+
  with st' show ?thesis by auto
qed

text \<open>C2: Over any sequence of think cycles of one bot, with arbitrary changes to the world between them, the times of its shots are each at least the shoot cooldown (3 s) after the previous shot and after the bot's initial last-shot time.\<close>

theorem bot_shot_times_cooldown:
  assumes "states b = Some st"
  shows "sorted_wrt (\<lambda>a c. a + BOT_SHOOT_COOLDOWN \<le> c) (lastShootTime st # bot_shot_times h b evs states w)"
  using assms
proof (induction evs arbitrary: states w st)
  case Nil
  then show ?case by simp
next
  case (Cons ev evs)
  obtain t r env where ev: "ev = (t, r, env)" by (cases ev) auto
  obtain states' w' where up: "updateBotAI h r b t states (env w) = (states', w')" by fastforce
  from updateBotAI_shot_step [OF Cons.prems up] obtain st' where st': "states' b = Some st'"
    and step: "if w_sent w' = w_sent (env w) then lastShootTime st' = lastShootTime st
               else lastShootTime st' = t \<and> lastShootTime st + BOT_SHOOT_COOLDOWN \<le> t"
    by blast
  have ih: "sorted_wrt (\<lambda>a c. a + BOT_SHOOT_COOLDOWN \<le> c) (lastShootTime st' # bot_shot_times h b evs states' w')"
    using Cons.IH [of states' st' w'] st' by simp
  have trans: "a + BOT_SHOOT_COOLDOWN \<le> c" if "a + BOT_SHOOT_COOLDOWN \<le> x" "x + BOT_SHOOT_COOLDOWN \<le> c"
    for a x c :: real
    using that by (simp add: BOT_SHOOT_COOLDOWN_def)
  show ?case
    using ih step by (auto simp: ev up intro: trans)
qed

theorem bot_shot_times_cooldown_witness:
  "sorted_wrt (\<lambda>a c. a + BOT_SHOOT_COOLDOWN \<le> c)
     (0 # bot_shot_times demo_host 1 [(10, demo_rolls, id)] [1 \<mapsto> demo_bot] demo_world)
   \<and> bot_shot_times demo_host 1 [(10, demo_rolls, id)] [1 \<mapsto> demo_bot] demo_world = [10]"
proof -
  have l: "lastShootTime demo_bot = 0" by (simp add: demo_bot_def)
  have A: "sorted_wrt (\<lambda>a c. a + BOT_SHOOT_COOLDOWN \<le> c)
     (lastShootTime demo_bot # bot_shot_times demo_host 1 [(10, demo_rolls, id)] [1 \<mapsto> demo_bot] demo_world)"
    by (rule bot_shot_times_cooldown) simp
  have B: "bot_shot_times demo_host 1 [(10, demo_rolls, id)] [1 \<mapsto> demo_bot] demo_world = [10]"
    by (simp add: bot_phase_defs demo_defs model_simps Let_def)
  show ?thesis by (rule conjI [OF A [unfolded l] B])
qed

text \<open>Stuck detection: when the bot has a committed pickup with a position and its distance has not improved by more than 0.1 since the last improvement, the cycle keeps following the current path while less than 5 s have passed and otherwise abandons the goal (distance tracking reset, stuck timer restarted) and falls through to goal selection.\<close>

theorem bot_follow_goal_stuck:
  assumes "currentTargetPickup st = Some g" and "w_pos w g = Some gp"
    and "\<not> Fin (vdist bp gp) < xsub (lastDistanceToGoal st) BOT_PROGRESS_THRESHOLD"
  shows "bot_follow_goal b t bp (st, w) =
    (if t - lastDistanceDecreaseTime st < BOT_STUCK_THRESHOLD then Return (st, w)
     else Continue (st\<lparr>lastDistanceToGoal := PInf, lastDistanceDecreaseTime := t\<rparr>, w))"
  using assms by (simp add: bot_follow_goal_def Let_def)

theorem bot_follow_goal_stuck_witness:
  "bot_follow_goal 1 6 (0, 0, 0) (demo_bot\<lparr>currentTargetPickup := Some 4, lastDistanceToGoal := Fin 1\<rparr>, demo_world)
   = Continue (demo_bot\<lparr>currentTargetPickup := Some 4, lastDistanceToGoal := PInf, lastDistanceDecreaseTime := 6\<rparr>, demo_world)"
proof -
  have "\<not> Fin (vdist (0, 0, 0) (1, 0, 0)) < xsub (Fin 1) BOT_PROGRESS_THRESHOLD"
    by (simp add: model_simps)
  from bot_follow_goal_stuck [of "demo_bot\<lparr>currentTargetPickup := Some 4, lastDistanceToGoal := Fin 1\<rparr>" 4
      demo_world "(1, 0, 0)" "(0, 0, 0)" 1 6] this
  show ?thesis by (simp add: demo_world_def demo_bot_def BOT_STUCK_THRESHOLD_def)
qed

text \<open>Ballistic aim solver: for random numbers in [0,1), the vertical jitter lies in (-4, -2], the draw in [0.7, 1), the drop compensation is non-negative, and the aim point keeps the enemy's horizontal coordinates.\<close>

theorem aim_solver_bounds:
  assumes "0 \<le> ro" and "ro < 1" and "0 \<le> rd" and "rd < 1"
  shows "-4 < aim_offset ro \<and> aim_offset ro \<le> -2 \<and> 0.7 \<le> aim_draw rd \<and> aim_draw rd < 1
       \<and> vy ep + aim_offset ro \<le> vy (aim_target ep d ro (aim_draw rd))
       \<and> vx (aim_target ep d ro (aim_draw rd)) = vx ep \<and> vz (aim_target ep d ro (aim_draw rd)) = vz ep"
proof -
  have "0 \<le> 0.5 * 9.81 * (d / (50 * aim_draw rd * 1.5)) * (d / (50 * aim_draw rd * 1.5))"
    by (simp add: mult.assoc)
  with assms show ?thesis by (simp add: aim_offset_def aim_draw_def aim_target_def Let_def)
qed

theorem aim_solver_bounds_witness:
  "-4 < aim_offset 0.5 \<and> aim_offset 0.5 \<le> -2 \<and> aim_offset 0.5 = -3"
  using aim_solver_bounds [of "0.5" "0.5" "(0, 0, 0)" 1] by (simp add: aim_offset_def)

lemma findNearestEnemy_frame:
  assumes "world_frame b w w'"
  shows "findNearestEnemy w' c = findNearestEnemy w c"
proof -
  note same = world_frame_same [OF assms]
  have "enemy_skip w' c = enemy_skip w c"
    by (rule ext) (simp add: enemy_skip_def same)
  then show ?thesis by (simp add: findNearestEnemy_def same split: option.splits)
qed

lemma pickups_frame:
  assumes "world_frame b w w'"
  shows "findNearestPickup w' c = findNearestPickup w c \<and> findRandomPickup w' x = findRandomPickup w x"
  using world_frame_same [OF assms]
  by (simp add: findNearestPickup_def findRandomPickup_def split: option.splits)

lemma try_shoot_look: "w_look (snd (bot_try_shoot r b t d s)) = w_look (snd s)"
  by (cases s) (auto simp: bot_try_shoot_def Let_def world_ops_defs split: option.splits)

lemma engage_looks_at_enemy:
  assumes "truthy_id (findNearestEnemy w b) = Some e" and "w_view w e = Some (ep, ed)"
    and "w_view w b = Some vr"
  shows "is_continue (bot_engage h r b t bp (st, w))
     \<and> w_look (snd (flow_state (bot_engage h r b t bp (st, w)))) b
         = Some (aim_target ep (vdist bp ep) (roll_offset r) (aim_draw (roll_draw r)))"
  using assms try_shoot_look
  by (auto simp: bot_engage_def Let_def world_ops_defs split: prod.splits)

definition keeps_look :: "eid \<Rightarrow> bot_state \<times> world \<Rightarrow> bot_state \<times> world \<Rightarrow> bool" where
  "keeps_look b x y \<longleftrightarrow> w_look (snd y) = w_look (snd x) \<and> world_frame b (snd x) (snd y)"

lemma keeps_look_refl: "keeps_look b x x"
  by (simp add: keeps_look_def)

lemma idle_follow_keep_look:
  "keeps_look b s (flow_state (bot_idle_gate b t s))"
  "keeps_look b s (flow_state (bot_follow_goal b t bp s))"
proof -
  obtain st w where s: "s = (st, w)" by fastforce
  show "keeps_look b s (flow_state (bot_idle_gate b t s))"
    using world_frame_ops(5) [of b w] by (simp add: s keeps_look_def bot_idle_gate_def clear_move_def)
  show "keeps_look b s (flow_state (bot_follow_goal b t bp s))"
    by (simp add: s keeps_look_def bot_follow_goal_def Let_def split: option.splits)
qed

lemma select_goal_look:
  assumes "truthy_id (findNearestEnemy (snd s) b) \<noteq> None"
  shows "w_look (snd (bot_select_goal h r b t bp s)) b \<in> {w_look (snd s) b, None}"
  using assms
  by (cases s) (auto simp: bot_select_goal_def Let_def world_ops_defs split: option.splits prod.splits)

lemma flow_then_Return:
  "flow_state (then_flow x (\<lambda>s. Return (g s))) = flow_state x
   \<or> flow_state (then_flow x (\<lambda>s. Return (g s))) = g (flow_state x)"
  by (cases x) auto

text \<open>C3: Aim priority: in a think cycle where a nearest living enemy with a view ray exists, the bot's look-at target after the cycle is the solved aim point at that enemy or cleared; travel never points it at a pickup.\<close>

theorem updateBotAI_aim_priority:
  assumes "states b = Some st" and "w_alive w b" and "w_pos w b = Some bp"
    and "BOT_THINK_INTERVAL \<le> t - lastThinkTime st"
    and "findNearestEnemy w b = Some e" and "e \<noteq> 0"
    and "w_view w e = Some (ep, ed)" and "w_view w b = Some vr"
  shows "w_look (snd (updateBotAI h r b t states w)) b
           \<in> {Some (aim_target ep (vdist bp ep) (roll_offset r) (aim_draw (roll_draw r))), None}"
proof -
  let ?aim = "aim_target ep (vdist bp ep) (roll_offset r) (aim_draw (roll_draw r))"
  let ?s1 = "(st\<lparr>lastThinkTime := t\<rparr>, w)"
  have upd: "snd (updateBotAI h r b t states w) = snd (flow_state (bot_think h r b t bp ?s1))"
    using assms(1-4) by (simp add: updateBotAI_def split: prod.splits)
  from engage_looks_at_enemy [of w b e ep ed vr h r t bp "st\<lparr>lastThinkTime := t\<rparr>"] assms(5-8)
  have "is_continue (bot_engage h r b t bp ?s1)"
    and look0: "w_look (snd (flow_state (bot_engage h r b t bp ?s1))) b = Some ?aim"
    by simp_all
  then obtain se where eng: "bot_engage h r b t bp ?s1 = Continue se"
    by (auto simp: is_continue_iff)
  with look0 have look_e: "w_look (snd se) b = Some ?aim" by simp
  have frame_e: "world_frame b w (snd se)"
    using engage_frame [of b ?s1 h r t bp] eng by simp
  let ?x = "then_flow (bot_idle_gate b t se) (bot_follow_goal b t bp)"
  have k1: "keeps_look b se (flow_state (bot_idle_gate b t se))"
    by (rule idle_follow_keep_look)
  have k2: "keeps_look b (flow_state (bot_idle_gate b t se)) (flow_state ?x)"
    by (rule then_flow_rel [where R = "keeps_look b", OF keeps_look_refl idle_follow_keep_look(2)])
  from k1 k2 frame_e have look_x: "w_look (snd (flow_state ?x)) b = Some ?aim"
    and frame_x: "world_frame b w (snd (flow_state ?x))"
    using look_e by (auto simp: keeps_look_def intro: world_frame_trans)
  have think: "bot_think h r b t bp ?s1 = then_flow ?x (\<lambda>s. Return (bot_select_goal h r b t bp s))"
    by (simp add: bot_think_def eng)
  have enemy: "truthy_id (findNearestEnemy (snd (flow_state ?x)) b) \<noteq> None"
    using findNearestEnemy_frame [OF frame_x] assms(5,6) by simp
  from flow_then_Return [of ?x "bot_select_goal h r b t bp"] show ?thesis
  proof
    assume "flow_state (then_flow ?x (\<lambda>s. Return (bot_select_goal h r b t bp s))) = flow_state ?x"
    with upd think look_x show ?thesis by simp
  next
    assume "flow_state (then_flow ?x (\<lambda>s. Return (bot_select_goal h r b t bp s)))
      = bot_select_goal h r b t bp (flow_state ?x)"
    with upd think select_goal_look [OF enemy, of h r t bp] look_x show ?thesis by simp
  qed
qed

theorem updateBotAI_aim_priority_witness:
  "w_look (snd (updateBotAI demo_host demo_rolls 1 10 [1 \<mapsto> demo_bot] demo_world)) 1
     \<in> {Some (aim_target (3, 6, 0) (vdist (0, 0, 0) (3, 6, 0)) (roll_offset demo_rolls)
           (aim_draw (roll_draw demo_rolls))), None}"
proof -
  have e: "findNearestEnemy demo_world 1 = Some 2" by (simp add: demo_world_def model_simps)
  show ?thesis
    by (rule updateBotAI_aim_priority [where st = demo_bot and ed = "(1, 0, 0)" and vr = "((0, 2, 0), (1, 0, 0))",
        OF _ _ _ _ e]) (simp_all add: demo_world_def demo_bot_def BOT_THINK_INTERVAL_def)
qed

lemma engage_continues:
  assumes "w_view (snd s) b \<noteq> None"
  shows "is_continue (bot_engage h r b t bp s)"
  using assms by (cases s) (auto simp: bot_engage_def Let_def split: option.splits prod.splits)

lemma try_shoot_keeps_goal:
  assumes "0.3 \<le> roll_idle r"
  shows "idleUntilTime (fst (bot_try_shoot r b t d s)) = idleUntilTime (fst s)
       \<and> currentTargetPickup (fst (bot_try_shoot r b t d s)) = currentTargetPickup (fst s)"
  using assms by (cases s) (auto simp: bot_try_shoot_def Let_def split: option.splits)

lemma engage_keeps_goal:
  assumes "0.3 \<le> roll_idle r"
  shows "idleUntilTime (fst (flow_state (bot_engage h r b t bp s))) = idleUntilTime (fst s)
       \<and> currentTargetPickup (fst (flow_state (bot_engage h r b t bp s))) = currentTargetPickup (fst s)"
  using try_shoot_keeps_goal [OF assms]
  by (cases s) (auto simp: bot_engage_def Let_def split: option.splits prod.splits)

text \<open>C6: When no pickup exists, a cycle that reaches goal selection clears the bot's look-at target even while an enemy is in view: the aim set by engagement in the same cycle is lost.\<close>

theorem updateBotAI_no_pickup_clears_look:
  assumes "states b = Some st" and "w_alive w b" and "w_pos w b = Some bp"
    and "BOT_THINK_INTERVAL \<le> t - lastThinkTime st" and "w_view w b \<noteq> None"
    and "pickups_of w = []" and "currentTargetPickup st = None" and "idleUntilTime st \<le> t"
    and "0.3 \<le> roll_idle r"
  shows "w_look (snd (updateBotAI h r b t states w)) b = None"
proof -
  let ?s1 = "(st\<lparr>lastThinkTime := t\<rparr>, w)"
  have upd: "snd (updateBotAI h r b t states w) = snd (flow_state (bot_think h r b t bp ?s1))"
    using assms(1-4) by (simp add: updateBotAI_def split: prod.splits)
  from engage_continues [of ?s1 b h r t bp] assms(5)
  obtain se where eng: "bot_engage h r b t bp ?s1 = Continue se"
    by (auto simp: is_continue_iff)
  from engage_keeps_goal [OF assms(9), of h b t bp ?s1] eng assms(7,8)
  have idle: "\<not> t < idleUntilTime (fst se)" and tgt: "currentTargetPickup (fst se) = None"
    by auto
  have frame: "world_frame b w (snd se)"
    using engage_frame [of b ?s1 h r t bp] eng by simp
  then have nopick: "pickups_of (snd se) = []" using world_frame_same(8) assms(6) by simp
  obtain st' w' where se: "se = (st', w')" by fastforce
  have "bot_think h r b t bp ?s1 = Return (bot_select_goal h r b t bp se)"
    using idle tgt by (simp add: bot_think_def eng se bot_idle_gate_def bot_follow_goal_def)
  moreover have "w_look (snd (bot_select_goal h r b t bp se)) b = None"
    using nopick
    by (simp add: se bot_select_goal_def findRandomPickup_def findNearestPickup_def world_ops_defs
        split: option.splits)
  ultimately show ?thesis using upd by simp
qed

theorem updateBotAI_no_pickup_clears_look_witness:
  "findNearestEnemy (demo_world\<lparr>w_pickup := (\<lambda>_. False)\<rparr>) 1 = Some 2
   \<and> w_look (snd (updateBotAI demo_host demo_rolls 1 10 [1 \<mapsto> demo_bot]
        (demo_world\<lparr>w_pickup := (\<lambda>_. False)\<rparr>))) 1 = None"
proof -
  have "w_look (snd (updateBotAI demo_host demo_rolls 1 10 [1 \<mapsto> demo_bot]
        (demo_world\<lparr>w_pickup := (\<lambda>_. False)\<rparr>))) 1 = None"
    by (rule updateBotAI_no_pickup_clears_look [where st = demo_bot and bp = "(0, 0, 0)"])
      (simp_all add: demo_world_def demo_bot_def demo_rolls_def BOT_THINK_INTERVAL_def pickups_of_def)
  moreover have "findNearestEnemy (demo_world\<lparr>w_pickup := (\<lambda>_. False)\<rparr>) 1 = Some 2"
    by (simp add: demo_world_def model_simps)
  ultimately show ?thesis by simp
qed

end
