(* ===== verification/Respawn.thy ===== *)
theory Respawn
  imports Host
begin

text \<open>
  \<open>src/project/server/respawn.ts\<close>: \<open>killPlayer\<close>, \<open>spawnPlayer\<close> and the
  game-start collection of the Respawner positions (the module variable
  \<open>spawnPositions\<close>, passed here as a parameter). The spawn point is chosen by a
  max-min rule (\<open>choose_spawn\<close>): the point whose nearest living other player is
  farthest away. The non-null assertions \<open>getEntityPosition(id)!\<close> are modelled as
  what JavaScript does with \<open>undefined\<close>: a \<open>TypeError\<close> as soon as a coordinate is
  read, so \<open>spawnPlayer\<close> returns \<open>Raised\<close> with the state reached at the throw.
  Emotes, player permissions and movement properties are host display settings that
  no other code reads; they are not modelled.
\<close>

subsection \<open>killPlayer (lines 7-20)\<close>

definition killPlayer :: "eid \<Rightarrow> world \<Rightarrow> world" where
  "killPlayer playerId w =
     (let w1 = set_alive playerId False w in
      case w_player w1 playerId of
        None \<Rightarrow> w1
      | Some p \<Rightarrow> set_player playerId (p\<lparr>deathCount := deathCount p + 1,
                   respawnTime := w_time w1 + 5, killStreak := 0\<rparr>) w1)"

subsection \<open>Spawn point selection (lines 43-75)\<close>

text \<open>\<open>minDistanceToAnyPlayer\<close>: \<open>Math.min\<close> over the living players, from
  \<open>Infinity\<close>.\<close>

definition min_dist :: "vec3 list \<Rightarrow> vec3 \<Rightarrow> xreal" where
  "min_dist livingPos spawnPos = foldl (\<lambda>m p. min m (Fin (vdist spawnPos p))) PInf livingPos"

fun spawn_scan :: "vec3 list \<Rightarrow> vec3 list \<Rightarrow> xreal \<times> vec3 option \<Rightarrow> xreal \<times> vec3 option" where
  "spawn_scan livingPos [] acc = acc"
| "spawn_scan livingPos (spawnPos # sps) (bestMin, best) =
     (let m = min_dist livingPos spawnPos in
      if bestMin < m then spawn_scan livingPos sps (m, Some spawnPos)
      else spawn_scan livingPos sps (bestMin, best))"

text \<open>\<open>bestMinDistance = -1\<close>; \<open>spawnPositions[0]\<close> when the loop chose nothing
  (\<open>undefined\<close> for an empty list).\<close>

definition choose_spawn :: "vec3 list \<Rightarrow> vec3 list \<Rightarrow> vec3 option" where
  "choose_spawn livingPos spawnPositions =
     (case snd (spawn_scan livingPos spawnPositions (Fin (-1), None)) of
        Some p \<Rightarrow> Some p
      | None \<Rightarrow> (case spawnPositions of [] \<Rightarrow> None | p # _ \<Rightarrow> Some p))"

definition living_others :: "world \<Rightarrow> eid \<Rightarrow> eid list" where
  "living_others w playerId = filter (\<lambda>i. i \<noteq> playerId \<and> w_alive w i) (players_of w)"

subsection \<open>spawnPlayer (lines 22-105)\<close>

text \<open>\<open>J.getPlayerUsername(playerId) || "Unknown"\<close>: the empty name is falsy too.\<close>

definition init_player_trait :: "eid \<Rightarrow> world \<Rightarrow> world" where
  "init_player_trait playerId w =
     (case w_player w playerId of
        Some _ \<Rightarrow> w
      | None \<Rightarrow>
          (let playerName = (case w_username w playerId of
                               None \<Rightarrow> ''Unknown''
                             | Some u \<Rightarrow> if u = [] then ''Unknown'' else u)
           in set_player playerId \<lparr>kills = 0, deathCount = 0, respawnTime = 0, arrowCount = 3,
                maxArrows = 3, lastKillTime = 0, name = playerName, killStreak = 0\<rparr> w))"

definition spawnPlayer :: "vec3 list \<Rightarrow> eid \<Rightarrow> bool \<Rightarrow> world \<Rightarrow> (vec3 option \<times> world) js_result" where
  "spawnPlayer spawnPositions playerId fromRespawn w =
     (if fromRespawn \<and> spawnPositions = [] then Ok (None, w)
      else
        (let w1 = init_player_trait playerId w;
             chosen = (if fromRespawn then
                         map_option (\<lambda>livingPos. choose_spawn livingPos spawnPositions)
                           (those (map (w_pos w1) (living_others w1 playerId)))
                       else Some None)
         in case chosen of
              None \<Rightarrow> Raised (None, w1)
            | Some bestSpawnPosition \<Rightarrow>
                (let w2 = set_alive playerId True w1;
                     w3 = (case w_player w2 playerId of
                             None \<Rightarrow> w2
                           | Some p \<Rightarrow> set_player playerId (p\<lparr>arrowCount := 3\<rparr>) w2);
                     w4 = (case bestSpawnPosition of
                             Some pos \<Rightarrow> if fromRespawn
                                         then send_to_all (RespawnCommand playerId pos) None w3 else w3
                           | None \<Rightarrow> w3)
                 in Ok (bestSpawnPosition, w4))))"

subsection \<open>Game start: the Respawner positions (lines 107-115)\<close>

text \<open>\<open>spawnPositions\<close> is reset to \<open>[]\<close> and filled one Respawner at a time; reading
  \<open>position[0]\<close> of a missing position throws, leaving the positions pushed so far.\<close>

fun collect_loop :: "(eid \<Rightarrow> vec3 option) \<Rightarrow> eid list \<Rightarrow> vec3 list \<Rightarrow> vec3 list js_result" where
  "collect_loop pos [] spawnPositions = Ok spawnPositions"
| "collect_loop pos (i # rest) spawnPositions =
     (case pos i of
        None \<Rightarrow> Raised spawnPositions
      | Some position \<Rightarrow> collect_loop pos rest (spawnPositions @ [position]))"

definition collect_spawn_positions :: "world \<Rightarrow> vec3 list js_result" where
  "collect_spawn_positions w = collect_loop (w_pos w) (respawners_of w) []"

declare killPlayer_def [model_simps] min_dist_def [model_simps] choose_spawn_def [model_simps]
  living_others_def [model_simps] init_player_trait_def [model_simps] spawnPlayer_def [model_simps]
  collect_spawn_positions_def [model_simps]


subsection \<open>Lemmas on the spawn scan\<close>

lemma min_dist_eq:
  "min_dist L s = (if L = [] then PInf else Fin (Min ((vdist s) ` set L)))"
  unfolding min_dist_def by (simp add: foldl_min_Fin)

lemma min_dist_nonneg: "Fin 0 \<le> min_dist L s"
proof (cases "L = []")
  case False
  then have "0 \<le> Min ((vdist s) ` set L)" by (simp add: Min_ge_iff)
  with False show ?thesis by (simp add: min_dist_eq)
qed (simp add: min_dist_eq)

text \<open>The scan keeps the best value so far and ends at a point whose value no later point beats.\<close>

lemma spawn_scan_props:
  assumes "spawn_scan L sps (bm, best) = (bm', best')"
  shows "bm \<le> bm' \<and> (\<forall>q \<in> set sps. min_dist L q \<le> bm')
         \<and> ((bm' = bm \<and> best' = best)
            \<or> (\<exists>as p bs. sps = as @ p # bs \<and> bm' = min_dist L p \<and> best' = Some p \<and> bm < min_dist L p
                   \<and> (\<forall>q \<in> set as. min_dist L q < min_dist L p)))"
  using assms
proof (induction sps arbitrary: bm best)
  case Nil
  then show ?case by simp
next
  case (Cons s sps)
  show ?case
  proof (cases "bm < min_dist L s")
    case True
    with Cons.prems have "spawn_scan L sps (min_dist L s, Some s) = (bm', best')" by (simp add: Let_def)
    note ih = Cons.IH [OF this]
    from ih have le: "bm \<le> bm'" and all: "\<forall>q \<in> set (s # sps). min_dist L q \<le> bm'"
      using True by (auto dest: less_imp_le intro: order_trans)
    from ih True have "(bm' = min_dist L s \<and> best' = Some s)
       \<or> (\<exists>as p bs. sps = as @ p # bs \<and> bm' = min_dist L p \<and> best' = Some p \<and> min_dist L s < min_dist L p
              \<and> (\<forall>q \<in> set as. min_dist L q < min_dist L p))" by blast
    then have "\<exists>as p bs. s # sps = as @ p # bs \<and> bm' = min_dist L p \<and> best' = Some p \<and> bm < min_dist L p
              \<and> (\<forall>q \<in> set as. min_dist L q < min_dist L p)"
    proof
      assume "bm' = min_dist L s \<and> best' = Some s"
      with True show ?thesis by (intro exI [of _ "[]"]) auto
    next
      assume "\<exists>as p bs. sps = as @ p # bs \<and> bm' = min_dist L p \<and> best' = Some p \<and> min_dist L s < min_dist L p
              \<and> (\<forall>q \<in> set as. min_dist L q < min_dist L p)"
      then obtain as p bs where "sps = as @ p # bs" "bm' = min_dist L p" "best' = Some p"
        "min_dist L s < min_dist L p" "\<forall>q \<in> set as. min_dist L q < min_dist L p" by blast
      with True show ?thesis by (intro exI [of _ "s # as"] exI [of _ p] exI [of _ bs]) auto
    qed
    with le all show ?thesis by blast
  next
    case False
    with Cons.prems have "spawn_scan L sps (bm, best) = (bm', best')" by (simp add: Let_def)
    note ih = Cons.IH [OF this]
    from ih False have le: "bm \<le> bm'" and all: "\<forall>q \<in> set (s # sps). min_dist L q \<le> bm'"
      by (auto simp: not_less intro: order_trans)
    from ih have "(bm' = bm \<and> best' = best)
       \<or> (\<exists>as p bs. sps = as @ p # bs \<and> bm' = min_dist L p \<and> best' = Some p \<and> bm < min_dist L p
              \<and> (\<forall>q \<in> set as. min_dist L q < min_dist L p))" by blast
    then have "(bm' = bm \<and> best' = best)
       \<or> (\<exists>as p bs. s # sps = as @ p # bs \<and> bm' = min_dist L p \<and> best' = Some p \<and> bm < min_dist L p
              \<and> (\<forall>q \<in> set as. min_dist L q < min_dist L p))"
    proof
      assume "\<exists>as p bs. sps = as @ p # bs \<and> bm' = min_dist L p \<and> best' = Some p \<and> bm < min_dist L p
              \<and> (\<forall>q \<in> set as. min_dist L q < min_dist L p)"
      then obtain as p bs where "sps = as @ p # bs" "bm' = min_dist L p" "best' = Some p"
        "bm < min_dist L p" "\<forall>q \<in> set as. min_dist L q < min_dist L p" by blast
      moreover have "min_dist L s < min_dist L p"
        using False \<open>bm < min_dist L p\<close> by (auto simp: not_less intro: le_less_trans)
      ultimately show ?thesis by (intro disjI2 exI [of _ "s # as"] exI [of _ p] exI [of _ bs]) auto
    qed simp
    with le all show ?thesis by blast
  qed
qed

lemma choose_spawn_first:
  assumes "sps \<noteq> []"
  shows "\<exists>as p bs. sps = as @ p # bs \<and> choose_spawn L sps = Some p
           \<and> (\<forall>q \<in> set sps. min_dist L q \<le> min_dist L p) \<and> (\<forall>q \<in> set as. min_dist L q < min_dist L p)"
proof -
  obtain bm' best' where sc: "spawn_scan L sps (Fin (-1), None) = (bm', best')" by fastforce
  note props = spawn_scan_props [OF sc]
  from assms obtain q where q: "q \<in> set sps" by (cases sps) auto
  have "Fin (-1) < min_dist L q" using min_dist_nonneg [of L q] by (cases "min_dist L q") auto
  with props q have "bm' \<noteq> Fin (-1)" by force
  with props obtain as p bs where dec: "sps = as @ p # bs" and bm: "bm' = min_dist L p"
    and bs: "best' = Some p" and first: "\<forall>q \<in> set as. min_dist L q < min_dist L p" by blast
  from sc bs have "choose_spawn L sps = Some p" by (simp add: choose_spawn_def)
  moreover from props bm have "\<forall>q \<in> set sps. min_dist L q \<le> min_dist L p" by simp
  ultimately show ?thesis using dec first by blast
qed

lemma choose_spawn_maxmin:
  assumes "sps \<noteq> []"
  shows "\<exists>p. choose_spawn L sps = Some p \<and> p \<in> set sps \<and> (\<forall>q \<in> set sps. min_dist L q \<le> min_dist L p)"
  using choose_spawn_first [OF assms] by fastforce

subsection \<open>Properties\<close>

lemma spawn_scan_top: "spawn_scan [] sps (PInf, Some p) = (PInf, Some p)"
  by (induction sps) (simp_all add: min_dist_def)

lemma living_others_init: "living_others (init_player_trait e w) e = living_others w e"
  by (auto simp: living_others_def players_of_def init_player_trait_def set_player_def Let_def
      split: option.splits intro: filter_cong)

lemma init_player_trait_Some: "\<exists>p. w_player (init_player_trait e w) e = Some p"
  by (auto simp: init_player_trait_def set_player_def Let_def split: option.splits)

lemma init_player_trait_other:
  "e \<noteq> c \<Longrightarrow> w_player (init_player_trait e w) c = w_player w c"
  "w_pos (init_player_trait e w) = w_pos w" "w_sent (init_player_trait e w) = w_sent w"
  by (auto simp: init_player_trait_def set_player_def Let_def split: option.splits)

lemma init_player_trait_wf:
  "world_wf w \<Longrightarrow> e \<in> set (w_entities w) \<Longrightarrow> world_wf (init_player_trait e w)"
  by (auto simp: init_player_trait_def Let_def intro: set_player_wf split: option.splits)

lemma init_player_trait_store:
  "w_entities (init_player_trait e w) = w_entities w" "w_time (init_player_trait e w) = w_time w"
  "w_next (init_player_trait e w) = w_next w" "w_alive (init_player_trait e w) = w_alive w"
  by (auto simp: init_player_trait_def set_player_def Let_def split: option.splits)

text \<open>\<open>spawnPlayer\<close> keeps the store well formed, moves no entity and adds none,
  whichever way it ends.\<close>

lemma spawnPlayer_store:
  fixes sp :: "vec3 list" and fr :: bool
  assumes "world_wf w" "playerId \<in> set (w_entities w)"
  defines "w' \<equiv> snd (js_state (spawnPlayer sp playerId fr w))"
  shows "world_wf w'" "w_entities w' = w_entities w" "w_time w' = w_time w"
    "w_pos w' = w_pos w" "w_next w' = w_next w"
proof -
  let ?w1 = "init_player_trait playerId w"
  have wf1: "world_wf ?w1" using assms(1,2) by (rule init_player_trait_wf)
  have in1: "playerId \<in> set (w_entities ?w1)" using assms(2) by (simp add: init_player_trait_store)
  have "world_wf w' \<and> w_entities w' = w_entities ?w1 \<and> w_time w' = w_time ?w1
      \<and> w_pos w' = w_pos ?w1 \<and> w_next w' = w_next ?w1 \<or> w' = w"
    using wf1 in1 unfolding w'_def spawnPlayer_def Let_def
    by (auto simp: world_ops_defs world_wf_def split: option.splits)
  then show "world_wf w'" "w_entities w' = w_entities w" "w_time w' = w_time w"
    "w_pos w' = w_pos w" "w_next w' = w_next w"
    using assms(1) by (auto simp: init_player_trait_store init_player_trait_other)
qed

text \<open>\<open>spawnPlayer\<close> keeps every player trait and its respawn time, and revives at most
  the player it spawns.\<close>

lemma spawnPlayer_traits:
  assumes "w_player w e = Some p"
  shows "\<exists>p'. w_player (snd (js_state (spawnPlayer sp pid fr w))) e = Some p'
    \<and> respawnTime p' = respawnTime p"
  using assms
  by (auto simp: spawnPlayer_def init_player_trait_def world_ops_defs Let_def split: option.splits)

lemma spawnPlayer_alive:
  assumes "spawnPlayer sp pid fr w = Ok (pos, w')"
  shows "w_alive w' = (w_alive w)(pid := True) \<or> (fr \<and> sp = [] \<and> w' = w)"
  using assms
  by (auto simp: spawnPlayer_def init_player_trait_def world_ops_defs Let_def split: option.splits if_splits)

subsection \<open>The trait typing invariant\<close>

lemma killPlayer_ammo:
  assumes inv: "trait_inv w"
  shows "trait_inv (killPlayer e w)"
proof (cases "w_player w e")
  case None
  then have "w_player (set_alive e False w) e = None" by (simp add: set_alive_def)
  with inv show ?thesis by (simp add: killPlayer_def Let_def)
next
  case (Some p)
  have "trait_inv (set_alive e False w)" using inv by simp
  moreover have "w_player (set_alive e False w) e = Some p" using Some by (simp add: set_alive_def)
  ultimately show ?thesis
    by (simp add: killPlayer_def Let_def trait_inv_same_arrows)
qed

lemma init_player_trait_ammo: "trait_inv w \<Longrightarrow> trait_inv (init_player_trait e w)"
  by (auto simp: init_player_trait_def trait_typed_def Let_def intro: trait_inv_set_player split: option.splits)

lemma spawnPlayer_ammo: "trait_inv w \<Longrightarrow> trait_inv (snd (js_state (spawnPlayer sp pid fr w)))"
proof -
  assume inv: "trait_inv w"
  let ?w1 = "init_player_trait pid w"
  have i1: "trait_inv (set_alive pid True ?w1)" using init_player_trait_ammo [OF inv] by simp
  have i2: "trait_inv (case w_player (set_alive pid True ?w1) pid of None \<Rightarrow> set_alive pid True ?w1
      | Some p \<Rightarrow> set_player pid (p\<lparr>arrowCount := 3\<rparr>) (set_alive pid True ?w1))"
    using i1 by (auto intro: trait_inv_arrows split: option.splits)
  show ?thesis
    using inv init_player_trait_ammo [OF inv] i2
    by (auto simp: spawnPlayer_def Let_def split: option.splits)
qed

text \<open>C9: The max-min spawn rule (spec 4.5): for a non-empty list of spawn points, choose_spawn
  returns a spawn point whose distance to the nearest living other player (the minimum of the
  distances, infinite when no other player lives) is maximal, and the first such point in the
  list.\<close>

theorem choose_spawn_maxmin_spec:
  assumes "spawnPositions \<noteq> []"
  shows "\<exists>as p bs. spawnPositions = as @ p # bs \<and> choose_spawn livingPos spawnPositions = Some p
           \<and> (\<forall>q \<in> set spawnPositions.
                 (if livingPos = [] then PInf else Fin (Min (vdist q ` set livingPos)))
               \<le> (if livingPos = [] then PInf else Fin (Min (vdist p ` set livingPos))))
           \<and> (\<forall>q \<in> set as.
                 (if livingPos = [] then PInf else Fin (Min (vdist q ` set livingPos)))
               < (if livingPos = [] then PInf else Fin (Min (vdist p ` set livingPos))))"
  using choose_spawn_first [OF assms] unfolding min_dist_eq .

theorem choose_spawn_maxmin_spec_witness:
  "choose_spawn [(3, 4, 0), (6, 8, 0)] [(0, 0, 10), (20, 0, 0)] = Some (20, 0, 0)"
proof -
  obtain p where p: "choose_spawn [(3, 4, 0), (6, 8, 0)] [(0, 0, 10), (20, 0, 0)] = Some p"
    and mem: "p \<in> set [(0, 0, 10), (20, 0, 0)]"
    and mx: "\<forall>q \<in> set [(0, 0, 10), (20, 0, 0)].
       (if [(3, 4, 0), (6, 8, 0)] = [] then PInf else Fin (Min (vdist q ` set [(3::real, 4::real, 0::real), (6, 8, 0)])))
     \<le> (if [(3, 4, 0), (6, 8, 0)] = [] then PInf else Fin (Min (vdist p ` set [(3::real, 4::real, 0::real), (6, 8, 0)])))"
    using choose_spawn_maxmin_spec [of "[(0, 0, 10), (20, 0, 0)]" "[(3, 4, 0), (6, 8, 0)]"] by fastforce
  have "Fin (Min (vdist (0, 0, 10) ` set [(3::real, 4::real, 0::real), (6, 8, 0)]))
      < Fin (Min (vdist (20, 0, 0) ` set [(3::real, 4::real, 0::real), (6, 8, 0)]))"
    using min_dist_eq [of "[(3, 4, 0), (6, 8, 0)]" "(0, 0, 10)"] min_dist_eq [of "[(3, 4, 0), (6, 8, 0)]" "(20, 0, 0)"]
    by (simp add: min_dist_def model_simps)
  with mem mx have "p = (20, 0, 0)" by auto
  with p show ?thesis by simp
qed

text \<open>With no living other player, the first spawn point is chosen.\<close>

theorem choose_spawn_no_living: "choose_spawn [] (p # ps) = Some p"
  by (simp add: choose_spawn_def min_dist_def spawn_scan_top)

text \<open>C10: A respawn that completes returns a max-min spawn point computed from the living other players' positions, leaves the player alive with a trait holding 3 arrows, and broadcasts exactly one RespawnCommand for that point.\<close>

theorem spawnPlayer_respawn_ok:
  assumes "spawnPlayer sps e True w = Ok (best, w')" and "sps \<noteq> []"
  shows "\<exists>p L. best = Some p \<and> p \<in> set sps
     \<and> those (map (w_pos w) (living_others w e)) = Some L
     \<and> (\<forall>q \<in> set sps. min_dist L q \<le> min_dist L p)
     \<and> w_alive w' e \<and> (\<exists>pt. w_player w' e = Some pt \<and> arrowCount pt = 3)
     \<and> w_sent w' = w_sent w @ [(RespawnCommand e p, None)]"
proof -
  let ?w1 = "init_player_trait e w"
  have pos: "w_pos ?w1 = w_pos w" and lo: "living_others ?w1 e = living_others w e"
    by (simp_all add: init_player_trait_other living_others_init)
  obtain pt where pt: "w_player ?w1 e = Some pt" using init_player_trait_Some by blast
  have sent1: "w_sent ?w1 = w_sent w" by (rule init_player_trait_other)
  show ?thesis
  proof (cases "those (map (w_pos w) (living_others w e))")
    case None
    with assms pos lo show ?thesis by (simp add: spawnPlayer_def)
  next
    case (Some L)
    from choose_spawn_maxmin [OF assms(2), of L] obtain p where ch: "choose_spawn L sps = Some p"
      and mem: "p \<in> set sps" and mx: "\<forall>q \<in> set sps. min_dist L q \<le> min_dist L p"
      by blast
    have "spawnPlayer sps e True w = Ok (Some p, send_to_all (RespawnCommand e p) None
        (set_player e (pt\<lparr>arrowCount := 3\<rparr>) (set_alive e True ?w1)))"
      using assms(2) pos lo Some ch pt by (simp add: spawnPlayer_def Let_def set_alive_def)
    with assms(1) have "best = Some p"
      and w': "w' = send_to_all (RespawnCommand e p) None (set_player e (pt\<lparr>arrowCount := 3\<rparr>) (set_alive e True ?w1))"
      by simp_all
    with Some mem mx sent1 show ?thesis by (simp add: world_ops_defs)
  qed
qed

theorem spawnPlayer_respawn_ok_witness:
  "\<exists>w'. spawnPlayer [(0, 0, 10), (20, 0, 0)] 1 True demo_world = Ok (Some (20, 0, 0), w')
        \<and> w_alive w' 1 \<and> w_sent w' = [(RespawnCommand 1 (20, 0, 0), None)]"
proof -
  have "\<exists>r. spawnPlayer [(0, 0, 10), (20, 0, 0)] 1 True demo_world = Ok r"
    by (simp add: spawnPlayer_def demo_world_def model_simps Let_def)
  then obtain best w' where h: "spawnPlayer [(0, 0, 10), (20, 0, 0)] 1 True demo_world = Ok (best, w')"
    by auto
  from spawnPlayer_respawn_ok [OF h] obtain p L where best: "best = Some p"
    and mem: "p \<in> set [(0, 0, 10), (20, 0, 0)]"
    and L: "those (map (w_pos demo_world) (living_others demo_world 1)) = Some L"
    and mx: "\<forall>q \<in> set [(0, 0, 10), (20, 0, 0)]. min_dist L q \<le> min_dist L p"
    and rest: "w_alive w' 1" "w_sent w' = w_sent demo_world @ [(RespawnCommand 1 p, None)]"
    by auto
  have "L = [(3, 4, 0), (6, 8, 0)]"
    using L by (simp add: demo_world_def living_others_def players_of_def)
  moreover have "min_dist [(3, 4, 0), (6, 8, 0)] (0, 0, 10) < min_dist [(3, 4, 0), (6, 8, 0)] (20, 0, 0)"
    by (simp add: min_dist_def model_simps)
  ultimately have "p = (20, 0, 0)" using mem mx by auto
  with h best rest show ?thesis by (auto simp: demo_world_def)
qed

text \<open>A respawn throws (a TypeError from a non-null assertion on a missing position) exactly when spawn points exist and some living other player has no position.\<close>

theorem spawnPlayer_raises_iff:
  "(\<exists>s. spawnPlayer sps e True w = Raised s) \<longleftrightarrow>
     sps \<noteq> [] \<and> (\<exists>i \<in> set (living_others w e). w_pos w i = None)"
  by (auto simp: spawnPlayer_def Let_def init_player_trait_other living_others_init those_map_None
      split: option.splits dest: those_map_Some)

text \<open>Spawning a joining player (not from a respawn) never throws and broadcasts nothing; it leaves the player alive with a trait holding 3 arrows.\<close>

theorem spawnPlayer_join:
  "\<exists>w'. spawnPlayer sps e False w = Ok (None, w') \<and> w_alive w' e \<and> w_sent w' = w_sent w
        \<and> (\<exists>pt. w_player w' e = Some pt \<and> arrowCount pt = 3)"
proof -
  obtain pt where pt: "w_player (init_player_trait e w) e = Some pt" using init_player_trait_Some by blast
  then show ?thesis
    by (simp add: spawnPlayer_def Let_def world_ops_defs init_player_trait_other)
qed

end
