(* ===== verification/Roster.thy ===== *)
theory Roster
  imports BotAI Respawn
begin

text \<open>
  The bot roster of \<open>src/project/server/bots.ts\<close>: the module state \<open>botStates\<close>,
  \<open>botIds\<close> and \<open>lastBotCountCheckTime\<close> (the record \<open>roster\<close>), \<open>createBot\<close>,
  \<open>removeBot\<close>, \<open>maintainBotCount\<close> and the game-tick handler that runs
  \<open>updateBotAI\<close> for every bot. The JavaScript \<open>Set\<close> \<open>botIds\<close> is a distinct list in
  insertion order (its iteration order); \<open>Set.add\<close> is \<open>set_add\<close>, \<open>Set.delete\<close> is
  \<open>removeAll\<close>. Every \<open>Math.random()\<close> of \<open>createBot\<close> is a field of \<open>spawn_rolls\<close>;
  the k-th bot created in one maintenance pass reads the k-th rolls, the k-th bot of a
  tick's update loop the k-th \<open>think_rolls\<close>.
\<close>

subsection \<open>Constants (lines 6-8, 16-47)\<close>

definition MAX_BOTS :: nat where "MAX_BOTS = 3"
definition BOT_LIFETIME_MIN :: real where "BOT_LIFETIME_MIN = 200"
definition BOT_LIFETIME_MAX :: real where "BOT_LIFETIME_MAX = 300"

definition BOT_NAMES :: "string list" where
  "BOT_NAMES = [''Arrow Dodger'', ''Arcs Daddy'', ''Bullseye Bobby'', ''Captain Quiver'',
     ''The Fletcher'', ''Arrow McArrowface'', ''Sharpshooter Steve'', ''Legolas'', ''Quiver Kid'',
     ''Sniper Elf'', ''Straight Shooter'', ''Pointy Boi'', ''Bowboy 420'', ''Arc'', ''Mid Madonna'',
     ''Based Bowman'', ''Delulu Dan'', ''OP Bow Enjoyer'', ''Arrow Diff'', ''Skitz's Future'']"

text \<open>The avatar asset ids \<open>J.assets.avatars.X.id\<close>, named by their asset.\<close>

definition botAvatars :: "string list" where
  "botAvatars = [''SquireBot'', ''SkeletonBot'', ''Maid'', ''Babe'', ''Wizard'', ''Turtes'']"

lemmas roster_constants = MAX_BOTS_def BOT_LIFETIME_MIN_def BOT_LIFETIME_MAX_def

subsection \<open>Module state (lines 63-65)\<close>

record roster =
  botStates :: bots
  botIds :: "eid list"
  lastBotCountCheckTime :: real

record spawn_rolls =
  roll_avatar :: real
  roll_name :: real
  roll_lifetime :: real

subsection \<open>createBot and removeBot (lines 67-112)\<close>

definition new_bot_state :: "real \<Rightarrow> real \<Rightarrow> bot_state" where
  "new_bot_state currentTime lifetime = \<lparr>lastThinkTime = 0, currentTargetPickup = None,
     lastShootTime = 0, currentPath = [], currentPathStart = (0, 0, 0),
     currentPathGoal = (0, 0, 0), lastDistanceToGoal = PInf, lastDistanceDecreaseTime = 0,
     idleUntilTime = 0, spawnTime = currentTime, leaveTime = currentTime + lifetime\<rparr>"

definition createBot :: "spawn_rolls \<Rightarrow> roster \<Rightarrow> world \<Rightarrow> eid \<times> roster \<times> world" where
  "createBot rr R w =
     (let avatarId = botAvatars ! nat \<lfloor>roll_avatar rr * real (length botAvatars)\<rfloor>;
          (botId, w1) = spawn_character avatarId w;
          botName = BOT_NAMES ! nat \<lfloor>roll_name rr * real (length BOT_NAMES)\<rfloor>;
          w2 = set_player botId \<lparr>kills = 0, deathCount = 0, respawnTime = 0, arrowCount = 3,
                 maxArrows = 3, lastKillTime = 0, name = botName, killStreak = 0\<rparr> w1;
          currentTime = w_time w2;
          lifetime = BOT_LIFETIME_MIN + roll_lifetime rr * (BOT_LIFETIME_MAX - BOT_LIFETIME_MIN)
      in (botId, R\<lparr>botStates := (botStates R)(botId \<mapsto> new_bot_state currentTime lifetime),
                   botIds := set_add botId (botIds R)\<rparr>, w2))"

definition removeBot :: "eid \<Rightarrow> roster \<Rightarrow> world \<Rightarrow> roster \<times> world" where
  "removeBot botId R w =
     (R\<lparr>botStates := (botStates R)(botId := None), botIds := removeAll botId (botIds R)\<rparr>,
      remove_entity botId w)"

subsection \<open>maintainBotCount (lines 372-397)\<close>

text \<open>The sweep iterates the \<open>Set\<close> while deleting the visited element; a JavaScript
  \<open>Set\<close> iterator still visits every later element, so the loop runs over the ids
  as they were when it started.\<close>

fun sweep_expired :: "real \<Rightarrow> eid list \<Rightarrow> roster \<Rightarrow> world \<Rightarrow> roster \<times> world" where
  "sweep_expired currentTime [] R w = (R, w)"
| "sweep_expired currentTime (botId # rest) R w =
     (case botStates R botId of
        Some st \<Rightarrow>
          if leaveTime st \<le> currentTime
          then (case removeBot botId R w of (R', w') \<Rightarrow> sweep_expired currentTime rest R' w')
          else sweep_expired currentTime rest R w
      | None \<Rightarrow> sweep_expired currentTime rest R w)"

text \<open>\<open>J.setEntityPosition(botId, pos)\<close> with the result of \<open>spawnPlayer(botId)!\<close>: the
  assertion is erased by TypeScript. The engine's behaviour for \<open>setEntityPosition(id,
  undefined)\<close> is not documented; the model assumes the call changes nothing, so the position
  is left as the engine spawned it (a host assumption, listed in the root theory's header).\<close>

definition set_entity_position :: "eid \<Rightarrow> vec3 option \<Rightarrow> world \<Rightarrow> world" where
  "set_entity_position e p w = (case p of Some v \<Rightarrow> set_pos e v w | None \<Rightarrow> w)"

fun spawn_bots :: "vec3 list \<Rightarrow> (nat \<Rightarrow> spawn_rolls) \<Rightarrow> nat \<Rightarrow> nat \<Rightarrow> roster \<Rightarrow> world \<Rightarrow>
                   (roster \<times> world) js_result" where
  "spawn_bots sp rolls i 0 R w = Ok (R, w)"
| "spawn_bots sp rolls i (Suc k) R w =
     (case createBot (rolls i) R w of
        (botId, R1, w1) \<Rightarrow>
          if botId \<noteq> 0 then
            (case spawnPlayer sp botId True w1 of
               Raised (_, w2) \<Rightarrow> Raised (R1, w2)
             | Ok (pos, w2) \<Rightarrow> spawn_bots sp rolls (Suc i) k R1 (set_entity_position botId pos w2))
          else spawn_bots sp rolls (Suc i) k R1 w1)"

definition maintainBotCount :: "vec3 list \<Rightarrow> (nat \<Rightarrow> spawn_rolls) \<Rightarrow> roster \<Rightarrow> world \<Rightarrow>
                                 (roster \<times> world) js_result" where
  "maintainBotCount sp rolls R w =
     (let currentTime = w_time w
      in case sweep_expired currentTime (botIds R) R w of
           (R1, w1) \<Rightarrow>
             (let currentBotCount = length (botIds R1)
              in if currentBotCount < MAX_BOTS
                 then spawn_bots sp rolls 0 (MAX_BOTS - currentBotCount) R1 w1
                 else Ok (R1, w1)))"

subsection \<open>The game-tick handler (lines 399-409)\<close>

fun update_bots :: "host \<Rightarrow> (nat \<Rightarrow> think_rolls) \<Rightarrow> nat \<Rightarrow> real \<Rightarrow> eid list \<Rightarrow> roster \<Rightarrow> world \<Rightarrow>
                    roster \<times> world" where
  "update_bots h rolls i t [] R w = (R, w)"
| "update_bots h rolls i t (botId # rest) R w =
     (case updateBotAI h (rolls i) botId t (botStates R) w of
        (states', w') \<Rightarrow> update_bots h rolls (Suc i) t rest (R\<lparr>botStates := states'\<rparr>) w')"

definition bot_tick :: "host \<Rightarrow> vec3 list \<Rightarrow> (nat \<Rightarrow> spawn_rolls) \<Rightarrow> (nat \<Rightarrow> think_rolls) \<Rightarrow> real \<Rightarrow>
                        roster \<Rightarrow> world \<Rightarrow> (roster \<times> world) js_result" where
  "bot_tick h sp srolls trolls t R w =
     (let checked = (if 1.0 \<le> t - lastBotCountCheckTime R then
                       (case maintainBotCount sp srolls R w of
                          Raised s \<Rightarrow> Raised s
                        | Ok (R1, w1) \<Rightarrow> Ok (R1\<lparr>lastBotCountCheckTime := t\<rparr>, w1))
                     else Ok (R, w))
      in case checked of
           Raised s \<Rightarrow> Raised s
         | Ok (R1, w1) \<Rightarrow> Ok (update_bots h trolls 0 t (botIds R1) R1 w1))"

definition roster_wf :: "roster \<Rightarrow> world \<Rightarrow> bool" where
  "roster_wf R w \<longleftrightarrow> distinct (botIds R) \<and> dom (botStates R) = set (botIds R)
     \<and> set (botIds R) \<subseteq> set (w_entities w) \<and> world_wf w"

definition expired :: "real \<Rightarrow> roster \<Rightarrow> eid \<Rightarrow> bool" where
  "expired t R b = (case botStates R b of Some st \<Rightarrow> leaveTime st \<le> t | None \<Rightarrow> False)"

subsection \<open>Store lemmas\<close>

lemma roster_wf_world:
  "roster_wf R w \<Longrightarrow> world_wf w' \<Longrightarrow> w_entities w' = w_entities w \<Longrightarrow> roster_wf R w'"
  unfolding roster_wf_def by simp

lemma set_entity_position_store:
  "w_entities (set_entity_position e p w) = w_entities w"
  "w_time (set_entity_position e p w) = w_time w"
  "world_wf w \<Longrightarrow> world_wf (set_entity_position e p w)"
  by (auto simp: set_entity_position_def set_pos_def world_wf_def split: option.splits)

subsection \<open>createBot and removeBot\<close>

definition bot_lifetime :: "spawn_rolls \<Rightarrow> real" where
  "bot_lifetime rr = BOT_LIFETIME_MIN + roll_lifetime rr * (BOT_LIFETIME_MAX - BOT_LIFETIME_MIN)"

definition bot_trait :: "spawn_rolls \<Rightarrow> player_trait" where
  "bot_trait rr = \<lparr>kills = 0, deathCount = 0, respawnTime = 0, arrowCount = 3, maxArrows = 3,
     lastKillTime = 0, name = BOT_NAMES ! nat \<lfloor>roll_name rr * real (length BOT_NAMES)\<rfloor>,
     killStreak = 0\<rparr>"

lemma createBot_props:
  assumes wf: "roster_wf R w" and cb: "createBot rr R w = (b, R', w')"
  shows "roster_wf R' w'" "b = w_next w" "b \<notin> set (botIds R)" "botIds R' = botIds R @ [b]"
    "botStates R' = (botStates R)(b \<mapsto> new_bot_state (w_time w) (bot_lifetime rr))"
    "lastBotCountCheckTime R' = lastBotCountCheckTime R"
    "w_time w' = w_time w" "w_pos w' = w_pos w" "w_alive w' = w_alive w"
    "w_entities w' = w_entities w @ [b]" "w_player w' b = Some (bot_trait rr)"
    "w_avatar w' b = Some (botAvatars ! nat \<lfloor>roll_avatar rr * real (length botAvatars)\<rfloor>)"
proof -
  let ?a = "botAvatars ! nat \<lfloor>roll_avatar rr * real (length botAvatars)\<rfloor>"
  obtain b1 w1 where sc: "spawn_character ?a w = (b1, w1)" by (cases "spawn_character ?a w")
  have wwf: "world_wf w" using wf by (simp add: roster_wf_def)
  note sp = spawn_character_props [OF wwf sc]
  have eqs: "b = b1" "R' = R\<lparr>botStates := (botStates R)(b1 \<mapsto> new_bot_state (w_time w) (bot_lifetime rr)),
      botIds := set_add b1 (botIds R)\<rparr>" "w' = set_player b1 (bot_trait rr) w1"
    using cb sp(6) by (auto simp: createBot_def Let_def sc bot_lifetime_def bot_trait_def set_player_def)
  have fresh: "b1 \<notin> set (botIds R)" using wf sp(2) by (auto simp: roster_wf_def)
  show "roster_wf R' w'"
    using wf fresh sp(4,5) set_player_wf [OF sp(4), of b1 "bot_trait rr"]
    by (auto simp: eqs roster_wf_def set_player_def)
  show "b = w_next w" "b \<notin> set (botIds R)" "botIds R' = botIds R @ [b]"
    "botStates R' = (botStates R)(b \<mapsto> new_bot_state (w_time w) (bot_lifetime rr))"
    "lastBotCountCheckTime R' = lastBotCountCheckTime R"
    using sp(1) fresh by (simp_all add: eqs)
  show "w_time w' = w_time w" "w_pos w' = w_pos w" "w_alive w' = w_alive w"
    "w_entities w' = w_entities w @ [b]" "w_player w' b = Some (bot_trait rr)" "w_avatar w' b = Some ?a"
    using sp by (simp_all add: eqs set_player_def)
qed

lemma removeBot_wf:
  assumes wf: "roster_wf R w" and rb: "removeBot b R w = (R', w')"
  shows "roster_wf R' w'"
proof -
  have eqs: "R' = R\<lparr>botStates := (botStates R)(b := None), botIds := removeAll b (botIds R)\<rparr>"
    "w' = remove_entity b w"
    using rb by (auto simp: removeBot_def)
  have "world_wf (remove_entity b w)" using wf by (simp add: roster_wf_def remove_entity_wf)
  moreover have "w_entities (remove_entity b w) = removeAll b (w_entities w)"
    by (simp add: remove_entity_def)
  ultimately show ?thesis using wf by (auto simp: eqs roster_wf_def distinct_removeAll)
qed

subsection \<open>The lifetime sweep\<close>

text \<open>The sweep removes exactly the visited bots whose lifetime has run out; removing one
  bot changes no other bot's state, so whether a later bot expired is read in the
  roster the sweep started from.\<close>

lemma sweep_expired_eq:
  "sweep_expired t xs R w = (R', w') \<Longrightarrow>
     botIds R' = filter (\<lambda>b. \<not> (b \<in> set xs \<and> expired t R b)) (botIds R)
     \<and> botStates R' = (\<lambda>b. if b \<in> set xs \<and> expired t R b then None else botStates R b)
     \<and> w_time w' = w_time w \<and> lastBotCountCheckTime R' = lastBotCountCheckTime R"
proof (induction xs arbitrary: R w)
  case Nil
  then show ?case by simp
next
  case (Cons b rest)
  show ?case
  proof (cases "expired t R b")
    case True
    obtain R1 w1 where rb: "removeBot b R w = (R1, w1)" by (cases "removeBot b R w")
    have R1: "botIds R1 = filter (\<lambda>c. b \<noteq> c) (botIds R)" "botStates R1 = (botStates R)(b := None)"
      "w_time w1 = w_time w" "lastBotCountCheckTime R1 = lastBotCountCheckTime R"
      using rb by (auto simp: removeBot_def remove_entity_def removeAll_filter_not_eq)
    have step: "sweep_expired t rest R1 w1 = (R', w')"
      using Cons.prems True rb by (simp add: expired_def split: option.splits)
    have ex: "expired t R1 c \<longleftrightarrow> c \<noteq> b \<and> expired t R c" for c
      using R1(2) by (simp add: expired_def)
    have P: "(\<lambda>c. b \<noteq> c \<and> \<not> (c \<in> set rest \<and> expired t R1 c))
        = (\<lambda>c. \<not> (c \<in> set (b # rest) \<and> expired t R c))"
      using True ex by auto
    have S: "(\<lambda>c. if c \<in> set rest \<and> expired t R1 c then None else botStates R1 c)
        = (\<lambda>c. if c \<in> set (b # rest) \<and> expired t R c then None else botStates R c)"
    proof
      fix c show "(if c \<in> set rest \<and> expired t R1 c then None else botStates R1 c)
          = (if c \<in> set (b # rest) \<and> expired t R c then None else botStates R c)"
        using True by (cases "c = b") (simp_all add: ex R1(2))
    qed
    from Cons.IH [OF step] show ?thesis
      by (simp only: R1(1,3,4) filter_filter P S)
  next
    case False
    have step: "sweep_expired t rest R w = (R', w')"
      using Cons.prems False by (auto simp: expired_def split: option.splits)
    from Cons.IH [OF step] False show ?thesis by (auto intro!: filter_cong)
  qed
qed

lemma sweep_expired_wf:
  "roster_wf R w \<Longrightarrow> sweep_expired t xs R w = (R', w') \<Longrightarrow> roster_wf R' w'"
proof (induction xs arbitrary: R w)
  case (Cons b rest)
  show ?case
  proof (cases "botStates R b")
    case None
    with Cons show ?thesis by simp
  next
    case (Some st)
    obtain R1 w1 where rb: "removeBot b R w = (R1, w1)" by (cases "removeBot b R w")
    show ?thesis
    proof (cases "leaveTime st \<le> t")
      case True
      show ?thesis
        using Cons.IH [OF removeBot_wf [OF Cons.prems(1) rb]] Cons.prems(2) Some True rb by simp
    next
      case False
      with Cons Some show ?thesis by simp
    qed
  qed
qed simp

text \<open>After the sweep every bot on the roster has a state whose lifetime runs past
  the sweep's time.\<close>

definition bots_live :: "real \<Rightarrow> roster \<Rightarrow> bool" where
  "bots_live t R \<longleftrightarrow> (\<forall>b \<in> set (botIds R). \<exists>st. botStates R b = Some st \<and> t < leaveTime st)"

lemma sweep_expired_all:
  assumes wf: "roster_wf R w" and sw: "sweep_expired t (botIds R) R w = (R', w')"
  shows "botIds R' = filter (\<lambda>b. \<not> expired t R b) (botIds R)" "bots_live t R'"
proof -
  note eq = sweep_expired_eq [OF sw]
  show ids: "botIds R' = filter (\<lambda>b. \<not> expired t R b) (botIds R)"
    using eq by (auto intro: filter_cong)
  show "bots_live t R'" unfolding bots_live_def
  proof
    fix b assume "b \<in> set (botIds R')"
    then have b: "b \<in> set (botIds R)" "\<not> expired t R b" using ids by auto
    then obtain st where "botStates R b = Some st" using wf by (auto simp: roster_wf_def)
    with b eq show "\<exists>st. botStates R' b = Some st \<and> t < leaveTime st"
      by (auto simp: expired_def)
  qed
qed

subsection \<open>The spawn loop\<close>

text \<open>One iteration: the new bot is on the roster; either \<open>spawnPlayer\<close> throws and the
  loop stops there, or the loop goes on from a well-formed store at the same time.\<close>

lemma spawn_bots_step:
  assumes wf: "roster_wf R w" and cb: "createBot (rolls i) R w = (b, R1, w1)"
  obtains (raised) w2 where "spawn_bots sp rolls i (Suc k) R w = Raised (R1, w2)"
      "roster_wf R1 w2" "w_time w2 = w_time w"
    | (cont) w2 where "spawn_bots sp rolls i (Suc k) R w = spawn_bots sp rolls (Suc i) k R1 w2"
      "roster_wf R1 w2" "w_time w2 = w_time w"
proof -
  note c = createBot_props [OF wf cb]
  have w1: "world_wf w1" "b \<in> set (w_entities w1)" using c(1) c(10) by (auto simp: roster_wf_def)
  note st = spawnPlayer_store [OF w1, of sp True]
  show ?thesis
  proof (cases "b \<noteq> 0")
    case False
    then show ?thesis using cont [of w1] cb c(1) c(7) by simp
  next
    case True
    show ?thesis
    proof (cases "spawnPlayer sp b True w1")
      case (Raised x)
      obtain pos w2 where x: "x = (pos, w2)" by (cases x)
      have "roster_wf R1 w2" using roster_wf_world [OF c(1)] st Raised x by simp
      then show ?thesis using raised [of w2] cb True Raised x st c(7) by simp
    next
      case (Ok x)
      obtain pos w2 where x: "x = (pos, w2)" by (cases x)
      let ?w3 = "set_entity_position b pos w2"
      have "roster_wf R1 ?w3"
        using roster_wf_world [OF c(1)] st Ok x by (simp add: set_entity_position_store)
      then show ?thesis
        using cont [of ?w3] cb True Ok x st c(7) by (simp add: set_entity_position_store)
    qed
  qed
qed

lemma spawn_bots_props:
  "roster_wf R w \<Longrightarrow> spawn_bots sp rolls i k R w = r \<Longrightarrow>
     roster_wf (fst (js_state r)) (snd (js_state r))
     \<and> w_time (snd (js_state r)) = w_time w
     \<and> lastBotCountCheckTime (fst (js_state r)) = lastBotCountCheckTime R
     \<and> (\<exists>new. botIds (fst (js_state r)) = botIds R @ new
          \<and> (\<forall>s. r = Ok s \<longrightarrow> length new = k)
          \<and> (\<forall>b. b \<notin> set new \<longrightarrow> botStates (fst (js_state r)) b = botStates R b)
          \<and> (\<forall>b \<in> set new. \<exists>j. botStates (fst (js_state r)) b
                = Some (new_bot_state (w_time w) (bot_lifetime (rolls j)))))"
proof (induction k arbitrary: i R w r)
  case 0
  then show ?case by (auto intro!: exI [of _ "[]"])
next
  case (Suc k)
  obtain b R1 w1 where cb: "createBot (rolls i) R w = (b, R1, w1)" by (metis prod_cases3)
  note c = createBot_props [OF Suc.prems(1) cb]
  show ?case
  proof (rule spawn_bots_step [where rolls = rolls and i = i and sp = sp and k = k, OF Suc.prems(1) cb])
    fix w2 assume r: "spawn_bots sp rolls i (Suc k) R w = Raised (R1, w2)"
      "roster_wf R1 w2" "w_time w2 = w_time w"
    then have "r = Raised (R1, w2)" using Suc.prems(2) by simp
    then show ?case using r c(4,5,6) by (auto intro!: exI [of _ "[b]"])
  next
    fix w2 assume r: "spawn_bots sp rolls i (Suc k) R w = spawn_bots sp rolls (Suc i) k R1 w2"
      "roster_wf R1 w2" "w_time w2 = w_time w"
    have rr: "spawn_bots sp rolls (Suc i) k R1 w2 = r" using r(1) Suc.prems(2) by simp
    note IH = Suc.IH [OF r(2) rr]
    then obtain new where n: "botIds (fst (js_state r)) = botIds R1 @ new"
      "\<forall>s. r = Ok s \<longrightarrow> length new = k"
      "\<forall>b. b \<notin> set new \<longrightarrow> botStates (fst (js_state r)) b = botStates R1 b"
      "\<forall>b \<in> set new. \<exists>j. botStates (fst (js_state r)) b
          = Some (new_bot_state (w_time w2) (bot_lifetime (rolls j)))"
      by blast
    have bn: "b \<notin> set new" using IH n(1) c(4) by (auto simp: roster_wf_def)
    show ?case using IH n bn c(4,5,6) r(3) by (auto intro!: exI [of _ "b # new"])
  qed
qed

subsection \<open>The update loop\<close>

lemma updateBotAI_dom: "dom (fst (updateBotAI h r b t states w)) = dom states"
  by (auto simp: updateBotAI_def Let_def split: option.splits prod.splits if_splits)

lemma update_bots_props:
  "roster_wf R w \<Longrightarrow> update_bots h rolls i t xs R w = (R', w') \<Longrightarrow>
     roster_wf R' w' \<and> botIds R' = botIds R \<and> lastBotCountCheckTime R' = lastBotCountCheckTime R
     \<and> w_time w' = w_time w"
proof (induction xs arbitrary: i R w)
  case (Cons b rest)
  obtain states' w1 where u: "updateBotAI h (rolls i) b t (botStates R) w = (states', w1)"
    by (cases "updateBotAI h (rolls i) b t (botStates R) w")
  have fr: "world_frame b w w1" using updateBotAI_frame_core [of b h "rolls i" t "botStates R" w] u by simp
  have dom: "dom states' = dom (botStates R)" using updateBotAI_dom [of h "rolls i" b t "botStates R" w] u by simp
  have wf1: "roster_wf (R\<lparr>botStates := states'\<rparr>) w1"
    using Cons.prems(1) world_frame_wf [OF fr] world_frame_same [OF fr] dom by (simp add: roster_wf_def)
  have "update_bots h rolls (Suc i) t rest (R\<lparr>botStates := states'\<rparr>) w1 = (R', w')"
    using Cons.prems(2) u by simp
  from Cons.IH [OF wf1 this] show ?case using world_frame_same [OF fr] by simp
qed simp

subsection \<open>The maintenance pass\<close>

lemma bot_lifetime_bounds:
  "0 \<le> roll_lifetime rr \<Longrightarrow> BOT_LIFETIME_MIN \<le> bot_lifetime rr"
  "roll_lifetime rr < 1 \<Longrightarrow> bot_lifetime rr < BOT_LIFETIME_MAX"
  by (simp_all add: bot_lifetime_def roster_constants)

lemma maintainBotCount_props:
  assumes wf: "roster_wf R w" and m: "maintainBotCount sp rolls R w = r"
  shows "roster_wf (fst (js_state r)) (snd (js_state r))"
    "lastBotCountCheckTime (fst (js_state r)) = lastBotCountCheckTime R"
    "w_time (snd (js_state r)) = w_time w"
    "r = Ok s \<Longrightarrow> length (botIds (fst s))
        = max MAX_BOTS (length (filter (\<lambda>b. \<not> expired (w_time w) R b) (botIds R)))"
    "(\<And>j. 0 \<le> roll_lifetime (rolls j)) \<Longrightarrow> bots_live (w_time w) (fst (js_state r))"
proof -
  obtain R1 w1 where sw: "sweep_expired (w_time w) (botIds R) R w = (R1, w1)"
    by (cases "sweep_expired (w_time w) (botIds R) R w")
  note e = sweep_expired_eq [OF sw] and a = sweep_expired_all [OF wf sw]
  have wf1: "roster_wf R1 w1" using sweep_expired_wf [OF wf sw] .
  have r: "r = (if length (botIds R1) < MAX_BOTS
                then spawn_bots sp rolls 0 (MAX_BOTS - length (botIds R1)) R1 w1 else Ok (R1, w1))"
    using m sw by (simp add: maintainBotCount_def Let_def)
  let ?R' = "fst (js_state r)" and ?w' = "snd (js_state r)"
  have "\<exists>new. roster_wf ?R' ?w' \<and> w_time ?w' = w_time w1
     \<and> lastBotCountCheckTime ?R' = lastBotCountCheckTime R1 \<and> botIds ?R' = botIds R1 @ new
     \<and> (\<forall>s. r = Ok s \<longrightarrow> length (botIds R1) + length new = max MAX_BOTS (length (botIds R1)))
     \<and> (\<forall>b. b \<notin> set new \<longrightarrow> botStates ?R' b = botStates R1 b)
     \<and> (\<forall>b \<in> set new. \<exists>j. botStates ?R' b = Some (new_bot_state (w_time w1) (bot_lifetime (rolls j))))"
  proof (cases "length (botIds R1) < MAX_BOTS")
    case True
    then show ?thesis
      using spawn_bots_props [OF wf1 refl, of sp rolls 0 "MAX_BOTS - length (botIds R1)"] r by auto
  next
    case False
    then show ?thesis using wf1 r by (auto intro!: exI [of _ "[]"])
  qed
  then obtain new where g: "roster_wf ?R' ?w'" "w_time ?w' = w_time w1"
     "lastBotCountCheckTime ?R' = lastBotCountCheckTime R1" "botIds ?R' = botIds R1 @ new"
     "\<forall>s. r = Ok s \<longrightarrow> length (botIds R1) + length new = max MAX_BOTS (length (botIds R1))"
     "\<forall>b. b \<notin> set new \<longrightarrow> botStates ?R' b = botStates R1 b"
     "\<forall>b \<in> set new. \<exists>j. botStates ?R' b = Some (new_bot_state (w_time w1) (bot_lifetime (rolls j)))"
    by blast
  show "roster_wf ?R' ?w'" "lastBotCountCheckTime ?R' = lastBotCountCheckTime R"
    "w_time ?w' = w_time w"
    using g(1-3) e by simp_all
  show "r = Ok s \<Longrightarrow> length (botIds (fst s))
        = max MAX_BOTS (length (filter (\<lambda>b. \<not> expired (w_time w) R b) (botIds R)))"
    using g(4,5) a(1) by simp
  assume pos: "\<And>j. 0 \<le> roll_lifetime (rolls j)"
  show "bots_live (w_time w) ?R'" unfolding bots_live_def
  proof
    fix b assume b: "b \<in> set (botIds ?R')"
    show "\<exists>st. botStates ?R' b = Some st \<and> w_time w < leaveTime st"
    proof (cases "b \<in> set new")
      case True
      then obtain j where "botStates ?R' b = Some (new_bot_state (w_time w1) (bot_lifetime (rolls j)))"
        using g(7) by blast
      moreover have "0 < bot_lifetime (rolls j)"
        using bot_lifetime_bounds(1) [OF pos [of j]] by (simp add: roster_constants)
      ultimately show ?thesis using e by (simp add: new_bot_state_def)
    next
      case False
      then have "b \<in> set (botIds R1)" using b g(4) by simp
      then show ?thesis using a(2) g(6) False by (simp add: bots_live_def)
    qed
  qed
qed

subsection \<open>The tick handler\<close>

lemma roster_wf_check_time [simp]:
  "roster_wf (R\<lparr>lastBotCountCheckTime := t\<rparr>) w = roster_wf R w"
  by (simp add: roster_wf_def)

lemma update_bots_wf:
  "roster_wf R w \<Longrightarrow>
     roster_wf (fst (update_bots h rolls i t xs R w)) (snd (update_bots h rolls i t xs R w))
     \<and> botIds (fst (update_bots h rolls i t xs R w)) = botIds R
     \<and> lastBotCountCheckTime (fst (update_bots h rolls i t xs R w)) = lastBotCountCheckTime R"
  using update_bots_props [OF _ surjective_pairing] by blast

lemma bot_tick_cases:
  "bot_tick h sp srolls trolls t R w =
     (if 1 \<le> t - lastBotCountCheckTime R then
        (case maintainBotCount sp srolls R w of
           Raised s \<Rightarrow> Raised s
         | Ok s \<Rightarrow> Ok (update_bots h trolls 0 t (botIds (fst s))
                     ((fst s)\<lparr>lastBotCountCheckTime := t\<rparr>) (snd s)))
      else Ok (update_bots h trolls 0 t (botIds R) R w))"
  by (auto simp: bot_tick_def split: js_result.splits prod.splits)

subsection \<open>Without spawn points\<close>

lemma createBot_world:
  "w_pos (snd (snd (createBot rr R w))) = w_pos w" "w_alive (snd (snd (createBot rr R w))) = w_alive w"
  by (simp_all add: createBot_def Let_def spawn_character_def spawn_entity_def set_player_def
      split: prod.splits)

lemma sweep_expired_world:
  "sweep_expired t xs R w = (R', w') \<Longrightarrow> b \<notin> set xs \<Longrightarrow>
     w_pos w' b = w_pos w b \<and> w_alive w' b = w_alive w b"
proof (induction xs arbitrary: R w)
  case (Cons c rest)
  then show ?case
    by (auto simp: removeBot_def remove_entity_def split: option.splits if_splits)
qed simp

lemma spawn_bots_no_points:
  "\<exists>s. spawn_bots [] rolls i k R w = Ok s \<and> w_pos (snd s) = w_pos w \<and> w_alive (snd s) = w_alive w"
proof (induction k arbitrary: i R w)
  case (Suc k)
  obtain b R1 w1 where cb: "createBot (rolls i) R w = (b, R1, w1)" by (metis prod_cases3)
  have "w_pos w1 = w_pos w" "w_alive w1 = w_alive w"
    using createBot_world [of "rolls i" R w] cb by simp_all
  with Suc.IH [of "Suc i" R1 w1] cb show ?case
    by (simp add: spawnPlayer_def set_entity_position_def)
qed simp

lemma maintainBotCount_empty_ok: "\<exists>s. maintainBotCount [] rolls R w = Ok s"
proof -
  obtain R1 w1 where sw: "sweep_expired (w_time w) (botIds R) R w = (R1, w1)"
    by (cases "sweep_expired (w_time w) (botIds R) R w")
  show ?thesis
    using spawn_bots_no_points [of rolls 0 "MAX_BOTS - length (botIds R1)" R1 w1] sw
    by (auto simp: maintainBotCount_def Let_def)
qed

subsection \<open>The trait typing invariant\<close>

lemma createBot_ammo: "trait_inv w \<Longrightarrow> trait_inv (snd (snd (createBot rr R w)))"
proof -
  assume inv: "trait_inv w"
  let ?a = "botAvatars ! nat \<lfloor>roll_avatar rr * real (length botAvatars)\<rfloor>"
  obtain b w1 where sc: "spawn_character ?a w = (b, w1)" by (cases "spawn_character ?a w")
  have "trait_inv w1" using inv sc trait_inv_ops(10) [of ?a w] by simp
  then have "trait_inv (set_player b (bot_trait rr) w1)"
    by (rule trait_inv_set_player) (simp_all add: bot_trait_def trait_typed_def)
  then show ?thesis by (simp add: createBot_def Let_def sc bot_trait_def)
qed

lemma sweep_expired_ammo:
  "trait_inv w \<Longrightarrow> sweep_expired t xs R w = (R', w') \<Longrightarrow> trait_inv w'"
proof (induction xs arbitrary: R w)
  case (Cons b rest)
  then show ?case
    by (auto simp: removeBot_def intro: trait_inv_remove split: option.splits if_splits)
qed simp

lemma spawn_bots_ammo:
  "trait_inv w \<Longrightarrow> trait_inv (snd (js_state (spawn_bots sp rolls i k R w)))"
proof (induction k arbitrary: i R w)
  case (Suc k)
  obtain b R1 w1 where cb: "createBot (rolls i) R w = (b, R1, w1)" by (metis prod_cases3)
  have i1: "trait_inv w1" using createBot_ammo [OF Suc.prems, of "rolls i" R] cb by simp
  have i2: "trait_inv (snd (js_state (spawnPlayer sp b True w1)))" by (rule spawnPlayer_ammo [OF i1])
  have i3: "trait_inv (set_entity_position b pos w2)" if "trait_inv w2" for pos w2
    using that by (simp add: set_entity_position_def split: option.splits)
  show ?case
    using cb i1 i2 i3 Suc.IH by (auto split: js_result.splits prod.splits)
qed simp

lemma maintainBotCount_ammo:
  "trait_inv w \<Longrightarrow> trait_inv (snd (js_state (maintainBotCount sp rolls R w)))"
  by (auto simp: maintainBotCount_def Let_def intro: spawn_bots_ammo dest: sweep_expired_ammo
      split: prod.splits)

lemma update_bots_ammo: "trait_inv w \<Longrightarrow> trait_inv (snd (update_bots h rolls i t xs R w))"
proof (induction xs arbitrary: i R w)
  case (Cons b rest)
  obtain st' w' where u: "updateBotAI h (rolls i) b t (botStates R) w = (st', w')" by fastforce
  have "trait_inv w'" using updateBotAI_ammo [OF Cons.prems, of h "rolls i" b t "botStates R"] u by simp
  with Cons.IH u show ?case by simp
qed simp

lemma bot_tick_ammo: "trait_inv w \<Longrightarrow> trait_inv (snd (js_state (bot_tick h sp srolls trolls t R w)))"
  using maintainBotCount_ammo [of w sp srolls R]
  by (auto simp: bot_tick_cases intro: update_bots_ammo split: js_result.splits)

subsection \<open>Fixtures\<close>

definition demo_roster :: roster where
  "demo_roster = \<lparr>botStates = [1 \<mapsto> demo_bot], botIds = [1], lastBotCountCheckTime = 0\<rparr>"

definition demo_spawn_rolls :: "nat \<Rightarrow> spawn_rolls" where
  "demo_spawn_rolls = (\<lambda>_. \<lparr>roll_avatar = 0.5, roll_name = 0.99, roll_lifetime = 0.5\<rparr>)"

definition demo_think_rolls :: "nat \<Rightarrow> think_rolls" where
  "demo_think_rolls = (\<lambda>_. demo_rolls)"

lemmas roster_demo_defs = demo_roster_def demo_spawn_rolls_def demo_think_rolls_def

lemma demo_roster_wf: "roster_wf demo_roster demo_world"
  by (simp add: roster_wf_def world_wf_def demo_roster_def demo_world_def demo_player_def)

subsection \<open>Properties of the roster\<close>

text \<open>C11: The roster invariant (the bot id set has no duplicates, exactly the rostered bots
  have a state, every rostered bot is a live entity, and the entity store is well formed)
  holds after every game tick, also when the tick is cut short by a thrown TypeError.\<close>

theorem bot_tick_wf:
  assumes "roster_wf R w"
  shows "roster_wf (fst (js_state (bot_tick h sp srolls trolls t R w)))
                   (snd (js_state (bot_tick h sp srolls trolls t R w)))"
  using maintainBotCount_props(1) [OF assms refl, of sp srolls] update_bots_wf [OF assms]
    update_bots_wf [of "(fst (js_state (maintainBotCount sp srolls R w)))\<lparr>lastBotCountCheckTime := t\<rparr>"]
  by (auto simp: bot_tick_cases split: js_result.splits)

theorem bot_tick_wf_witness:
  "roster_wf (fst (js_state (bot_tick demo_host [(0, 0, 10)] demo_spawn_rolls demo_think_rolls 5
      demo_roster demo_world)))
    (snd (js_state (bot_tick demo_host [(0, 0, 10)] demo_spawn_rolls demo_think_rolls 5
      demo_roster demo_world)))"
  by (rule bot_tick_wf [OF demo_roster_wf])

text \<open>C12: A maintenance pass that completes leaves exactly max(MAX_BOTS, n) bots, where n
  is the number of rostered bots whose lifetime has not run out: expired bots are removed
  and the roster is topped up to three.\<close>

theorem maintainBotCount_count:
  assumes "roster_wf R w" "maintainBotCount sp rolls R w = Ok (R', w')"
  shows "length (botIds R') = max MAX_BOTS (length (filter (\<lambda>b. \<not> expired (w_time w) R b) (botIds R)))"
  using maintainBotCount_props(4) [OF assms(1) assms(2)] by simp

theorem maintainBotCount_count_witness:
  "\<exists>R' w'. maintainBotCount [] demo_spawn_rolls demo_roster demo_world = Ok (R', w')
     \<and> length (botIds R') = 3"
proof -
  have "\<exists>s. maintainBotCount [] demo_spawn_rolls demo_roster demo_world = Ok s"
    by (simp add: maintainBotCount_def roster_demo_defs demo_defs createBot_def spawnPlayer_def
        spawn_character_def spawn_entity_def set_player_def set_add_def set_entity_position_def
        roster_constants numeral_eq_Suc)
  then obtain R' w' where m: "maintainBotCount [] demo_spawn_rolls demo_roster demo_world = Ok (R', w')"
    by auto
  have "length (botIds R') = max MAX_BOTS
      (length (filter (\<lambda>b. \<not> expired (w_time demo_world) demo_roster b) (botIds demo_roster)))"
    by (rule maintainBotCount_count [OF demo_roster_wf m])
  moreover have "length (filter (\<lambda>b. \<not> expired (w_time demo_world) demo_roster b)
      (botIds demo_roster)) = 1"
    by (simp add: expired_def roster_demo_defs demo_defs)
  ultimately show ?thesis using m by (auto simp: MAX_BOTS_def)
qed

text \<open>After a maintenance pass, completed or cut short by a throw, every rostered bot
  has a state whose leave time lies after the pass's world time: no bot past its lifetime
  stays on the roster (given lifetime rolls that are non-negative, as Math.random's are).\<close>

theorem maintainBotCount_live:
  assumes "roster_wf R w" "\<And>j. 0 \<le> roll_lifetime (rolls j)"
  shows "bots_live (w_time w) (fst (js_state (maintainBotCount sp rolls R w)))"
  by (rule maintainBotCount_props(5) [OF assms(1) refl assms(2)])

theorem maintainBotCount_live_witness:
  "bots_live (w_time demo_world)
     (fst (js_state (maintainBotCount [(0, 0, 10)] demo_spawn_rolls demo_roster demo_world)))"
  by (rule maintainBotCount_live [OF demo_roster_wf]) (simp add: demo_spawn_rolls_def)

text \<open>createBot, for Math.random values in [0, 1), adds a fresh entity to the end of
  the roster with a state whose leave time lies in [now + 200, now + 300), a player trait
  with 3 of 3 arrows and a name from BOT_NAMES, and an avatar from botAvatars.\<close>

theorem createBot_spec:
  assumes "roster_wf R w" "createBot rr R w = (b, R', w')"
    "0 \<le> roll_avatar rr" "roll_avatar rr < 1" "0 \<le> roll_name rr" "roll_name rr < 1"
    "0 \<le> roll_lifetime rr" "roll_lifetime rr < 1"
  shows "b \<notin> set (botIds R) \<and> botIds R' = botIds R @ [b]
    \<and> (\<exists>st. botStates R' b = Some st \<and> spawnTime st = w_time w
           \<and> w_time w + BOT_LIFETIME_MIN \<le> leaveTime st \<and> leaveTime st < w_time w + BOT_LIFETIME_MAX)
    \<and> (\<exists>p. w_player w' b = Some p \<and> name p \<in> set BOT_NAMES \<and> arrowCount p = 3 \<and> maxArrows p = 3)
    \<and> (\<exists>a. w_avatar w' b = Some a \<and> a \<in> set botAvatars)"
proof -
  note c = createBot_props [OF assms(1,2)]
  have n: "nat \<lfloor>roll_name rr * real (length BOT_NAMES)\<rfloor> < length BOT_NAMES"
    using random_index_bound [OF assms(5,6), of "length BOT_NAMES"] by (simp add: BOT_NAMES_def)
  have a: "nat \<lfloor>roll_avatar rr * real (length botAvatars)\<rfloor> < length botAvatars"
    using random_index_bound [OF assms(3,4), of "length botAvatars"] by (simp add: botAvatars_def)
  show ?thesis
    using c(3,4,5,11,12) n a bot_lifetime_bounds [of rr] assms(7,8)
    by (simp add: new_bot_state_def bot_trait_def)
qed

theorem createBot_spec_witness:
  "\<exists>b R' w'. createBot (demo_spawn_rolls 0) demo_roster demo_world = (b, R', w')
     \<and> b \<notin> set (botIds demo_roster) \<and> (\<exists>a. w_avatar w' b = Some a \<and> a \<in> set botAvatars)"
proof -
  obtain b R' w' where cb: "createBot (demo_spawn_rolls 0) demo_roster demo_world = (b, R', w')"
    by (metis prod_cases3)
  have "0 \<le> roll_avatar (demo_spawn_rolls 0) \<and> roll_avatar (demo_spawn_rolls 0) < 1
     \<and> 0 \<le> roll_name (demo_spawn_rolls 0) \<and> roll_name (demo_spawn_rolls 0) < 1
     \<and> 0 \<le> roll_lifetime (demo_spawn_rolls 0) \<and> roll_lifetime (demo_spawn_rolls 0) < 1"
    by (simp add: demo_spawn_rolls_def)
  then show ?thesis using createBot_spec [OF demo_roster_wf cb] cb by blast
qed

text \<open>The roster is only maintained once a second: a tick that comes less than one
  second after the last check leaves the roster's bot set and the check time alone; a tick
  that runs the check and completes records its time and leaves at least MAX_BOTS bots.\<close>

theorem bot_tick_cadence:
  assumes "roster_wf R w" "bot_tick h sp srolls trolls t R w = Ok (R', w')"
  shows "(t - lastBotCountCheckTime R < 1 \<longrightarrow>
            botIds R' = botIds R \<and> lastBotCountCheckTime R' = lastBotCountCheckTime R)
       \<and> (1 \<le> t - lastBotCountCheckTime R \<longrightarrow>
            lastBotCountCheckTime R' = t \<and> MAX_BOTS \<le> length (botIds R'))"
proof (cases "1 \<le> t - lastBotCountCheckTime R")
  case True
  then obtain s where m: "maintainBotCount sp srolls R w = Ok s"
    and u: "update_bots h trolls 0 t (botIds (fst s)) ((fst s)\<lparr>lastBotCountCheckTime := t\<rparr>) (snd s)
            = (R', w')"
    using assms(2) by (auto simp: bot_tick_cases split: js_result.splits)
  have "roster_wf (fst s) (snd s)" using maintainBotCount_props(1) [OF assms(1) m] by simp
  then have "botIds R' = botIds (fst s) \<and> lastBotCountCheckTime R' = t"
    using update_bots_wf [of "(fst s)\<lparr>lastBotCountCheckTime := t\<rparr>" "snd s" h trolls 0 t
        "botIds (fst s)"] u by simp
  moreover have "length (botIds (fst s))
      = max MAX_BOTS (length (filter (\<lambda>b. \<not> expired (w_time w) R b) (botIds R)))"
    using maintainBotCount_props(4) [OF assms(1) m refl] .
  ultimately show ?thesis using True by simp
next
  case False
  then have "update_bots h trolls 0 t (botIds R) R w = (R', w')"
    using assms(2) by (simp add: bot_tick_cases)
  then show ?thesis using update_bots_wf [OF assms(1), of h trolls 0 t "botIds R"] False by simp
qed

theorem bot_tick_cadence_witness:
  "\<exists>R' w'. bot_tick demo_host [] demo_spawn_rolls demo_think_rolls 0.5 demo_roster demo_world
      = Ok (R', w') \<and> botIds R' = [1]"
proof -
  let ?u = "update_bots demo_host demo_think_rolls 0 0.5 (botIds demo_roster) demo_roster demo_world"
  have b: "bot_tick demo_host [] demo_spawn_rolls demo_think_rolls 0.5 demo_roster demo_world
      = Ok (fst ?u, snd ?u)"
    by (simp add: bot_tick_cases demo_roster_def)
  have "0.5 - lastBotCountCheckTime demo_roster < 1" by (simp add: demo_roster_def)
  then have "botIds (fst ?u) = botIds demo_roster"
    using bot_tick_cadence [OF demo_roster_wf b] by blast
  moreover have "botIds demo_roster = [1]" by (simp add: demo_roster_def)
  ultimately have "botIds (fst ?u) = [1]" by (simp only:)
  with b show ?thesis by blast
qed

text \<open>C14: A tick throws (the TypeError of spawnPlayer on a living player without a
  position) only inside a maintenance pass and only when spawn points exist; the state at the
  throw is exactly the state the maintenance pass threw with on the tick's own roster and
  world, so no bot thinks in that tick, before or after the pass; and the throw leaves the
  check time unchanged, so the next tick runs the pass again.\<close>

theorem bot_tick_raises:
  assumes "roster_wf R w" "bot_tick h sp srolls trolls t R w = Raised (R', w')"
  shows "1 \<le> t - lastBotCountCheckTime R \<and> sp \<noteq> []
    \<and> maintainBotCount sp srolls R w = Raised (R', w')
    \<and> lastBotCountCheckTime R' = lastBotCountCheckTime R"
proof -
  have T: "1 \<le> t - lastBotCountCheckTime R"
    and m: "maintainBotCount sp srolls R w = Raised (R', w')"
    using assms(2) by (auto simp: bot_tick_cases split: if_splits js_result.splits)
  have "sp \<noteq> []" using m maintainBotCount_empty_ok [of srolls R w] by auto
  moreover have "lastBotCountCheckTime R' = lastBotCountCheckTime R"
    using maintainBotCount_props(2) [OF assms(1) m] by simp
  ultimately show ?thesis using T m by simp
qed

theorem bot_tick_raises_witness:
  "\<exists>R' w'. bot_tick demo_host [(0, 0, 10)] demo_spawn_rolls demo_think_rolls 5 demo_roster
      (demo_world\<lparr>w_pos := (w_pos demo_world)(2 := None)\<rparr>) = Raised (R', w')
    \<and> lastBotCountCheckTime R' = 0"
proof -
  let ?w = "demo_world\<lparr>w_pos := (w_pos demo_world)(2 := None)\<rparr>"
  have wf: "roster_wf demo_roster ?w" using demo_roster_wf by (simp add: roster_wf_def world_wf_def)
  have "\<exists>s. bot_tick demo_host [(0, 0, 10)] demo_spawn_rolls demo_think_rolls 5 demo_roster ?w
      = Raised s"
    by (simp add: bot_tick_cases maintainBotCount_def roster_demo_defs demo_defs createBot_def
        spawnPlayer_def init_player_trait_def living_others_def players_of_def
        spawn_character_def spawn_entity_def set_player_def set_add_def roster_constants numeral_eq_Suc)
  then obtain R' w' where b: "bot_tick demo_host [(0, 0, 10)] demo_spawn_rolls demo_think_rolls 5
      demo_roster ?w = Raised (R', w')" by (metis surj_pair)
  have "lastBotCountCheckTime R' = lastBotCountCheckTime demo_roster"
    using bot_tick_raises [OF wf b] by blast
  then show ?thesis using b by (auto simp: demo_roster_def)
qed

text \<open>C15: With no Respawner in the map, spawnPlayer(botId) returns undefined despite the
  non-null assertion of maintainBotCount: the pass still completes, but no entity outside
  the old roster is moved or revived, so the new bots are neither placed at a spawn
  point nor set alive.\<close>

theorem maintainBotCount_no_spawn_points:
  "\<exists>R' w'. maintainBotCount [] rolls R w = Ok (R', w')
     \<and> (\<forall>b. b \<notin> set (botIds R) \<longrightarrow> w_pos w' b = w_pos w b \<and> w_alive w' b = w_alive w b)"
proof -
  obtain R1 w1 where sw: "sweep_expired (w_time w) (botIds R) R w = (R1, w1)"
    by (cases "sweep_expired (w_time w) (botIds R) R w")
  obtain s where sb: "spawn_bots [] rolls 0 (MAX_BOTS - length (botIds R1)) R1 w1 = Ok s"
    "w_pos (snd s) = w_pos w1" "w_alive (snd s) = w_alive w1"
    using spawn_bots_no_points by blast
  have "\<forall>b. b \<notin> set (botIds R) \<longrightarrow> w_pos w1 b = w_pos w b \<and> w_alive w1 b = w_alive w b"
    using sweep_expired_world [OF sw] by blast
  then show ?thesis using sw sb by (cases s) (auto simp: maintainBotCount_def Let_def)
qed

theorem maintainBotCount_no_spawn_points_witness:
  "\<exists>R' w'. maintainBotCount [] demo_spawn_rolls demo_roster demo_world = Ok (R', w')
     \<and> w_pos w' 6 = None \<and> \<not> w_alive w' 6"
  using maintainBotCount_no_spawn_points [of demo_spawn_rolls demo_roster demo_world]
  by (auto simp: demo_roster_def demo_world_def)

end
