(* ===== verification/Pickups.thy ===== *)
theory Pickups
  imports Host
begin

text \<open>
  \<open>src/project/server/pickups.ts\<close>: arrow pickups. Every entity with the
  PickupSpawner trait holds at most one pickup: \<open>spawnedItemId\<close> names it, \<open>-1\<close>
  meaning none, and \<open>dryTime\<close> is the time the pickup was found gone, \<open>0\<close> meaning
  not dry. The game tick turns a spawner dry when its pickup has disappeared and refills it
  ten seconds later (\<open>spawner_update\<close>); a player who touches a pickup below their
  arrow cap takes it (\<open>onPickupCollision\<close>). \<open>J.getAllWithTraits\<close> is the list of
  (entity, trait) pairs in entity order, read once before each loop. The position array
  read from \<open>J.getEntityPosition\<close> is taken to be a copy, so \<open>position[1] += 1\<close>
  raises only the pickup; a missing position (the assertion \<open>!\<close>) throws when
  \<open>position[1]\<close> is read, after the prop has been spawned.
\<close>

subsection \<open>Trait writes\<close>

definition set_spawner :: "eid \<Rightarrow> spawner_trait \<Rightarrow> world \<Rightarrow> world" where
  "set_spawner e s w = w\<lparr>w_spawner := (w_spawner w)(e \<mapsto> s)\<rparr>"

definition set_pickup :: "eid \<Rightarrow> world \<Rightarrow> world" where
  "set_pickup e w = w\<lparr>w_pickup := (w_pickup w)(e := True)\<rparr>"

subsection \<open>spawnPickup (lines 5-26)\<close>

text \<open>\<open>J.spawnProp\<close> runs before \<open>position[1] += 1\<close>, so with no position the new
  prop exists when the TypeError is thrown.\<close>

definition spawnPickup :: "eid \<Rightarrow> vec3 option \<Rightarrow> spawner_trait \<Rightarrow> bool \<Rightarrow> world \<Rightarrow> world js_result" where
  "spawnPickup spawnerId position spawnerData sendCommand w =
     (case spawn_entity w of
        (pickup, w1) \<Rightarrow>
          (case position of
             None \<Rightarrow> Raised w1
           | Some pos \<Rightarrow>
               (let position' = (vx pos, vy pos + 1, vz pos);
                    w2 = set_pickup pickup (set_pos pickup position' w1);
                    w3 = set_spawner spawnerId
                           (spawnerData\<lparr>spawnedItemId := int pickup, dryTime := 0\<rparr>) w2
                in Ok (if sendCommand then send_to_all (ItemSpawnCommand position') None w3 else w3))))"

definition spawner_entries :: "world \<Rightarrow> (eid \<times> spawner_trait) list" where
  "spawner_entries w = List.map_filter (\<lambda>e. map_option (Pair e) (w_spawner w e)) (w_entities w)"

subsection \<open>Game start (lines 28-35)\<close>

fun pickups_start_loop :: "(eid \<times> spawner_trait) list \<Rightarrow> world \<Rightarrow> world js_result" where
  "pickups_start_loop [] w = Ok w"
| "pickups_start_loop ((spawnerId, spawnerData) # rest) w =
     (case spawnPickup spawnerId (w_pos w spawnerId) spawnerData False w of
        Raised w' \<Rightarrow> Raised w'
      | Ok w' \<Rightarrow> pickups_start_loop rest w')"

definition pickups_game_start :: "world \<Rightarrow> world js_result" where
  "pickups_game_start w = pickups_start_loop (spawner_entries w) w"

subsection \<open>The spawner tick (lines 37-61)\<close>

text \<open>\<open>J.getTrait(spawnedItemId, PickupTrait)\<close> is \<open>{}\<close>, which is truthy, while the
  pickup lives; a negative handle names no entity.\<close>

definition item_exists :: "world \<Rightarrow> spawner_trait \<Rightarrow> bool" where
  "item_exists w spawnerData \<longleftrightarrow> spawnedItemId spawnerData \<noteq> -1 \<and> 0 \<le> spawnedItemId spawnerData
     \<and> w_pickup w (nat (spawnedItemId spawnerData))"

definition spawner_update :: "real \<Rightarrow> eid \<Rightarrow> spawner_trait \<Rightarrow> world \<Rightarrow> world js_result" where
  "spawner_update t spawnerId spawnerData w =
     (if \<not> item_exists w spawnerData \<and> spawnedItemId spawnerData \<noteq> -1 then
        (if dryTime spawnerData = 0
         then Ok (set_spawner spawnerId (spawnerData\<lparr>dryTime := t, spawnedItemId := -1\<rparr>) w)
         else Ok w)
      else if 0 < dryTime spawnerData \<and> 10 \<le> t - dryTime spawnerData then
        spawnPickup spawnerId (w_pos w spawnerId) spawnerData True w
      else Ok w)"

fun spawner_loop :: "real \<Rightarrow> (eid \<times> spawner_trait) list \<Rightarrow> world \<Rightarrow> world js_result" where
  "spawner_loop t [] w = Ok w"
| "spawner_loop t ((spawnerId, spawnerData) # rest) w =
     (case spawner_update t spawnerId spawnerData w of
        Raised w' \<Rightarrow> Raised w'
      | Ok w' \<Rightarrow> spawner_loop t rest w')"

definition pickups_tick :: "real \<Rightarrow> world \<Rightarrow> world js_result" where
  "pickups_tick t w = spawner_loop t (spawner_entries w) w"

subsection \<open>Collecting a pickup (lines 63-86)\<close>

definition onPickupCollision :: "eid \<Rightarrow> eid \<Rightarrow> world \<Rightarrow> world" where
  "onPickupCollision playerId pickupId w =
     (case w_player w playerId of
        None \<Rightarrow> w
      | Some playerTrait \<Rightarrow>
          if maxArrows playerTrait \<le> arrowCount playerTrait then w
          else
            (case w_pos w pickupId of
               None \<Rightarrow> w
             | Some pickupPosition \<Rightarrow>
                 send_to_all (PickupCommand playerId pickupPosition) None
                   (remove_entity pickupId
                     (set_player playerId (playerTrait\<lparr>arrowCount := arrowCount playerTrait + 1\<rparr>) w))))"

lemmas pickup_ops_defs = set_spawner_def set_pickup_def spawnPickup_def

subsection \<open>Lemmas on the spawner step\<close>

lemma spawnPickup_Some:
  "spawnPickup sid (Some pos) sd c w = Ok (
     let e = w_next w; pos' = (vx pos, vy pos + 1, vz pos);
         w3 = w\<lparr>w_entities := w_entities w @ [e], w_next := Suc e,
                 w_pos := (w_pos w)(e \<mapsto> pos'), w_pickup := (w_pickup w)(e := True),
                 w_spawner := (w_spawner w)(sid \<mapsto> sd\<lparr>spawnedItemId := int e, dryTime := 0\<rparr>)\<rparr>
     in if c then send_to_all (ItemSpawnCommand pos') None w3 else w3)"
  by (simp add: spawnPickup_def spawn_entity_def set_pickup_def set_pos_def set_spawner_def Let_def)

lemma spawner_update_gone:
  assumes "spawnedItemId sd = int i" "\<not> w_pickup w i" "dryTime sd = 0"
  shows "spawner_update t sid sd w = Ok (set_spawner sid (sd\<lparr>dryTime := t, spawnedItemId := -1\<rparr>) w)"
  using assms by (simp add: spawner_update_def item_exists_def)

lemma spawner_update_dry:
  assumes "spawnedItemId sd = -1"
  shows "spawner_update t sid sd w =
    (if 0 < dryTime sd \<and> 10 \<le> t - dryTime sd then spawnPickup sid (w_pos w sid) sd True w else Ok w)"
  using assms by (simp add: spawner_update_def item_exists_def)

lemma onPickupCollision_gone: "w_pos w pk = None \<Longrightarrow> onPickupCollision pl pk w = w"
  by (simp add: onPickupCollision_def split: option.splits)

lemma onPickupCollision_taken:
  "onPickupCollision pl pk w = w \<or> w_pos (onPickupCollision pl pk w) pk = None"
  by (simp add: onPickupCollision_def world_ops_defs split: option.splits)

subsection \<open>The trait typing invariant\<close>

text \<open>The spawner side never touches a player trait; only a collection adds an arrow,
  below the cap.\<close>

lemma spawnPickup_players: "w_player (js_state (spawnPickup sid pos sd c w)) = w_player w"
  by (simp add: spawnPickup_def spawn_entity_def pickup_ops_defs set_pos_def send_to_all_def Let_def
      split: option.splits)

lemma pickups_start_loop_players: "w_player (js_state (pickups_start_loop xs w)) = w_player w"
proof (induction xs arbitrary: w)
  case (Cons x rest)
  obtain sid sd where x: "x = (sid, sd)" by (cases x)
  show ?case
    using Cons.IH spawnPickup_players [of sid "w_pos w sid" sd False w] x
    by (auto split: js_result.splits)
qed simp

lemma spawner_loop_players: "w_player (js_state (spawner_loop t xs w)) = w_player w"
proof (induction xs arbitrary: w)
  case (Cons x rest)
  obtain sid sd where x: "x = (sid, sd)" by (cases x)
  have u: "w_player (js_state (spawner_update t sid sd w)) = w_player w"
    using spawnPickup_players [of sid "w_pos w sid" sd True w]
    by (simp add: spawner_update_def set_spawner_def)
  show ?case using Cons.IH u x by (auto split: js_result.splits)
qed simp

lemma onPickupCollision_ammo: "trait_inv w \<Longrightarrow> trait_inv (onPickupCollision pl pk w)"
proof -
  assume inv: "trait_inv w"
  have "trait_inv (remove_entity pk (set_player pl (p\<lparr>arrowCount := arrowCount p + 1\<rparr>) w))"
    if "w_player w pl = Some p" "\<not> maxArrows p \<le> arrowCount p" for p
  proof -
    have "maxArrows p = 3" "0 \<le> arrowCount p" using inv that(1) unfolding trait_inv_def trait_typed_def by blast+
    then show ?thesis
      using that by (intro trait_inv_remove trait_inv_arrows [OF inv that(1)]) simp_all
  qed
  with inv show ?thesis by (simp add: onPickupCollision_def split: option.splits)
qed

subsection \<open>Properties of the pickups\<close>

text \<open>C16: Refill cycle: when a spawner's pickup is gone, the first tick at a time t1 > 0
  marks the spawner dry at t1; ticks less than ten seconds later change nothing; the first
  tick at t2 >= t1 + 10 spawns a new pickup one unit above the spawner and points the
  spawner at it.\<close>

theorem spawner_cycle:
  assumes "spawnedItemId sd = int i" "\<not> w_pickup w i" "dryTime sd = 0"
    "0 < t1" "t1 + 10 \<le> t2" "w_pos w sid = Some p"
  shows "\<exists>w1 sd1 w2 sd2. spawner_update t1 sid sd w = Ok w1 \<and> w_spawner w1 sid = Some sd1
     \<and> spawnedItemId sd1 = -1 \<and> dryTime sd1 = t1
     \<and> (\<forall>t. t - t1 < 10 \<longrightarrow> spawner_update t sid sd1 w1 = Ok w1)
     \<and> spawner_update t2 sid sd1 w1 = Ok w2 \<and> w_spawner w2 sid = Some sd2 \<and> item_exists w2 sd2
     \<and> dryTime sd2 = 0 \<and> w_pos w2 (nat (spawnedItemId sd2)) = Some (vx p, vy p + 1, vz p)"
proof -
  let ?sd1 = "sd\<lparr>dryTime := t1, spawnedItemId := -1\<rparr>"
  let ?w1 = "set_spawner sid ?sd1 w"
  have u1: "spawner_update t1 sid sd w = Ok ?w1" by (rule spawner_update_gone [OF assms(1-3)])
  have mid: "\<forall>t. t - t1 < 10 \<longrightarrow> spawner_update t sid ?sd1 ?w1 = Ok ?w1"
    by (simp add: spawner_update_dry)
  have pos: "w_pos ?w1 sid = Some p" using assms(6) by (simp add: set_spawner_def)
  obtain w2 where u2: "spawner_update t2 sid ?sd1 ?w1 = Ok w2"
    and w2: "w_spawner w2 sid = Some (?sd1\<lparr>spawnedItemId := int (w_next ?w1), dryTime := 0\<rparr>)"
      "w_pickup w2 (w_next ?w1)" "w_pos w2 (w_next ?w1) = Some (vx p, vy p + 1, vz p)"
    using assms(4,5) pos by (simp add: spawner_update_dry spawnPickup_Some Let_def send_to_all_def)
  show ?thesis
    using u1 mid u2 w2 assms(4) by (auto simp: set_spawner_def item_exists_def)
qed

definition demo_spawner_world :: world where
  "demo_spawner_world = demo_world\<lparr>w_spawner := [4 \<mapsto> \<lparr>spawnedItemId = 9, dryTime = 0\<rparr>]\<rparr>"

theorem spawner_cycle_witness:
  "\<exists>w1 sd1 w2 sd2. spawner_update 1 4 \<lparr>spawnedItemId = 9, dryTime = 0\<rparr> demo_spawner_world = Ok w1
     \<and> w_spawner w1 4 = Some sd1 \<and> spawner_update 11 4 sd1 w1 = Ok w2 \<and> w_spawner w2 4 = Some sd2
     \<and> item_exists w2 sd2"
proof -
  have "spawnedItemId \<lparr>spawnedItemId = 9, dryTime = 0\<rparr> = int 9" "\<not> w_pickup demo_spawner_world 9"
    "dryTime \<lparr>spawnedItemId = 9, dryTime = 0::real\<rparr> = 0" "(0::real) < 1" "(1::real) + 10 \<le> 11"
    "w_pos demo_spawner_world 4 = Some (1, 0, 0)"
    by (simp_all add: demo_spawner_world_def demo_world_def)
  from spawner_cycle [OF this] show ?thesis by blast
qed

text \<open>C17: dryTime 0 doubles as "not dry": a spawner whose pickup is found gone by a tick at
  time 0 is marked (-1, 0) and is never refilled by any later tick.\<close>

theorem spawner_stuck_after_zero:
  assumes "spawnedItemId sd = int i" "\<not> w_pickup w i" "dryTime sd = 0"
  shows "\<exists>w1 sd1. spawner_update 0 sid sd w = Ok w1 \<and> w_spawner w1 sid = Some sd1
     \<and> (\<forall>t w'. spawner_update t sid sd1 w' = Ok w')"
  using spawner_update_gone [OF assms, of 0 sid] by (auto simp: set_spawner_def spawner_update_dry)

theorem spawner_stuck_after_zero_witness:
  "\<exists>w1 sd1. spawner_update 0 4 \<lparr>spawnedItemId = 9, dryTime = 0\<rparr> demo_spawner_world = Ok w1
     \<and> w_spawner w1 4 = Some sd1 \<and> spawner_update 100 4 sd1 w1 = Ok w1"
proof -
  have "spawnedItemId \<lparr>spawnedItemId = 9, dryTime = 0\<rparr> = int 9" "\<not> w_pickup demo_spawner_world 9"
    "dryTime \<lparr>spawnedItemId = 9, dryTime = 0::real\<rparr> = 0"
    by (simp_all add: demo_spawner_world_def demo_world_def)
  from spawner_stuck_after_zero [OF this, of 4] show ?thesis by blast
qed

text \<open>C18: Collecting a pickup never takes a player past the arrow cap: a player with the
  trait below or at the cap stays at or below it, keeps the cap, and gains exactly one
  arrow when below the cap and the pickup still has a position, none otherwise.\<close>

theorem onPickupCollision_cap:
  assumes "w_player w pl = Some p" "arrowCount p \<le> maxArrows p" "pl \<noteq> pk"
  shows "\<exists>p'. w_player (onPickupCollision pl pk w) pl = Some p' \<and> maxArrows p' = maxArrows p
     \<and> arrowCount p' \<le> maxArrows p'
     \<and> arrowCount p' = (if arrowCount p < maxArrows p \<and> w_pos w pk \<noteq> None
                         then arrowCount p + 1 else arrowCount p)"
  using assms
  by (auto simp: onPickupCollision_def world_ops_defs split: option.splits)

theorem onPickupCollision_cap_witness:
  "\<exists>p'. w_player (onPickupCollision 1 4 (demo_world\<lparr>w_player := [1 \<mapsto> demo_player\<lparr>arrowCount := 2\<rparr>]\<rparr>)) 1
     = Some p' \<and> arrowCount p' = 3"
proof -
  let ?w = "demo_world\<lparr>w_player := [1 \<mapsto> demo_player\<lparr>arrowCount := 2\<rparr>]\<rparr>"
  have "w_player ?w 1 = Some (demo_player\<lparr>arrowCount := 2\<rparr>)"
    "arrowCount (demo_player\<lparr>arrowCount := 2\<rparr>) \<le> maxArrows (demo_player\<lparr>arrowCount := 2\<rparr>)"
    "(1::eid) \<noteq> 4"
    by (simp_all add: demo_player_def)
  from onPickupCollision_cap [OF this] show ?thesis
    by (auto simp: demo_player_def demo_world_def)
qed

text \<open>A pickup is collected at most once: of two collisions with the same pickup, one
  after the other, at most one changes the world (the first one to grant an arrow removes
  the pickup and its position).\<close>

theorem onPickupCollision_once:
  "onPickupCollision p2 pk (onPickupCollision p1 pk w) = onPickupCollision p1 pk w
   \<or> onPickupCollision p1 pk w = w"
  using onPickupCollision_taken [of p1 pk w] onPickupCollision_gone by blast

end
