(* ===== verification/Server.thy ===== *)
theory Server
  imports Roster Pickups
begin

text \<open>
  \<open>src/project/server.ts\<close>: the server's command handlers and its respawn tick.
  \<open>J.net.listen(C, handler)\<close> runs the handler on each received command with the
  sender's handle; the handlers here take the command's fields and the sender.
  \<open>J.getAllPlayers()\<close> (the connected peers) is a parameter of the game-start handler;
  \<open>spawnPositions\<close> is the Respawner list of respawn.ts.
\<close>

subsection \<open>Game start and join (lines 13-17)\<close>

fun spawn_joined :: "vec3 list \<Rightarrow> eid list \<Rightarrow> world \<Rightarrow> world js_result" where
  "spawn_joined sp [] w = Ok w"
| "spawn_joined sp (playerId # rest) w =
     (case spawnPlayer sp playerId False w of
        Raised (_, w') \<Rightarrow> Raised w'
      | Ok (_, w') \<Rightarrow> spawn_joined sp rest w')"

definition server_game_start :: "vec3 list \<Rightarrow> eid list \<Rightarrow> world \<Rightarrow> world js_result" where
  "server_game_start sp allPlayers w = spawn_joined sp allPlayers w"

definition onPlayerJoin :: "vec3 list \<Rightarrow> eid \<Rightarrow> world \<Rightarrow> world js_result" where
  "onPlayerJoin sp playerId w = spawn_joined sp [playerId] w"

subsection \<open>ArrowCommand (lines 19-31)\<close>

definition onArrowCommand :: "ray \<Rightarrow> real \<Rightarrow> eid \<Rightarrow> int \<Rightarrow> eid \<Rightarrow> world \<Rightarrow> world" where
  "onArrowCommand viewRay draw ownerId netId senderId w =
     (case w_player w senderId of
        None \<Rightarrow> w
      | Some playerTrait \<Rightarrow>
          if arrowCount playerTrait \<le> 0 then w
          else send_to_all (ArrowCommand viewRay draw ownerId netId) (Some senderId)
                 (set_player senderId (playerTrait\<lparr>arrowCount := arrowCount playerTrait - 1\<rparr>) w))"

subsection \<open>HitCommand (lines 33-49)\<close>

definition onHitCommand :: "eid \<Rightarrow> eid \<Rightarrow> vec3 \<Rightarrow> int \<Rightarrow> world \<Rightarrow> world" where
  "onHitCommand attackerId victimId position netId w =
     (let w1 = killPlayer victimId w;
          isSuicide = (attackerId = victimId);
          w2 = (case w_player w1 attackerId of
                  None \<Rightarrow> w1
                | Some attackerTrait \<Rightarrow>
                    if \<not> isSuicide
                    then set_player attackerId (attackerTrait\<lparr>kills := kills attackerTrait + 1,
                           lastKillTime := w_time w1, killStreak := killStreak attackerTrait + 1\<rparr>) w1
                    else w1)
      in send_to_all (HitCommand attackerId victimId position netId) None w2)"

subsection \<open>EnvironmentalDeathCommand (lines 51-54)\<close>

definition onEnvironmentalDeath :: "eid \<Rightarrow> string \<Rightarrow> world \<Rightarrow> world" where
  "onEnvironmentalDeath victimId reason w =
     send_to_all (EnvironmentalDeathCommand victimId reason) None (killPlayer victimId w)"

subsection \<open>The respawn tick (lines 56-72)\<close>

text \<open>The loop runs over the players listed at its start and reads each one's trait
  afresh; \<open>if (pos) J.setEntityPosition(id, pos)\<close> is \<open>set_entity_position\<close>.\<close>

fun respawn_loop :: "vec3 list \<Rightarrow> real \<Rightarrow> eid list \<Rightarrow> world \<Rightarrow> world js_result" where
  "respawn_loop sp t [] w = Ok w"
| "respawn_loop sp t (playerId # rest) w =
     (case w_player w playerId of
        None \<Rightarrow> respawn_loop sp t rest w
      | Some player \<Rightarrow>
          if \<not> w_alive w playerId \<and> 0 < respawnTime player \<and> respawnTime player \<le> t then
            (case spawnPlayer sp playerId True w of
               Raised (_, w') \<Rightarrow> Raised w'
             | Ok (pos, w') \<Rightarrow> respawn_loop sp t rest (set_entity_position playerId pos w'))
          else respawn_loop sp t rest w)"

definition server_respawn_tick :: "vec3 list \<Rightarrow> real \<Rightarrow> world \<Rightarrow> world js_result" where
  "server_respawn_tick sp t w = respawn_loop sp t (players_of w) w"

subsection \<open>Lemmas on the respawn tick\<close>

lemma respawn_loop_alive:
  "respawn_loop sp t ids w = Ok w' \<Longrightarrow> sp \<noteq> [] \<Longrightarrow>
     (\<forall>e. w_alive w e \<longrightarrow> w_alive w' e)
     \<and> (\<forall>e p. w_player w e = Some p \<longrightarrow> (\<exists>p'. w_player w' e = Some p' \<and> respawnTime p' = respawnTime p))
     \<and> (\<forall>e p. e \<in> set ids \<longrightarrow> w_player w e = Some p \<longrightarrow> 0 < respawnTime p \<longrightarrow> respawnTime p \<le> t
           \<longrightarrow> w_alive w' e)"
proof (induction ids arbitrary: w)
  case Nil
  then show ?case by auto
next
  case (Cons pid rest)
  show ?case
  proof (cases "\<exists>p. w_player w pid = Some p \<and> \<not> w_alive w pid \<and> 0 < respawnTime p \<and> respawnTime p \<le> t")
    case True
    then obtain p where p: "w_player w pid = Some p" "\<not> w_alive w pid" "0 < respawnTime p" "respawnTime p \<le> t"
      by blast
    obtain pos w1 where sp: "spawnPlayer sp pid True w = Ok (pos, w1)"
      and rest: "respawn_loop sp t rest (set_entity_position pid pos w1) = Ok w'"
      using Cons.prems(1) p by (auto split: js_result.splits prod.splits)
    let ?w2 = "set_entity_position pid pos w1"
    have al: "w_alive ?w2 = (w_alive w)(pid := True)"
      using spawnPlayer_alive [OF sp] Cons.prems(2) by (simp add: set_entity_position_def set_pos_def split: option.splits)
    have tr: "w_player w e = Some q \<Longrightarrow> \<exists>q'. w_player ?w2 e = Some q' \<and> respawnTime q' = respawnTime q" for e q
      using spawnPlayer_traits [of w e q sp pid True] sp
      by (simp add: set_entity_position_def set_pos_def split: option.splits)
    note IH = Cons.IH [OF rest Cons.prems(2)]
    show ?thesis
    proof (intro conjI allI impI)
      fix e assume "w_alive w e" then show "w_alive w' e" using IH al by auto
    next
      fix e q assume "w_player w e = Some q"
      then show "\<exists>q'. w_player w' e = Some q' \<and> respawnTime q' = respawnTime q" using IH tr by metis
    next
      fix e q assume e: "e \<in> set (pid # rest)" "w_player w e = Some q" "0 < respawnTime q" "respawnTime q \<le> t"
      show "w_alive w' e"
      proof (cases "e = pid")
        case True then show ?thesis using IH al by auto
      next
        case False
        with e tr [OF e(2)] IH show ?thesis by fastforce
      qed
    qed
  next
    case False
    then have rest: "respawn_loop sp t rest w = Ok w'"
      using Cons.prems(1) by (auto split: option.splits if_splits)
    note IH = Cons.IH [OF rest Cons.prems(2)]
    show ?thesis using IH False by fastforce
  qed
qed

subsection \<open>The trait typing invariant\<close>

lemma spawn_joined_ammo: "trait_inv w \<Longrightarrow> trait_inv (js_state (spawn_joined sp xs w))"
proof (induction xs arbitrary: w)
  case (Cons pid rest)
  have "trait_inv (snd (js_state (spawnPlayer sp pid False w)))" by (rule spawnPlayer_ammo [OF Cons.prems])
  with Cons.IH show ?case by (auto split: js_result.splits prod.splits)
qed simp

lemma onPlayerJoin_ammo: "trait_inv w \<Longrightarrow> trait_inv (js_state (onPlayerJoin sp pid w))"
  unfolding onPlayerJoin_def by (rule spawn_joined_ammo)

lemma onArrowCommand_trait_inv: "trait_inv w \<Longrightarrow> trait_inv (onArrowCommand vr d ow n s w)"
proof -
  assume inv: "trait_inv w"
  have "trait_inv (set_player s (p\<lparr>arrowCount := arrowCount p - 1\<rparr>) w)"
    if "w_player w s = Some p" "\<not> arrowCount p \<le> 0" for p
  proof -
    have "arrowCount p \<le> 3" using inv that(1) unfolding trait_inv_def trait_typed_def by blast
    then show ?thesis using that by (intro trait_inv_arrows [OF inv that(1)]) simp_all
  qed
  with inv show ?thesis by (simp add: onArrowCommand_def split: option.splits)
qed

lemma onHitCommand_ammo: "trait_inv w \<Longrightarrow> trait_inv (onHitCommand a v pos n w)"
proof -
  assume inv: "trait_inv w"
  let ?w1 = "killPlayer v w"
  have i1: "trait_inv ?w1" by (rule killPlayer_ammo [OF inv])
  have "trait_inv (set_player a (p\<lparr>kills := kills p + 1, lastKillTime := w_time ?w1,
      killStreak := killStreak p + 1\<rparr>) ?w1)" if "w_player ?w1 a = Some p" for p
    by (rule trait_inv_same_arrows [OF i1 that]) simp_all
  with i1 show ?thesis by (simp add: onHitCommand_def Let_def split: option.splits)
qed

lemma respawn_loop_ammo: "trait_inv w \<Longrightarrow> trait_inv (js_state (respawn_loop sp t xs w))"
proof (induction xs arbitrary: w)
  case (Cons pid rest)
  have i: "trait_inv (snd (js_state (spawnPlayer sp pid True w)))" by (rule spawnPlayer_ammo [OF Cons.prems])
  have "trait_inv (set_entity_position pid pos w2)" if "trait_inv w2" for pos w2
    using that by (simp add: set_entity_position_def split: option.splits)
  with i Cons show ?case by (auto split: option.splits if_splits js_result.splits prod.splits)
qed simp

subsection \<open>Fixtures\<close>

definition demo_dead_world :: world where
  "demo_dead_world = demo_world\<lparr>w_alive := (\<lambda>_. False),
     w_player := [1 \<mapsto> demo_player, 2 \<mapsto> demo_player\<lparr>respawnTime := 15\<rparr>, 3 \<mapsto> demo_player]\<rparr>"

subsection \<open>Properties of the server handlers\<close>

text \<open>C19: The server relays an ArrowCommand only for a sender with arrows: with a positive
  arrow count it takes exactly one arrow and broadcasts the command, excluding the sender,
  with the ownerId the client sent; with none left it changes nothing.\<close>

theorem onArrowCommand_ammo:
  assumes "w_player w s = Some p"
  shows "(0 < arrowCount p \<longrightarrow>
            w_player (onArrowCommand vr d ow n s w) s = Some (p\<lparr>arrowCount := arrowCount p - 1\<rparr>)
            \<and> w_sent (onArrowCommand vr d ow n s w) = w_sent w @ [(ArrowCommand vr d ow n, Some s)])
       \<and> (arrowCount p \<le> 0 \<longrightarrow> onArrowCommand vr d ow n s w = w)"
  using assms by (simp add: onArrowCommand_def world_ops_defs)

theorem onArrowCommand_ammo_witness:
  "w_player (onArrowCommand ((0, 2, 0), (1, 0, 0)) 1 2 7 1 demo_world) 1
     = Some (demo_player\<lparr>arrowCount := 2\<rparr>)"
proof -
  have "w_player demo_world 1 = Some demo_player" by (simp add: demo_world_def)
  from onArrowCommand_ammo [OF this, of "((0, 2, 0), (1, 0, 0))" 1 2 7] show ?thesis
    by (simp add: demo_player_def)
qed

text \<open>C20: A HitCommand kills the victim (not alive, one more death, respawn five seconds
  from now, streak reset) and, when the attacker is another player with the trait, credits
  the attacker with one kill, one more streak and the kill time; the command is then
  broadcast to everyone.\<close>

theorem onHitCommand_effect:
  assumes "w_player w v = Some pv" "w_player w a = Some pa" "a \<noteq> v"
  shows "\<not> w_alive (onHitCommand a v pos n w) v
    \<and> w_player (onHitCommand a v pos n w) v
        = Some (pv\<lparr>deathCount := deathCount pv + 1, respawnTime := w_time w + 5, killStreak := 0\<rparr>)
    \<and> w_player (onHitCommand a v pos n w) a
        = Some (pa\<lparr>kills := kills pa + 1, lastKillTime := w_time w, killStreak := killStreak pa + 1\<rparr>)
    \<and> w_sent (onHitCommand a v pos n w) = w_sent w @ [(HitCommand a v pos n, None)]"
  using assms by (simp add: onHitCommand_def killPlayer_def world_ops_defs Let_def)

theorem onHitCommand_effect_witness:
  "w_player (onHitCommand 1 2 (3, 4, 0) 7 demo_world) 1
     = Some (demo_player\<lparr>kills := 1, lastKillTime := 10, killStreak := 1\<rparr>)"
proof -
  have "w_player demo_world 2 = Some demo_player" "w_player demo_world 1 = Some demo_player"
    "(1::eid) \<noteq> 2"
    by (simp_all add: demo_world_def)
  from onHitCommand_effect [OF this, of "(3, 4, 0)" 7] show ?thesis
    by (simp add: demo_player_def demo_world_def)
qed

text \<open>C21: A completed respawn tick with spawn points revives every player that was dead
  with a respawn time in (0, t], and kills no one.\<close>

theorem server_respawn_tick_revives:
  assumes "world_wf w" "server_respawn_tick sp t w = Ok w'" "sp \<noteq> []"
  shows "(\<forall>e. w_alive w e \<longrightarrow> w_alive w' e)
    \<and> (\<forall>e p. w_player w e = Some p \<longrightarrow> 0 < respawnTime p \<longrightarrow> respawnTime p \<le> t \<longrightarrow> w_alive w' e)"
proof -
  have "e \<in> set (players_of w)" if "w_player w e = Some p" for e p
    using assms(1) that by (auto simp: world_wf_def players_of_def)
  with respawn_loop_alive [OF assms(2) [unfolded server_respawn_tick_def] assms(3)]
  show ?thesis by blast
qed

theorem server_respawn_tick_revives_witness:
  "\<exists>w'. server_respawn_tick [(0, 0, 10)] 20 demo_dead_world = Ok w' \<and> w_alive w' 2"
proof -
  have wf: "world_wf demo_dead_world"
    by (simp add: world_wf_def demo_dead_world_def demo_world_def)
  have "\<exists>w'. server_respawn_tick [(0, 0, 10)] 20 demo_dead_world = Ok w'"
    by (simp add: server_respawn_tick_def demo_dead_world_def demo_world_def demo_player_def
        players_of_def spawnPlayer_def init_player_trait_def living_others_def choose_spawn_def
        min_dist_def world_ops_defs set_entity_position_def)
  then obtain w' where r: "server_respawn_tick [(0, 0, 10)] 20 demo_dead_world = Ok w'" by blast
  have "w_player demo_dead_world 2 = Some (demo_player\<lparr>respawnTime := 15\<rparr>)"
    by (simp add: demo_dead_world_def)
  with server_respawn_tick_revives [OF wf r] have "w_alive w' 2" by simp
  with r show ?thesis by blast
qed

end
