(* ===== verification/ClientArrow.thy ===== *)
theory ClientArrow
  imports Host "HOL-Library.AList"
begin

text \<open>
  \<open>src/project/client/arrow.ts\<close>: every client simulates every arrow. An arrow is two
  props: an invisible collider sphere the physics engine moves (key of the map
  \<open>arrows\<close>) and the visible arrow model placed behind it each tick. The record
  \<open>client\<close> is the client's own state beside its copy of the world: the module
  variables \<open>arrows\<close> (a \<open>Map\<close>, an association list in insertion order:
  \<open>AList.update\<close> is \<open>Map.set\<close>, \<open>AList.delete\<close> is \<open>Map.delete\<close>) and
  \<open>arrowsHit\<close> (a \<open>Set\<close>), the ArrowCollider traits, the velocities the client sets,
  the facing of each arrow model and the commands sent to the server with
  \<open>J.net.send\<close>. \<open>J.setEntityQuaternion(arrow, quatFromDirection(d))\<close> is recorded as
  the facing direction \<open>d\<close>. Sounds, particles, scale, glow, tint and visibility are
  presentation and not modelled. \<open>arrowBounds.z\<close> of the arrow asset is a parameter.
\<close>

subsection \<open>State (lines 11-28)\<close>

record arrow_entry =
  arrow :: eid
  draw :: real
  ownerId :: eid
  netId :: int
  stuckPos :: vec3
  stuckDir :: vec3
  stuckTime :: real
  lastEffectTime :: real
  spawnTime :: real

text \<open>The ArrowCollider trait (traits.ts lines 29-37); its \<open>ownerId\<close> is
  \<open>colliderOwnerId\<close> here, the entry's field having the name.\<close>

record arrow_collider =
  wallBounce :: int
  colliderOwnerId :: eid

record client =
  arrows :: "(eid \<times> arrow_entry) list"
  arrowsHit :: "eid list"
  c_collider :: "eid \<Rightarrow> arrow_collider option"
  c_vel :: "eid \<Rightarrow> vec3 option"
  c_facing :: "eid \<Rightarrow> vec3 option"
  c_to_server :: "net_msg list"
  c_local :: eid

type_synonym cstate = "client \<times> world"

definition arrowSize :: real where "arrowSize = 0.2"

definition arrowOffset :: "real \<Rightarrow> real" where
  "arrowOffset arrowBoundsZ = (arrowBoundsZ / 2) * arrowSize"

text \<open>\<open>J.removeEntity\<close> on the client: the entity leaves the store with its
  client-side trait, velocity and facing.\<close>

definition client_remove :: "eid \<Rightarrow> cstate \<Rightarrow> cstate" where
  "client_remove e s = (case s of (c, w) \<Rightarrow>
     (c\<lparr>c_collider := (c_collider c)(e := None), c_vel := (c_vel c)(e := None),
        c_facing := (c_facing c)(e := None)\<rparr>, remove_entity e w))"

text \<open>\<open>isInTutorialArea\<close> (player.ts lines 112-115); a missing position is \<open>null\<close>.\<close>

definition isInTutorialArea :: "eid \<Rightarrow> world \<Rightarrow> bool" where
  "isInTutorialArea e w = (case w_pos w e of None \<Rightarrow> False | Some pos \<Rightarrow> 25 < vy pos)"

subsection \<open>deleteArrow (lines 30-40)\<close>

definition drop_arrow :: "eid \<Rightarrow> client \<Rightarrow> client" where
  "drop_arrow coll c = c\<lparr>arrows := AList.delete coll (arrows c), arrowsHit := removeAll coll (arrowsHit c)\<rparr>"

fun deleteArrow_loop :: "int \<Rightarrow> (eid \<times> arrow_entry) list \<Rightarrow> cstate \<Rightarrow> cstate" where
  "deleteArrow_loop n [] s = s"
| "deleteArrow_loop n ((coll, entry) # rest) s =
     (if netId entry = n then
        (case client_remove (arrow entry) (client_remove coll s) of (c, w) \<Rightarrow> (drop_arrow coll c, w))
      else deleteArrow_loop n rest s)"

definition deleteArrow :: "int \<Rightarrow> cstate \<Rightarrow> cstate" where
  "deleteArrow n s = deleteArrow_loop n (arrows (fst s)) s"

subsection \<open>updateArrowTransform and spawnArrow (lines 42-98)\<close>

definition updateArrowTransform :: "real \<Rightarrow> arrow_entry \<Rightarrow> vec3 \<Rightarrow> vec3 \<Rightarrow> real \<Rightarrow> cstate \<Rightarrow> cstate" where
  "updateArrowTransform arrowBoundsZ entry pos dir wobble s = (case s of (c, w) \<Rightarrow>
     (let wobbledDir = vnormalize (vx dir + wobble, vy dir + wobble, vz dir);
          offset = vscale wobbledDir (arrowOffset arrowBoundsZ);
          arrowPos = vsub pos offset
      in (c\<lparr>c_facing := (c_facing c)(arrow entry \<mapsto> vscale wobbledDir (-1))\<rparr>,
          set_pos (arrow entry) arrowPos w)))"

definition arrow_speed :: "real \<Rightarrow> real" where
  "arrow_speed d = 50 * (0.5 + d)"

definition spawnArrow :: "real \<Rightarrow> ray \<Rightarrow> real \<Rightarrow> eid \<Rightarrow> int \<Rightarrow> cstate \<Rightarrow> cstate" where
  "spawnArrow arrowBoundsZ viewRay d owner n s = (case s of (c, w) \<Rightarrow>
     (let spawnPos = vadd (fst viewRay) (snd viewRay);
          vel = vscale (snd viewRay) (arrow_speed d)
      in case spawn_entity w of
           (coll, w1) \<Rightarrow>
             (let w2 = set_pos coll spawnPos w1;
                  c1 = c\<lparr>c_vel := (c_vel c)(coll \<mapsto> vel),
                         c_collider := (c_collider c)(coll \<mapsto> \<lparr>wallBounce = 0, colliderOwnerId = owner\<rparr>)\<rparr>
              in case spawn_entity w2 of
                   (arr, w3) \<Rightarrow>
                     (let currentTime = w_time w3;
                          entry = \<lparr>arrow = arr, draw = d, ownerId = owner, netId = n,
                                   stuckPos = (0, 0, 0), stuckDir = (0, 0, 1), stuckTime = 0,
                                   lastEffectTime = currentTime + 0.1, spawnTime = currentTime\<rparr>
                      in updateArrowTransform arrowBoundsZ entry spawnPos (snd viewRay) 0
                           (c1\<lparr>arrows := AList.update coll entry (arrows c1)\<rparr>, w3)))))"

subsection \<open>Wall collisions (lines 100-138)\<close>

definition onArrowBlockCollision :: "eid \<Rightarrow> cstate \<Rightarrow> cstate" where
  "onArrowBlockCollision entityId s = (case s of (c, w) \<Rightarrow>
     (case c_collider c entityId of
        None \<Rightarrow> (c, w)
      | Some trait \<Rightarrow>
          (let trait' = trait\<lparr>wallBounce := wallBounce trait + 1\<rparr>;
               c1 = c\<lparr>c_collider := (c_collider c)(entityId \<mapsto> trait')\<rparr>
           in if 4 \<le> wallBounce trait' then
                (let c2 = (case map_of (arrows c1) entityId of
                             None \<Rightarrow> c1
                           | Some entry \<Rightarrow>
                               c1\<lparr>arrows := AList.update entityId
                                   (entry\<lparr>stuckPos := (case w_pos w entityId of
                                                         None \<Rightarrow> stuckPos entry | Some p \<Rightarrow> p),
                                          stuckTime := w_time w\<rparr>) (arrows c1)\<rparr>)
                 in client_remove entityId (c2, w))
              else (c1, w))))"

subsection \<open>Hits on players (lines 140-197)\<close>

text \<open>\<open>!J.getPlayerUsername(id)\<close>: bots have no username; the empty name is falsy too.\<close>

definition is_bot :: "world \<Rightarrow> eid \<Rightarrow> bool" where
  "is_bot w e \<longleftrightarrow> w_username w e = None \<or> w_username w e = Some []"

definition onArrowPlayerCollision :: "eid \<Rightarrow> eid \<Rightarrow> cstate \<Rightarrow> cstate" where
  "onArrowPlayerCollision playerId arrowId s = (case s of (c, w) \<Rightarrow>
     (if arrowId \<in> set (arrowsHit c) then (c, w) else
      case c_collider c arrowId of
        None \<Rightarrow> (c, w)
      | Some arrowTrait \<Rightarrow>
          if \<not> w_alive w playerId then (c, w) else
          (let localPlayerId = c_local c;
               shouldProcessHit = (colliderOwnerId arrowTrait = localPlayerId
                                   \<or> (playerId = localPlayerId \<and> is_bot w (colliderOwnerId arrowTrait)))
           in if \<not> shouldProcessHit then (c, w) else
              case map_of (arrows c) arrowId of
                None \<Rightarrow> (c, w)
              | Some entry \<Rightarrow>
                  (case w_pos w arrowId of
                     None \<Rightarrow> (c, w)
                   | Some arrowPos \<Rightarrow>
                       (let flightTime = w_time w - spawnTime entry;
                            isSuicide = (colliderOwnerId arrowTrait = playerId)
                        in if isSuicide \<and> flightTime < 0.03 then (c, w) else
                           (let c1 = c\<lparr>arrowsHit := set_add arrowId (arrowsHit c)\<rparr>
                            in if isInTutorialArea localPlayerId w then (c1, w)
                               else (c1\<lparr>c_to_server := c_to_server c1 @
                                        [HitCommand (colliderOwnerId arrowTrait) playerId arrowPos (netId entry)]\<rparr>,
                                     w)))))))"

subsection \<open>The arrow tick (lines 199-258)\<close>

text \<open>One arrow of the first loop: a stuck arrow past ten seconds is queued for deletion,
  otherwise it wobbles at its stuck position; a flying arrow follows its collider, its
  \<open>stuckDir\<close> overwritten with the normalised velocity (the output argument of
  \<open>vec3.normalize\<close>) and its trail time renewed every 0.05 s; an arrow below
  \<open>y = -30\<close> is queued for deletion. The first loop runs over the keys present when it
  starts; it changes entries but no keys.\<close>

definition arrow_place :: "real \<Rightarrow> eid \<Rightarrow> arrow_entry \<Rightarrow> vec3 \<Rightarrow> vec3 \<Rightarrow> real \<Rightarrow>
                           eid list \<Rightarrow> cstate \<Rightarrow> eid list \<times> cstate" where
  "arrow_place arrowBoundsZ coll entry pos dir wobble toDelete s =
     (if vy pos < -30 then (toDelete @ [coll], s)
      else (toDelete, updateArrowTransform arrowBoundsZ entry pos dir wobble s))"

definition arrow_tick_step :: "real \<Rightarrow> real \<Rightarrow> eid \<Rightarrow> eid list \<Rightarrow> cstate \<Rightarrow> eid list \<times> cstate" where
  "arrow_tick_step arrowBoundsZ t coll toDelete s = (case s of (c, w) \<Rightarrow>
     (case map_of (arrows c) coll of
        None \<Rightarrow> (toDelete, (c, w))
      | Some entry \<Rightarrow>
          if 0 < stuckTime entry then
            (let elapsed = t - stuckTime entry
             in if 10 \<le> elapsed then (toDelete @ [coll], (c, w))
                else arrow_place arrowBoundsZ coll entry (stuckPos entry) (stuckDir entry)
                       (sin (40 * elapsed) * exp (-3 * elapsed) * 0.15) toDelete (c, w))
          else
            (case (w_pos w coll, c_vel c coll) of
               (Some collPos, Some vel) \<Rightarrow>
                 (let dir = vnormalize vel;
                      entry1 = entry\<lparr>stuckDir := dir\<rparr>;
                      entry2 = (if 0.05 \<le> t - lastEffectTime entry1
                                then entry1\<lparr>lastEffectTime := t\<rparr> else entry1);
                      c1 = c\<lparr>arrows := AList.update coll entry2 (arrows c)\<rparr>
                  in arrow_place arrowBoundsZ coll entry2 collPos dir 0 toDelete (c1, w))
             | _ \<Rightarrow> (toDelete, (c, w)))))"

fun arrow_tick_loop :: "real \<Rightarrow> real \<Rightarrow> eid list \<Rightarrow> eid list \<Rightarrow> cstate \<Rightarrow> eid list \<times> cstate" where
  "arrow_tick_loop arrowBoundsZ t [] toDelete s = (toDelete, s)"
| "arrow_tick_loop arrowBoundsZ t (coll # rest) toDelete s =
     (case arrow_tick_step arrowBoundsZ t coll toDelete s of
        (toDelete', s') \<Rightarrow> arrow_tick_loop arrowBoundsZ t rest toDelete' s')"

text \<open>The second loop removes the arrow model and the map and hit-set entries; the
  collider prop is not removed.\<close>

fun arrow_delete_loop :: "eid list \<Rightarrow> cstate \<Rightarrow> cstate" where
  "arrow_delete_loop [] s = s"
| "arrow_delete_loop (coll # rest) s =
     (case map_of (arrows (fst s)) coll of
        None \<Rightarrow> arrow_delete_loop rest s
      | Some entry \<Rightarrow>
          (case client_remove (arrow entry) s of
             (c1, w1) \<Rightarrow> arrow_delete_loop rest (drop_arrow coll c1, w1)))"

definition arrow_tick :: "real \<Rightarrow> cstate \<Rightarrow> cstate" where
  "arrow_tick arrowBoundsZ s =
     (case arrow_tick_loop arrowBoundsZ (w_time (snd s)) (map fst (arrows (fst s))) [] s of
        (toDelete, s') \<Rightarrow> arrow_delete_loop toDelete s')"

subsection \<open>Listeners (lines 260-278)\<close>

text \<open>A relayed ArrowCommand spawns the arrow; a HitCommand deletes the arrow with the
  command's \<open>netId\<close> (\<open>handlePlayerDeath\<close> only plays a sound, emits particles and
  aims the local victim's camera at the killer); RespawnCommand only plays a sound.\<close>

definition onArrowCommandClient :: "real \<Rightarrow> ray \<Rightarrow> real \<Rightarrow> eid \<Rightarrow> int \<Rightarrow> cstate \<Rightarrow> cstate" where
  "onArrowCommandClient arrowBoundsZ viewRay d owner n s = spawnArrow arrowBoundsZ viewRay d owner n s"

definition onHitCommandClient :: "int \<Rightarrow> cstate \<Rightarrow> cstate" where
  "onHitCommandClient n s = deleteArrow n s"

subsection \<open>The arrow-map invariant\<close>

text \<open>The keys of \<open>arrows\<close> are distinct colliders allocated before the next handle,
  and the hit set is a duplicate-free subset of the keys.\<close>

definition akeys :: "client \<Rightarrow> eid list" where
  "akeys c = map fst (arrows c)"

definition arrow_inv :: "cstate \<Rightarrow> bool" where
  "arrow_inv s \<longleftrightarrow> distinct (akeys (fst s)) \<and> set (arrowsHit (fst s)) \<subseteq> set (akeys (fst s))
     \<and> distinct (arrowsHit (fst s)) \<and> (\<forall>k \<in> set (akeys (fst s)). k < w_next (snd s))"

lemma client_remove_keeps [simp]:
  "arrows (fst (client_remove e s)) = arrows (fst s)"
  "arrowsHit (fst (client_remove e s)) = arrowsHit (fst s)"
  "c_to_server (fst (client_remove e s)) = c_to_server (fst s)"
  "c_local (fst (client_remove e s)) = c_local (fst s)"
  "w_next (snd (client_remove e s)) = w_next (snd s)"
  "w_time (snd (client_remove e s)) = w_time (snd s)"
  by (simp_all add: client_remove_def remove_entity_def split: prod.splits)

lemma updateArrowTransform_keeps [simp]:
  "arrows (fst (updateArrowTransform bz entry pos dir wb s)) = arrows (fst s)"
  "arrowsHit (fst (updateArrowTransform bz entry pos dir wb s)) = arrowsHit (fst s)"
  "c_to_server (fst (updateArrowTransform bz entry pos dir wb s)) = c_to_server (fst s)"
  "c_collider (fst (updateArrowTransform bz entry pos dir wb s)) = c_collider (fst s)"
  "c_vel (fst (updateArrowTransform bz entry pos dir wb s)) = c_vel (fst s)"
  "w_entities (snd (updateArrowTransform bz entry pos dir wb s)) = w_entities (snd s)"
  "w_next (snd (updateArrowTransform bz entry pos dir wb s)) = w_next (snd s)"
  by (simp_all add: updateArrowTransform_def set_pos_def Let_def split: prod.splits)

lemma map_fst_delete: "map fst (AList.delete k al) = removeAll k (map fst al)"
  by (induction al) auto

lemma arrow_inv_cong:
  "arrow_inv (c, w) \<Longrightarrow> arrows c' = arrows c \<Longrightarrow> arrowsHit c' = arrowsHit c
     \<Longrightarrow> w_next w \<le> w_next w' \<Longrightarrow> arrow_inv (c', w')"
  unfolding arrow_inv_def akeys_def by fastforce

lemma arrow_inv_update:
  "arrow_inv (c, w) \<Longrightarrow> k \<in> set (akeys c) \<Longrightarrow>
     arrow_inv (c\<lparr>arrows := AList.update k e (arrows c)\<rparr>, w)"
  unfolding arrow_inv_def akeys_def by (simp add: AList.update_keys)

lemma arrow_inv_drop: "arrow_inv (c, w) \<Longrightarrow> arrow_inv (drop_arrow k c, w)"
  unfolding arrow_inv_def akeys_def drop_arrow_def
  by (auto simp: map_fst_delete distinct_removeAll)

lemma map_of_key: "map_of (arrows c) k = Some e \<Longrightarrow> k \<in> set (akeys c)"
  unfolding akeys_def by (auto dest: map_of_SomeD intro: rev_image_eqI)

lemma updateArrowTransform_inv: "arrow_inv s \<Longrightarrow> arrow_inv (updateArrowTransform bz entry pos dir wb s)"
  by (cases s; cases "updateArrowTransform bz entry pos dir wb s")
    (metis arrow_inv_cong fst_conv order_refl snd_conv updateArrowTransform_keeps(1,2,7))

lemma client_remove_inv: "arrow_inv s \<Longrightarrow> arrow_inv (client_remove e s)"
  by (cases s; cases "client_remove e s")
    (metis arrow_inv_cong client_remove_keeps(1,2,5) fst_conv order_refl snd_conv)

lemma spawnArrow_inv:
  assumes inv: "arrow_inv (c, w)"
  shows "arrow_inv (spawnArrow bz vr d owner n (c, w))"
proof -
  let ?k = "w_next w"
  obtain E P C2 W3 where eq: "spawnArrow bz vr d owner n (c, w) = updateArrowTransform bz E P (snd vr) 0 (C2, W3)"
    and C2: "arrows C2 = AList.update ?k E (arrows c)" "arrowsHit C2 = arrowsHit c"
    and W3: "w_next W3 = Suc (Suc ?k)"
    by (auto simp: spawnArrow_def spawn_entity_def set_pos_def Let_def)
  have fresh: "?k \<notin> set (akeys c)" using inv by (auto simp: arrow_inv_def)
  have "arrow_inv (C2, W3)"
    using inv fresh C2 W3 by (auto simp: arrow_inv_def akeys_def AList.update_keys)
  then show ?thesis unfolding eq by (rule updateArrowTransform_inv)
qed

lemma onArrowBlockCollision_inv:
  assumes inv: "arrow_inv (c, w)"
  shows "arrow_inv (onArrowBlockCollision e (c, w))"
proof (cases "c_collider c e")
  case None
  with inv show ?thesis by (simp add: onArrowBlockCollision_def)
next
  case (Some tr)
  let ?c1 = "c\<lparr>c_collider := (c_collider c)(e \<mapsto> tr\<lparr>wallBounce := wallBounce tr + 1\<rparr>)\<rparr>"
  have i1: "arrow_inv (?c1, w)" using inv by (rule arrow_inv_cong) simp_all
  have "arrow_inv (case map_of (arrows ?c1) e of None \<Rightarrow> ?c1
      | Some entry \<Rightarrow> ?c1\<lparr>arrows := AList.update e (f entry) (arrows ?c1)\<rparr>, w)" for f
    using i1 arrow_inv_update [OF i1] map_of_key [of ?c1 e] by (auto split: option.splits)
  then show ?thesis using Some i1
    by (auto simp: onArrowBlockCollision_def Let_def intro: client_remove_inv)
qed

lemma onArrowPlayerCollision_inv:
  assumes inv: "arrow_inv (c, w)"
  shows "arrow_inv (onArrowPlayerCollision p a (c, w))"
proof -
  have "arrow_inv (c\<lparr>arrowsHit := set_add a (arrowsHit c), c_to_server := m\<rparr>, w)"
    "arrow_inv (c\<lparr>arrowsHit := set_add a (arrowsHit c)\<rparr>, w)"
    if "map_of (arrows c) a = Some e" for e m
    using inv map_of_key [OF that] by (auto simp: arrow_inv_def akeys_def)
  then show ?thesis using inv
    by (auto simp: onArrowPlayerCollision_def Let_def split: option.splits)
qed

lemma deleteArrow_loop_inv: "arrow_inv s \<Longrightarrow> arrow_inv (deleteArrow_loop n xs s)"
proof (induction xs arbitrary: s)
  case (Cons p rest)
  obtain coll entry where p: "p = (coll, entry)" by (cases p)
  have "arrow_inv (client_remove (arrow entry) (client_remove coll s))"
    using Cons.prems by (intro client_remove_inv)
  then show ?case using Cons p
    by (auto simp: arrow_inv_drop split: prod.splits)
qed simp

lemma arrow_place_inv: "arrow_inv s \<Longrightarrow> arrow_inv (snd (arrow_place bz k e pos dir wb del s))"
  by (simp add: arrow_place_def updateArrowTransform_inv)

lemma arrow_tick_step_inv:
  assumes inv: "arrow_inv (c, w)"
  shows "arrow_inv (snd (arrow_tick_step bz t coll del (c, w)))"
proof (cases "map_of (arrows c) coll")
  case None
  with inv show ?thesis by (simp add: arrow_tick_step_def)
next
  case (Some entry)
  have "arrow_inv (c\<lparr>arrows := AList.update coll e (arrows c)\<rparr>, w)" for e
    using arrow_inv_update [OF inv map_of_key [OF Some]] .
  then show ?thesis using Some inv
    by (auto simp: arrow_tick_step_def Let_def intro: arrow_place_inv split: option.splits)
qed

lemma arrow_tick_loop_inv: "arrow_inv s \<Longrightarrow> arrow_inv (snd (arrow_tick_loop bz t ks del s))"
proof (induction ks arbitrary: del s)
  case (Cons k rest)
  obtain del' s' where st: "arrow_tick_step bz t k del s = (del', s')"
    by (cases "arrow_tick_step bz t k del s")
  have "arrow_inv s'" using arrow_tick_step_inv [of "fst s" "snd s" bz t k del] Cons.prems st by simp
  with Cons.IH [of s' del'] st show ?case by simp
qed simp

lemma arrow_delete_loop_inv: "arrow_inv s \<Longrightarrow> arrow_inv (arrow_delete_loop ks s)"
proof (induction ks arbitrary: s)
  case (Cons k rest)
  show ?case
  proof (cases "map_of (arrows (fst s)) k")
    case None
    with Cons show ?thesis by simp
  next
    case (Some e)
    obtain c1 w1 where cr: "client_remove (arrow e) s = (c1, w1)" by (cases "client_remove (arrow e) s")
    have "arrow_inv (c1, w1)" using client_remove_inv [OF Cons.prems, of "arrow e"] cr by simp
    then have "arrow_inv (drop_arrow k c1, w1)" by (rule arrow_inv_drop)
    then show ?thesis using Cons.IH Some cr by simp
  qed
qed simp

lemma arrow_tick_inv: "arrow_inv s \<Longrightarrow> arrow_inv (arrow_tick bz s)"
  using arrow_tick_loop_inv [of s bz "w_time (snd s)" "map fst (arrows (fst s))" "[]"]
  by (auto simp: arrow_tick_def intro: arrow_delete_loop_inv split: prod.splits)

lemma deleteArrow_inv: "arrow_inv s \<Longrightarrow> arrow_inv (deleteArrow n s)"
  by (simp add: deleteArrow_def deleteArrow_loop_inv)

subsection \<open>The client's arrow events\<close>

text \<open>What can happen to a client's arrows: an arrow is spawned (a relayed ArrowCommand,
  or the local shot of player.ts), a collider touches a wall or a player, a tick runs, a
  relayed HitCommand arrives, or the physics engine moves bodies and advances the clock.\<close>

datatype arrow_event =
    ArrowSpawned ray real eid int
  | WallHit eid
  | PlayerHit eid eid
  | ArrowTick
  | HitRelayed int
  | Physics "eid \<Rightarrow> vec3 option" "eid \<Rightarrow> vec3 option" real

fun arrow_step :: "real \<Rightarrow> arrow_event \<Rightarrow> cstate \<Rightarrow> cstate" where
  "arrow_step bz (ArrowSpawned vr d owner n) s = spawnArrow bz vr d owner n s"
| "arrow_step bz (WallHit e) s = onArrowBlockCollision e s"
| "arrow_step bz (PlayerHit p a) s = onArrowPlayerCollision p a s"
| "arrow_step bz ArrowTick s = arrow_tick bz s"
| "arrow_step bz (HitRelayed n) s = onHitCommandClient n s"
| "arrow_step bz (Physics pos vel t) s =
     (case s of (c, w) \<Rightarrow> (c\<lparr>c_vel := vel\<rparr>, w\<lparr>w_pos := pos, w_time := t\<rparr>))"

inductive arrow_reach :: "real \<Rightarrow> cstate \<Rightarrow> bool" for bz :: real where
  start: "arrows c = [] \<Longrightarrow> arrowsHit c = [] \<Longrightarrow> arrow_reach bz (c, w)"
| step: "arrow_reach bz s \<Longrightarrow> arrow_reach bz (arrow_step bz e s)"

lemma arrow_step_inv: "arrow_inv s \<Longrightarrow> arrow_inv (arrow_step bz e s)"
proof (cases e)
  case (Physics pos vel t)
  assume "arrow_inv s"
  then show ?thesis using Physics by (cases s) (auto intro: arrow_inv_cong)
qed (cases s; auto simp: onHitCommandClient_def intro: spawnArrow_inv onArrowBlockCollision_inv
       onArrowPlayerCollision_inv arrow_tick_inv deleteArrow_inv)+

definition demo_client :: client where
  "demo_client = \<lparr>arrows = [], arrowsHit = [], c_collider = Map.empty, c_vel = Map.empty,
     c_facing = Map.empty, c_to_server = [], c_local = 2\<rparr>"

lemma onArrowPlayerCollision_hit: "a \<in> set (arrowsHit c) \<Longrightarrow> onArrowPlayerCollision p a (c, w) = (c, w)"
  by (simp add: onArrowPlayerCollision_def)

lemma onArrowPlayerCollision_cases:
  "onArrowPlayerCollision p a (c, w) = (c, w)
   \<or> (snd (onArrowPlayerCollision p a (c, w)) = w
      \<and> a \<in> set (arrowsHit (fst (onArrowPlayerCollision p a (c, w))))
      \<and> length (c_to_server (fst (onArrowPlayerCollision p a (c, w)))) \<le> length (c_to_server c) + 1)"
  by (auto simp: onArrowPlayerCollision_def Let_def split: option.splits)

lemma collisions_after_hit:
  "a \<in> set (arrowsHit c) \<Longrightarrow> foldl (\<lambda>s p. onArrowPlayerCollision p a s) (c, w) ps = (c, w)"
  by (induction ps) (simp_all add: onArrowPlayerCollision_hit)

subsection \<open>Properties of the client's arrows\<close>

text \<open>C22: In every state a client's arrow handlers can reach, the arrow map has distinct
  collider keys, all allocated before the next handle, and the hit set is a duplicate-free
  subset of the keys.\<close>

theorem arrow_reach_inv: "arrow_reach bz s \<Longrightarrow> arrow_inv s"
proof (induction rule: arrow_reach.induct)
  case (start c w)
  then show ?case by (simp add: arrow_inv_def akeys_def)
next
  case (step s e)
  from step.IH show ?case by (rule arrow_step_inv)
qed

theorem arrow_reach_inv_witness:
  "arrow_inv (arrow_step 1 ArrowTick (arrow_step 1 (ArrowSpawned ((0, 2, 0), (1, 0, 0)) 1 1 7)
     (demo_client, demo_world)))"
  by (rule arrow_reach_inv [OF arrow_reach.step [OF arrow_reach.step [OF arrow_reach.start]]])
    (simp_all add: demo_client_def)

text \<open>C23: However many collisions a client sees between players and one arrow, it sends
  at most one HitCommand for that arrow.\<close>

theorem arrow_hit_reported_once:
  "length (c_to_server (fst (foldl (\<lambda>s p. onArrowPlayerCollision p a s) (c, w) ps)))
     \<le> length (c_to_server c) + 1"
proof (induction ps arbitrary: c w)
  case Nil
  then show ?case by simp
next
  case (Cons p ps)
  obtain c1 w1 where r: "onArrowPlayerCollision p a (c, w) = (c1, w1)"
    by (cases "onArrowPlayerCollision p a (c, w)")
  from onArrowPlayerCollision_cases [of p a c w] show ?case
  proof
    assume "onArrowPlayerCollision p a (c, w) = (c, w)"
    with Cons.IH [of c w] show ?thesis by simp
  next
    assume "snd (onArrowPlayerCollision p a (c, w)) = w
      \<and> a \<in> set (arrowsHit (fst (onArrowPlayerCollision p a (c, w))))
      \<and> length (c_to_server (fst (onArrowPlayerCollision p a (c, w)))) \<le> length (c_to_server c) + 1"
    with r collisions_after_hit [of a c1 w1 ps] show ?thesis by simp
  qed
qed

text \<open>A client reports a hit only if it owns the arrow or is the victim: an arrow
  whose owner is not the client's local player hitting another non-local entity sends
  nothing. Bots are never a client's local player, so a bot's arrow hitting another bot is
  reported by no client and never kills it.\<close>

theorem onArrowPlayerCollision_remote:
  assumes "c_collider c a = Some tr" "colliderOwnerId tr \<noteq> c_local c" "p \<noteq> c_local c"
  shows "onArrowPlayerCollision p a (c, w) = (c, w)"
  using assms by (simp add: onArrowPlayerCollision_def Let_def)

theorem onArrowPlayerCollision_remote_witness:
  "onArrowPlayerCollision 3 8 (demo_client\<lparr>c_collider := [8 \<mapsto> \<lparr>wallBounce = 0, colliderOwnerId = 1\<rparr>]\<rparr>,
     demo_world) = (demo_client\<lparr>c_collider := [8 \<mapsto> \<lparr>wallBounce = 0, colliderOwnerId = 1\<rparr>]\<rparr>, demo_world)"
proof (rule onArrowPlayerCollision_remote)
  show "c_collider (demo_client\<lparr>c_collider := [8 \<mapsto> \<lparr>wallBounce = 0, colliderOwnerId = 1\<rparr>]\<rparr>) 8
      = Some \<lparr>wallBounce = 0, colliderOwnerId = 1\<rparr>" by simp
qed (simp_all add: demo_client_def)

text \<open>C25: When a flying arrow's collider falls below y = -30 the tick deletes the arrow's
  entry and its model but not the collider: the invisible collider prop stays in the store
  with its ArrowCollider trait.\<close>

theorem arrow_tick_keeps_fallen_collider:
  assumes "arrows c = [(coll, e)]" "stuckTime e \<le> 0" "w_pos w coll = Some p" "vy p < -30"
    "c_vel c coll = Some v" "arrow e \<noteq> coll"
  shows "arrows (fst (arrow_tick bz (c, w))) = []
    \<and> arrow e \<notin> set (w_entities (snd (arrow_tick bz (c, w))))
    \<and> w_entities (snd (arrow_tick bz (c, w))) = removeAll (arrow e) (w_entities w)
    \<and> c_collider (fst (arrow_tick bz (c, w))) coll = c_collider c coll"
  using assms
  by (simp add: arrow_tick_def arrow_tick_step_def arrow_place_def client_remove_def drop_arrow_def
      remove_entity_def Let_def)

theorem arrow_tick_keeps_fallen_collider_witness:
  "c_collider (fst (arrow_tick 1 (demo_client\<lparr>arrows := [(6, \<lparr>arrow = 7, draw = 1, ownerId = 2,
       netId = 5, stuckPos = (0, 0, 0), stuckDir = (0, 0, 1), stuckTime = 0, lastEffectTime = 0,
       spawnTime = 0\<rparr>)], c_vel := [6 \<mapsto> (0, -1, 0)],
       c_collider := [6 \<mapsto> \<lparr>wallBounce = 0, colliderOwnerId = 2\<rparr>]\<rparr>,
     demo_world\<lparr>w_entities := [1, 2, 3, 4, 5, 6, 7], w_pos := [6 \<mapsto> (0, -40, 0)]\<rparr>))) 6
   = Some \<lparr>wallBounce = 0, colliderOwnerId = 2\<rparr>"
proof -
  let ?e = "\<lparr>arrow = 7, draw = 1, ownerId = 2, netId = 5, stuckPos = (0, 0, 0), stuckDir = (0, 0, 1),
       stuckTime = 0, lastEffectTime = 0, spawnTime = 0::real\<rparr>"
  let ?c = "demo_client\<lparr>arrows := [(6, ?e)], c_vel := [6 \<mapsto> (0, -1, 0)],
       c_collider := [6 \<mapsto> \<lparr>wallBounce = 0, colliderOwnerId = 2\<rparr>]\<rparr>"
  let ?w = "demo_world\<lparr>w_entities := [1, 2, 3, 4, 5, 6, 7], w_pos := [6 \<mapsto> (0, -40, 0)]\<rparr>"
  have "arrows ?c = [(6, ?e)]" "stuckTime ?e \<le> 0" "w_pos ?w 6 = Some (0, -40, 0)"
    "vy (0::real, -40::real, 0::real) < -30" "c_vel ?c 6 = Some (0, -1, 0)" "arrow ?e \<noteq> 6"
    by simp_all
  from arrow_tick_keeps_fallen_collider [OF this, of 1] show ?thesis by simp
qed

subsection \<open>Spawning and deleting an arrow\<close>

lemma update_fresh_append: "k \<notin> fst ` set al \<Longrightarrow> AList.update k v al = al @ [(k, v)]"
  by (induction al) auto

lemma delete_fresh_append: "k \<notin> fst ` set al \<Longrightarrow> AList.delete k (al @ [(k, v)]) = al"
  by (induction al) auto

lemma client_remove_entities:
  "w_entities (snd (client_remove e s)) = removeAll e (w_entities (snd s))"
  by (simp add: client_remove_def remove_entity_def split: prod.split)

lemma deleteArrow_loop_skip:
  "n \<notin> set (map (netId \<circ> snd) xs) \<Longrightarrow> deleteArrow_loop n (xs @ ys) s = deleteArrow_loop n ys s"
  by (induction xs) auto

lemma spawnArrow_shape:
  "spawnArrow bz vr d owner n (c, w) = (c', w') \<Longrightarrow>
     arrows c' = AList.update (w_next w) (the (map_of (arrows c') (w_next w))) (arrows c)
     \<and> arrowsHit c' = arrowsHit c
     \<and> w_entities w' = w_entities w @ [w_next w, Suc (w_next w)]
     \<and> map_of (arrows c') (w_next w) \<noteq> None
     \<and> netId (the (map_of (arrows c') (w_next w))) = n
     \<and> arrow (the (map_of (arrows c') (w_next w))) = Suc (w_next w)"
  by (auto simp: spawnArrow_def Let_def spawn_entity_def updateArrowTransform_def set_pos_def
      update_conv' split: prod.splits)

text \<open>C24: an arrow spawned with a netId no other arrow has is removed completely by the
  HitCommand for that netId: the arrow map, the hit set and the entity list are as before
  the spawn.\<close>

theorem arrow_spawn_delete_roundtrip:
  assumes "arrow_inv (c, w)" "n \<notin> set (map (netId \<circ> snd) (arrows c))"
    "\<forall>e \<in> set (w_entities w). e < w_next w"
  shows "arrows (fst (deleteArrow n (spawnArrow bz vr d owner n (c, w)))) = arrows c
    \<and> arrowsHit (fst (deleteArrow n (spawnArrow bz vr d owner n (c, w)))) = arrowsHit c
    \<and> w_entities (snd (deleteArrow n (spawnArrow bz vr d owner n (c, w)))) = w_entities w"
proof -
  obtain c' w' where sp: "spawnArrow bz vr d owner n (c, w) = (c', w')" by fastforce
  let ?k = "w_next w"
  obtain e where e: "map_of (arrows c') ?k = Some e"
    using spawnArrow_shape [OF sp] by auto
  have fresh: "?k \<notin> fst ` set (arrows c)"
    using assms(1) by (auto simp: arrow_inv_def akeys_def)
  have hit: "?k \<notin> set (arrowsHit c)"
    using assms(1) fresh by (auto simp: arrow_inv_def akeys_def)
  have ent: "?k \<notin> set (w_entities w)" "Suc ?k \<notin> set (w_entities w)"
    using assms(3) by auto
  have shape: "arrows c' = AList.update ?k e (arrows c)" "arrowsHit c' = arrowsHit c"
    "w_entities w' = w_entities w @ [?k, Suc ?k]" "netId e = n" "arrow e = Suc ?k"
    using spawnArrow_shape [OF sp] e by simp_all
  have arr: "arrows c' = arrows c @ [(?k, e)]"
    using shape fresh by (simp add: update_fresh_append)
  have del: "deleteArrow n (c', w') =
      (case client_remove (arrow e) (client_remove ?k (c', w')) of (c2, w2) \<Rightarrow> (drop_arrow ?k c2, w2))"
    using shape(4,5) assms(2) by (simp add: deleteArrow_def arr deleteArrow_loop_skip)
  have "arrows (fst (deleteArrow n (c', w'))) = arrows c"
    using fresh by (simp add: del case_prod_beta drop_arrow_def arr delete_fresh_append)
  moreover have "arrowsHit (fst (deleteArrow n (c', w'))) = arrowsHit c"
    using hit shape(2) by (simp add: del case_prod_beta drop_arrow_def)
  moreover have "w_entities (snd (deleteArrow n (c', w'))) = w_entities w"
    using ent shape(3,5) by (simp add: del case_prod_beta client_remove_entities)
  ultimately show ?thesis by (simp add: sp)
qed

theorem arrow_spawn_delete_roundtrip_witness:
  "arrows (fst (deleteArrow 7 (spawnArrow 1 ((0, 2, 0), (1, 0, 0)) 0.5 2 7 (demo_client, demo_world)))) = []
   \<and> w_entities (snd (deleteArrow 7 (spawnArrow 1 ((0, 2, 0), (1, 0, 0)) 0.5 2 7 (demo_client, demo_world)))) =
      [1, 2, 3, 4, 5]"
proof -
  have h: "arrow_inv (demo_client, demo_world)" "7 \<notin> set (map (netId \<circ> snd) (arrows demo_client))"
    "\<forall>e \<in> set (w_entities demo_world). e < w_next demo_world"
    by (simp_all add: arrow_inv_def akeys_def demo_client_def demo_world_def)
  show ?thesis
    using arrow_spawn_delete_roundtrip [OF h, of 1 "((0, 2, 0), (1, 0, 0))" "0.5" 2]
    by (simp add: demo_client_def demo_world_def)
qed

end
