(* ===== verification/System.thy ===== *)
theory System
  imports Server ClientArrow
begin

text \<open>
  The server as one state machine. Its state is the bot roster, the world and the
  Respawner list of respawn.ts; its events are the engine callbacks the scripts register:
  game start, a player joining, the three command listeners, a pickup collision, a game
  tick and the engine moving bodies. The game-start handlers run in module order
  (pickups.ts, respawn.ts, server.ts), the tick handlers likewise (pickups.ts, bots.ts,
  server.ts), each on the state the previous one left. A handler that throws ends with
  the state reached at the throw and the engine goes on with the next callback.
\<close>

record server_state =
  ss_roster :: roster
  ss_world :: world
  ss_spawns :: "vec3 list"

datatype server_event =
    GameStart "eid list"
  | PlayerJoined eid
  | ArrowReceived ray real eid int eid
  | HitReceived eid eid vec3 int
  | EnvDeathReceived eid string
  | PickupTouched eid eid
  | GameTick real "nat \<Rightarrow> spawn_rolls" "nat \<Rightarrow> think_rolls"
  | EngineMoves "eid \<Rightarrow> vec3 option" "eid \<Rightarrow> ray option"

definition server_start :: "eid list \<Rightarrow> server_state \<Rightarrow> server_state" where
  "server_start peers S =
     (let w1 = js_state (pickups_game_start (ss_world S));
          sp = js_state (collect_spawn_positions w1);
          w2 = js_state (server_game_start sp peers w1)
      in S\<lparr>ss_world := w2, ss_spawns := sp\<rparr>)"

definition server_tick :: "host \<Rightarrow> real \<Rightarrow> (nat \<Rightarrow> spawn_rolls) \<Rightarrow> (nat \<Rightarrow> think_rolls) \<Rightarrow>
                           server_state \<Rightarrow> server_state" where
  "server_tick h t srolls trolls S =
     (let w0 = (ss_world S)\<lparr>w_time := t\<rparr>;
          w1 = js_state (pickups_tick t w0);
          b = js_state (bot_tick h (ss_spawns S) srolls trolls t (ss_roster S) w1);
          w3 = js_state (server_respawn_tick (ss_spawns S) t (snd b))
      in S\<lparr>ss_roster := fst b, ss_world := w3\<rparr>)"

fun server_step :: "host \<Rightarrow> server_event \<Rightarrow> server_state \<Rightarrow> server_state" where
  "server_step h (GameStart peers) S = server_start peers S"
| "server_step h (PlayerJoined pid) S =
     S\<lparr>ss_world := js_state (onPlayerJoin (ss_spawns S) pid (ss_world S))\<rparr>"
| "server_step h (ArrowReceived vr d ow n sender) S =
     S\<lparr>ss_world := onArrowCommand vr d ow n sender (ss_world S)\<rparr>"
| "server_step h (HitReceived a v pos n) S = S\<lparr>ss_world := onHitCommand a v pos n (ss_world S)\<rparr>"
| "server_step h (EnvDeathReceived v reason) S =
     S\<lparr>ss_world := onEnvironmentalDeath v reason (ss_world S)\<rparr>"
| "server_step h (PickupTouched pl pk) S = S\<lparr>ss_world := onPickupCollision pl pk (ss_world S)\<rparr>"
| "server_step h (GameTick t srolls trolls) S = server_tick h t srolls trolls S"
| "server_step h (EngineMoves pos view) S =
     S\<lparr>ss_world := (ss_world S)\<lparr>w_pos := pos, w_view := view\<rparr>\<rparr>"

text \<open>The states the server can reach from a map in which no entity has a player trait.\<close>

inductive server_reach :: "host \<Rightarrow> server_state \<Rightarrow> bool" for h :: host where
  boot: "(\<And>e. w_player (ss_world S) e = None) \<Longrightarrow> server_reach h S"
| step: "server_reach h S \<Longrightarrow> server_reach h (server_step h e S)"

subsection \<open>The trait typing invariant across all handlers\<close>

lemma pickups_ammo:
  "trait_inv w \<Longrightarrow> trait_inv (js_state (pickups_game_start w))"
  "trait_inv w \<Longrightarrow> trait_inv (js_state (pickups_tick t w))"
  by (auto simp: pickups_game_start_def pickups_tick_def pickups_start_loop_players
      spawner_loop_players intro: trait_inv_players)

lemma server_step_ammo: "trait_inv (ss_world S) \<Longrightarrow> trait_inv (ss_world (server_step h e S))"
proof (cases e)
  case (GameStart peers)
  assume i: "trait_inv (ss_world S)"
  have "trait_inv (js_state (server_game_start sp peers (js_state (pickups_game_start (ss_world S)))))"
    for sp using pickups_ammo(1) [OF i] by (simp add: server_game_start_def spawn_joined_ammo)
  then show ?thesis using GameStart by (simp add: server_start_def Let_def)
next
  case (GameTick t srolls trolls)
  assume i: "trait_inv (ss_world S)"
  let ?w1 = "js_state (pickups_tick t ((ss_world S)\<lparr>w_time := t\<rparr>))"
  have i1: "trait_inv ?w1" using i by (intro pickups_ammo(2)) (simp add: trait_inv_def trait_typed_def)
  have "trait_inv (snd (js_state (bot_tick h (ss_spawns S) srolls trolls t (ss_roster S) ?w1)))"
    by (rule bot_tick_ammo [OF i1])
  then show ?thesis using GameTick
    by (simp add: server_tick_def Let_def server_respawn_tick_def respawn_loop_ammo)
next
  case (EngineMoves pos view)
  assume i: "trait_inv (ss_world S)"
  have "trait_inv ((ss_world S)\<lparr>w_pos := pos, w_view := view\<rparr>)" by (rule trait_inv_players [OF i]) simp
  then show ?thesis using EngineMoves by simp
qed (simp_all add: onPlayerJoin_ammo onArrowCommand_trait_inv onHitCommand_ammo
       onEnvironmentalDeath_def killPlayer_ammo onPickupCollision_ammo)

end
