(* ===== verification/Player.thy ===== *)
theory Player
  imports ClientArrow
begin

text \<open>
  \<open>src/project/client/player.ts\<close>: every client animates every player's bow, and the local
  player draws and releases its own. The DrawTrait (traits.ts lines 19-27) holds the draw
  start (\<open>drawTime\<close>, 0 when not drawing) and the release time (\<open>releaseTime\<close>, 0 when
  the release wobble is over). The record \<open>bowview\<close> holds what the script sets beside the
  client state of \<open>ClientArrow\<close>: the DrawTraits, the bow frame each character holds
  (\<open>J.setCharacterItem\<close>: the index into \<open>bowFrames\<close> of bow.ts, \<open>None\<close> for no item),
  visibility, the first-person item transform (position, roll angle about z, scale; the
  quaternion \<open>J.quat.fromEuler\<close> is recorded as its angle) and the crosshair. The local
  player's velocity is read from the client's velocity store \<open>c_vel\<close>;
  \<open>J.isInWorldBounds\<close> is a parameter. Sounds, particles, the death message and the camera
  zoom are presentation and not modelled.
\<close>

subsection \<open>State\<close>

record draw_trait =
  drawTime :: real
  releaseTime :: real

datatype crosshair = CrosshairHidden | CrosshairShown real

record bowview =
  p_draw :: "eid \<Rightarrow> draw_trait option"
  p_item :: "eid \<Rightarrow> int option"
  p_visible :: "eid \<Rightarrow> bool"
  p_fp :: "(vec3 \<times> real \<times> real) option"
  p_crosshair :: crosshair

type_synonym pstate = "bowview \<times> cstate"

subsection \<open>bow.ts: the bow frames (lines 7-41)\<close>

text \<open>The frame offsets of bow.ts; the asset handles and bounds only place the model.
  \<open>bowFrames[frameIndex]\<close> is \<open>undefined\<close> out of range, and reading \<open>frame.asset\<close>
  of it throws a TypeError.\<close>

definition bowFrames :: "vec3 list" where
  "bowFrames = [(0, 0, 0.5), (1.5, 0, 10), (1.5, 0, 8), (1.5, -2, 7), (1.5, -4, 6)]"

definition setBowFrame :: "eid \<Rightarrow> int \<Rightarrow> pstate \<Rightarrow> pstate js_result" where
  "setBowFrame e frameIndex s = (case s of (b, cs) \<Rightarrow>
     if 0 \<le> frameIndex \<and> nat frameIndex < length bowFrames
     then Ok (b\<lparr>p_item := (p_item b)(e \<mapsto> frameIndex)\<rparr>, cs)
     else Raised s)"

text \<open>\<open>initPlayer\<close> (player.ts lines 15-23) with \<open>initBow\<close>.\<close>

definition initPlayer :: "eid \<Rightarrow> pstate \<Rightarrow> pstate js_result" where
  "initPlayer e s = (case s of (b, cs) \<Rightarrow>
     setBowFrame e 0 (b\<lparr>p_draw := (p_draw b)(e \<mapsto> \<lparr>drawTime = 0, releaseTime = 0\<rparr>)\<rparr>, cs))"

subsection \<open>Drawing and releasing (lines 43-110)\<close>

definition onCharacterUse :: "eid \<Rightarrow> bool \<Rightarrow> pstate \<Rightarrow> pstate" where
  "onCharacterUse e primary s = (case s of (b, c, w) \<Rightarrow>
     if \<not> primary then s
     else case w_player w e of
       None \<Rightarrow> s
     | Some playerTrait \<Rightarrow>
         if arrowCount playerTrait \<le> 0 then s
         else case p_draw b e of
           None \<Rightarrow> s
         | Some drawState \<Rightarrow>
             if drawTime drawState = 0
             then (b\<lparr>p_draw := (p_draw b)(e \<mapsto> \<lparr>drawTime = w_time w, releaseTime = 0\<rparr>)\<rparr>, c, w)
             else s)"

text \<open>\<open>Math.floor(Math.random() * 2147483647)\<close> with the roll \<open>r\<close>.\<close>

definition net_id_of :: "real \<Rightarrow> int" where
  "net_id_of r = \<lfloor>r * 2147483647\<rfloor>"

definition onCharacterUnuse :: "real \<Rightarrow> real \<Rightarrow> eid \<Rightarrow> pstate \<Rightarrow> pstate" where
  "onCharacterUnuse arrowBoundsZ r e s = (case s of (b, c, w) \<Rightarrow>
     case p_draw b e of
       None \<Rightarrow> s
     | Some drawState \<Rightarrow>
         if \<not> 0 < drawTime drawState then s
         else
           (let t = w_time w;
                d = min 1 (t - drawTime drawState);
                b1 = b\<lparr>p_draw := (p_draw b)(e \<mapsto> \<lparr>drawTime = 0, releaseTime = t\<rparr>)\<rparr>
            in if c_local c = e then
                 (case w_player w e of
                    None \<Rightarrow> (b1, c, w)
                  | Some playerTrait \<Rightarrow>
                      if arrowCount playerTrait \<le> 0 then (b1, c, w)
                      else
                        (let w1 = set_player e (playerTrait\<lparr>arrowCount := arrowCount playerTrait - 1\<rparr>) w
                         in case w_view w1 e of
                              None \<Rightarrow> (b1, c, w1)
                            | Some viewRay \<Rightarrow>
                                (let n = net_id_of r
                                 in case spawnArrow arrowBoundsZ viewRay d e n (c, w1) of
                                      (c2, w2) \<Rightarrow>
                                        (b1, c2\<lparr>c_to_server := c_to_server c2 @ [ArrowCommand viewRay d e n]\<rparr>, w2))))
               else (b1, c, w)))"

subsection \<open>The game tick (lines 117-236)\<close>

definition tickTutorial :: "eid \<Rightarrow> eid \<Rightarrow> bool \<Rightarrow> pstate \<Rightarrow> pstate" where
  "tickTutorial e localPlayerId localInTutorial s = (case s of (b, c, w) \<Rightarrow>
     if e = localPlayerId then s
     else if localInTutorial \<and> isInTutorialArea e w
     then (b\<lparr>p_visible := (p_visible b)(e := False), p_item := (p_item b)(e := None)\<rparr>, c, w)
     else (b\<lparr>p_visible := (p_visible b)(e := True)\<rparr>, c, w))"

text \<open>\<open>easeOutCubic\<close> (utils.ts line 10): \<open>--t * t * t + 1\<close> decrements \<open>t\<close> first.\<close>

definition easeOutCubic :: "real \<Rightarrow> real" where
  "easeOutCubic x = (x - 1) * (x - 1) * (x - 1) + 1"

text \<open>The eased draw of lines 154-156 and 230-232, and the frame of lines 190 and 233.\<close>

definition drawAmount :: "draw_trait \<Rightarrow> real \<Rightarrow> real" where
  "drawAmount drawState t =
     easeOutCubic (if 0 < drawTime drawState then min 1 (t - drawTime drawState) else 0)"

definition bow_frame_index :: "real \<Rightarrow> int" where
  "bow_frame_index d = (if 0 < d then js_round (1 + d * 3) else 0)"

text \<open>Lines 141-152: falling out of the world reports an environmental death and kills the
  player locally; \<open>handlePlayerDeath\<close> only plays a sound, particles and the camera.\<close>

definition fell_out :: "(vec3 \<Rightarrow> bool) \<Rightarrow> eid \<Rightarrow> pstate \<Rightarrow> pstate" where
  "fell_out inWorldBounds e s = (case s of (b, c, w) \<Rightarrow>
     case w_pos w e of
       None \<Rightarrow> s
     | Some pos \<Rightarrow>
         if inWorldBounds pos then s
         else (b, c\<lparr>c_to_server := c_to_server c @ [EnvironmentalDeathCommand e ''fell out of bounds'']\<rparr>,
               set_alive e False w))"

definition tickWhileAlive :: "(vec3 \<Rightarrow> bool) \<Rightarrow> eid \<Rightarrow> draw_trait \<Rightarrow> real \<Rightarrow> pstate \<Rightarrow> pstate js_result" where
  "tickWhileAlive inWorldBounds e drawState t s = (case fell_out inWorldBounds e s of (b, c, w) \<Rightarrow>
     (let d = drawAmount drawState t;
          wobbling = 0 < releaseTime drawState;
          drawElapsed = t - drawTime drawState;
          drawDecay = exp (-18 * drawElapsed);
          drawWobble = sin (50 * drawElapsed) * drawDecay;
          releaseElapsed = t - releaseTime drawState;
          releaseDecay = exp (-18 * releaseElapsed);
          releaseWobble = sin (50 * releaseElapsed) * releaseDecay;
          wobble = (if wobbling then releaseWobble else drawWobble);
          b1 = (if 0 < drawTime drawState \<or> wobbling then
                  (let hold = (if wobbling then 1 else d);
                       b2 = b\<lparr>p_fp := Some ((hold * -0.1, hold * 0.03, -0.06 * hold), - hold * 0.6,
                                             1 + wobble * 0.3)\<rparr>
                   in if wobbling \<and> releaseDecay < 0.01
                      then b2\<lparr>p_draw := (p_draw b2)(e \<mapsto> drawState\<lparr>releaseTime := 0\<rparr>), p_fp := None\<rparr>
                      else b2)
                else b);
          velocity = (case c_vel c e of None \<Rightarrow> (0, 0, 0) | Some v \<Rightarrow> v);
          speed = sqrt (vlen2 velocity);
          accuracy = max 0 (d - speed * 0.03)
      in setBowFrame e (bow_frame_index d)
           (b1\<lparr>p_crosshair := CrosshairShown (50 - 45 * accuracy + wobble * 30)\<rparr>, c, w)))"

definition tickWhileDead :: "eid \<Rightarrow> draw_trait \<Rightarrow> pstate \<Rightarrow> pstate" where
  "tickWhileDead e drawState s = (case s of (b, cs) \<Rightarrow>
     (let b1 = b\<lparr>p_crosshair := CrosshairHidden\<rparr>
      in if 0 < drawTime drawState \<or> 0 < releaseTime drawState
         then (b1\<lparr>p_draw := (p_draw b1)(e \<mapsto> \<lparr>drawTime = 0, releaseTime = 0\<rparr>), p_fp := None\<rparr>, cs)
         else (b1, cs)))"

text \<open>One iteration of the loop of lines 211-235; the loop runs over the players listed when
  the tick starts and reads each DrawTrait afresh. A throw ends the callback.\<close>

definition player_tick_one :: "(vec3 \<Rightarrow> bool) \<Rightarrow> real \<Rightarrow> eid \<Rightarrow> bool \<Rightarrow> eid \<Rightarrow> pstate \<Rightarrow> pstate js_result" where
  "player_tick_one inWorldBounds t localPlayerId localInTutorial e s =
     (case p_draw (fst s) e of
        None \<Rightarrow> initPlayer e s
      | Some drawState \<Rightarrow>
          (let s1 = tickTutorial e localPlayerId localInTutorial s
           in if e = localPlayerId then
                (if w_alive (snd (snd s1)) e then tickWhileAlive inWorldBounds e drawState t s1
                 else Ok (tickWhileDead e drawState s1))
              else setBowFrame e (bow_frame_index (drawAmount drawState t)) s1))"

fun player_tick_loop :: "(vec3 \<Rightarrow> bool) \<Rightarrow> real \<Rightarrow> eid \<Rightarrow> bool \<Rightarrow> eid list \<Rightarrow> pstate \<Rightarrow> pstate js_result" where
  "player_tick_loop inWorldBounds t localPlayerId localInTutorial [] s = Ok s"
| "player_tick_loop inWorldBounds t localPlayerId localInTutorial (e # rest) s =
     (case player_tick_one inWorldBounds t localPlayerId localInTutorial e s of
        Raised s' \<Rightarrow> Raised s'
      | Ok s' \<Rightarrow> player_tick_loop inWorldBounds t localPlayerId localInTutorial rest s')"

definition player_tick :: "(vec3 \<Rightarrow> bool) \<Rightarrow> real \<Rightarrow> pstate \<Rightarrow> pstate js_result" where
  "player_tick inWorldBounds t s = (case s of (b, c, w) \<Rightarrow>
     player_tick_loop inWorldBounds t (c_local c) (isInTutorialArea (c_local c) w) (players_of w) s)"

subsection \<open>RespawnCommand (lines 238-245)\<close>

definition onRespawnCommandPlayer :: "eid \<Rightarrow> vec3 \<Rightarrow> pstate \<Rightarrow> pstate" where
  "onRespawnCommandPlayer playerId position s = (case s of (b, c, w) \<Rightarrow>
     if playerId = c_local c then (b, c, set_pos (c_local c) position w) else s)"

subsection \<open>The client as one event machine\<close>

text \<open>The events of a client: an arrow event of \<open>ClientArrow\<close>, a press or release of the
  use button, a player tick, a relayed RespawnCommand. The engine runs the callbacks one at a
  time in any order.\<close>

datatype client_event =
    ArrowEvent arrow_event
  | UseEvent eid bool
  | UnuseEvent eid real
  | PlayerTick real
  | RespawnReceived eid vec3

fun client_step :: "real \<Rightarrow> (vec3 \<Rightarrow> bool) \<Rightarrow> client_event \<Rightarrow> pstate \<Rightarrow> pstate" where
  "client_step bz inb (ArrowEvent ev) s = (fst s, arrow_step bz ev (snd s))"
| "client_step bz inb (UseEvent e primary) s = onCharacterUse e primary s"
| "client_step bz inb (UnuseEvent e r) s = onCharacterUnuse bz r e s"
| "client_step bz inb (PlayerTick t) s = js_state (player_tick inb t s)"
| "client_step bz inb (RespawnReceived p pos) s = onRespawnCommandPlayer p pos s"

subsection \<open>What the arrow operations send\<close>

text \<open>Only a hit on a player sends anything from arrow.ts; no arrow operation changes the
  local player handle.\<close>

lemma updateArrowTransform_local [simp]:
  "c_local (fst (updateArrowTransform bz entry pos dir wb s)) = c_local (fst s)"
  by (simp add: updateArrowTransform_def Let_def split: prod.splits)

lemma spawnArrow_outbox [simp]:
  "c_to_server (fst (spawnArrow bz vr d owner n s)) = c_to_server (fst s)"
  "c_local (fst (spawnArrow bz vr d owner n s)) = c_local (fst s)"
  by (simp_all add: spawnArrow_def Let_def case_prod_beta)

lemma onArrowBlockCollision_outbox [simp]:
  "c_to_server (fst (onArrowBlockCollision e s)) = c_to_server (fst s)"
  "c_local (fst (onArrowBlockCollision e s)) = c_local (fst s)"
  by (simp_all add: onArrowBlockCollision_def Let_def case_prod_beta split: option.splits)

lemma deleteArrow_loop_outbox [simp]:
  "c_to_server (fst (deleteArrow_loop n al s)) = c_to_server (fst s)
   \<and> c_local (fst (deleteArrow_loop n al s)) = c_local (fst s)"
proof (induction al arbitrary: s)
  case (Cons p rest)
  then show ?case by (cases p) (simp add: drop_arrow_def case_prod_beta)
qed simp

lemma arrow_tick_step_outbox [simp]:
  "c_to_server (fst (snd (arrow_tick_step bz t k del s))) = c_to_server (fst s)"
  "c_local (fst (snd (arrow_tick_step bz t k del s))) = c_local (fst s)"
  by (simp_all add: arrow_tick_step_def arrow_place_def Let_def case_prod_beta
      split: option.splits)

lemma arrow_tick_loop_outbox [simp]:
  "c_to_server (fst (snd (arrow_tick_loop bz t ks del s))) = c_to_server (fst s)
   \<and> c_local (fst (snd (arrow_tick_loop bz t ks del s))) = c_local (fst s)"
proof (induction ks arbitrary: del s)
  case (Cons k rest)
  then show ?case by (simp add: case_prod_beta)
qed simp

lemma arrow_delete_loop_outbox [simp]:
  "c_to_server (fst (arrow_delete_loop ks s)) = c_to_server (fst s)
   \<and> c_local (fst (arrow_delete_loop ks s)) = c_local (fst s)"
proof (induction ks arbitrary: s)
  case (Cons k rest)
  then show ?case by (simp add: drop_arrow_def case_prod_beta split: option.splits)
qed simp

lemma arrow_tick_outbox [simp]:
  "c_to_server (fst (arrow_tick bz s)) = c_to_server (fst s)"
  "c_local (fst (arrow_tick bz s)) = c_local (fst s)"
  by (simp_all add: arrow_tick_def case_prod_beta)

text \<open>The arrow events keep the local handle and the ArrowCommands sent.\<close>

fun is_arrow_cmd :: "net_msg \<Rightarrow> bool" where
  "is_arrow_cmd (ArrowCommand vr d owner n) = True"
| "is_arrow_cmd m = False"

lemma arrow_step_shots:
  "c_local (fst (arrow_step bz ev s)) = c_local (fst s)
   \<and> filter is_arrow_cmd (c_to_server (fst (arrow_step bz ev s))) = filter is_arrow_cmd (c_to_server (fst s))"
proof (cases ev)
  case (PlayerHit p a)
  then show ?thesis
    by (cases s) (simp add: onArrowPlayerCollision_def Let_def split: option.splits)
qed (cases s; simp add: onHitCommandClient_def deleteArrow_def)+


subsection \<open>The bow frame is always one of the five\<close>

lemma easeOutCubic_le_one: "x \<le> 1 \<Longrightarrow> easeOutCubic x \<le> 1"
proof -
  assume "x \<le> 1"
  then have "0 \<le> (1 - x) * (1 - x) * (1 - x)" by simp
  then show ?thesis by (simp add: easeOutCubic_def algebra_simps)
qed

lemma drawAmount_le_one: "drawAmount drawState t \<le> 1"
  by (simp add: drawAmount_def easeOutCubic_le_one)

lemma bow_frame_index_range: "d \<le> 1 \<Longrightarrow> 0 \<le> bow_frame_index d \<and> bow_frame_index d \<le> 4"
  by (simp add: bow_frame_index_def js_round_def floor_le_iff le_floor_iff)

lemma setBowFrame_in_range:
  "0 \<le> k \<Longrightarrow> k \<le> 4 \<Longrightarrow> setBowFrame e k s = Ok (fst s\<lparr>p_item := (p_item (fst s))(e \<mapsto> k)\<rparr>, snd s)"
  by (cases s) (simp add: setBowFrame_def bowFrames_def nat_less_iff)

lemma setBowFrame_drawn:
  "setBowFrame e (bow_frame_index (drawAmount drawState t)) s =
     Ok (fst s\<lparr>p_item := (p_item (fst s))(e \<mapsto> bow_frame_index (drawAmount drawState t))\<rparr>, snd s)"
  using bow_frame_index_range [OF drawAmount_le_one] by (simp add: setBowFrame_in_range)

lemma initPlayer_ok: "\<exists>s'. initPlayer e s = Ok s'"
  by (cases s) (simp add: initPlayer_def setBowFrame_in_range)

lemma tickWhileAlive_ok: "\<exists>s'. tickWhileAlive inb e drawState t s = Ok s'"
  by (simp add: tickWhileAlive_def setBowFrame_drawn Let_def case_prod_beta)

lemma player_tick_one_ok: "\<exists>s'. player_tick_one inb t l lt e s = Ok s'"
  by (simp add: player_tick_one_def setBowFrame_drawn initPlayer_ok tickWhileAlive_ok Let_def
      del: split_paired_Ex split: option.splits)

lemma player_tick_loop_ok: "\<exists>s'. player_tick_loop inb t l lt es s = Ok s'"
proof (induction es arbitrary: s)
  case (Cons e rest)
  obtain s1 where "player_tick_one inb t l lt e s = Ok s1" using player_tick_one_ok by blast
  then show ?case using Cons.IH [of s1] by simp
qed (simp del: split_paired_Ex)


subsection \<open>Shots and draws\<close>

text \<open>The local player is armed while its DrawTrait records a draw start; the shots are the
  ArrowCommands the client has sent.\<close>

definition local_armed :: "pstate \<Rightarrow> bool" where
  "local_armed s = (case p_draw (fst s) (c_local (fst (snd s))) of
     None \<Rightarrow> False | Some drawState \<Rightarrow> 0 < drawTime drawState)"

definition shots_sent :: "pstate \<Rightarrow> nat" where
  "shots_sent s = length (filter is_arrow_cmd (c_to_server (fst (snd s))))"

text \<open>What a player-tick operation may do to the shot count: nothing, and it never arms.\<close>

definition no_new_shot :: "pstate \<Rightarrow> pstate \<Rightarrow> bool" where
  "no_new_shot s s' \<longleftrightarrow> c_local (fst (snd s')) = c_local (fst (snd s)) \<and> shots_sent s' = shots_sent s
     \<and> (local_armed s' \<longrightarrow> local_armed s)"

lemma no_new_shot_refl [simp]: "no_new_shot s s"
  by (simp add: no_new_shot_def)

lemma no_new_shot_trans: "no_new_shot s s1 \<Longrightarrow> no_new_shot s1 s2 \<Longrightarrow> no_new_shot s s2"
  by (simp add: no_new_shot_def)

lemma no_new_shot_same_draw:
  "snd s' = snd s \<Longrightarrow> p_draw (fst s') = p_draw (fst s) \<Longrightarrow> no_new_shot s s'"
  by (simp add: no_new_shot_def local_armed_def shots_sent_def)

lemma setBowFrame_no_shot: "no_new_shot s (js_state (setBowFrame e k s))"
  by (cases s) (simp add: setBowFrame_def no_new_shot_same_draw)

lemma tickTutorial_keeps [simp]:
  "p_draw (fst (tickTutorial e l lt s)) = p_draw (fst s)"
  "p_crosshair (fst (tickTutorial e l lt s)) = p_crosshair (fst s)"
  "snd (tickTutorial e l lt s) = snd s"
  by (cases s; simp add: tickTutorial_def)+

lemma tickTutorial_self [simp]: "tickTutorial e e lt s = s"
  by (cases s) (simp add: tickTutorial_def)

lemma tickTutorial_no_shot: "no_new_shot s (tickTutorial e l lt s)"
  by (cases s) (simp add: tickTutorial_def no_new_shot_same_draw)

lemma fell_out_no_shot: "no_new_shot s (fell_out inb e s)"
  by (cases s) (simp add: fell_out_def no_new_shot_def local_armed_def shots_sent_def set_alive_def
      split: option.splits)

lemma fell_out_draw [simp]: "p_draw (fst (fell_out inb e s)) = p_draw (fst s)"
  by (cases s) (simp add: fell_out_def split: option.splits)

lemma initPlayer_no_shot: "no_new_shot s (js_state (initPlayer e s))"
  by (cases s) (simp add: initPlayer_def setBowFrame_in_range no_new_shot_def local_armed_def
      shots_sent_def)

lemma tickWhileDead_no_shot: "no_new_shot s (tickWhileDead e drawState s)"
  by (cases s) (simp add: tickWhileDead_def no_new_shot_def local_armed_def shots_sent_def Let_def)

text \<open>A live tick rewrites the DrawTrait only to clear the release time of the trait it
  read, so the draw start is kept.\<close>

lemma tickWhileAlive_no_shot:
  assumes "p_draw (fst s) e = Some drawState"
  shows "no_new_shot s (js_state (tickWhileAlive inb e drawState t s))"
proof -
  obtain b c w where fo: "fell_out inb e s = (b, c, w)" by (cases "fell_out inb e s")
  have n1: "no_new_shot s (b, c, w)" using fell_out_no_shot [of s inb e] fo by simp
  have pd: "p_draw b e = Some drawState" using assms fell_out_draw [of inb e s] fo by simp
  have "no_new_shot (b, c, w) (js_state (tickWhileAlive inb e drawState t s))"
    using pd by (simp add: tickWhileAlive_def fo setBowFrame_drawn Let_def no_new_shot_def
      local_armed_def shots_sent_def)
  then show ?thesis using n1 no_new_shot_trans by blast
qed

lemma player_tick_one_no_shot: "no_new_shot s (js_state (player_tick_one inb t l lt e s))"
proof (cases "p_draw (fst s) e")
  case None
  then show ?thesis by (simp add: player_tick_one_def initPlayer_no_shot)
next
  case (Some drawState)
  let ?s1 = "tickTutorial e l lt s"
  have t1: "no_new_shot s ?s1" by (rule tickTutorial_no_shot)
  have pd: "p_draw (fst ?s1) e = Some drawState" using Some by simp
  have "no_new_shot ?s1 (js_state (player_tick_one inb t l lt e s))"
    using Some tickWhileAlive_no_shot [OF pd] tickWhileDead_no_shot setBowFrame_no_shot
    by (cases "e = l") (simp_all add: player_tick_one_def Let_def)
  then show ?thesis using t1 no_new_shot_trans by blast
qed

lemma player_tick_loop_no_shot: "no_new_shot s (js_state (player_tick_loop inb t l lt es s))"
proof (induction es arbitrary: s)
  case (Cons e rest)
  obtain s1 where r: "player_tick_one inb t l lt e s = Ok s1" using player_tick_one_ok by blast
  have "no_new_shot s s1" using player_tick_one_no_shot [of s inb t l lt e] r by simp
  then show ?case using Cons.IH [of s1] r no_new_shot_trans by simp
qed simp


lemma player_tick_no_shot: "no_new_shot s (js_state (player_tick inb t s))"
  by (cases s) (simp add: player_tick_def player_tick_loop_no_shot)

abbreviation armed_count :: "pstate \<Rightarrow> nat" where
  "armed_count s \<equiv> (if local_armed s then 1 else 0)"

lemma no_new_shot_count: "no_new_shot s s' \<Longrightarrow> shots_sent s' + armed_count s' \<le> shots_sent s + armed_count s"
  by (auto simp: no_new_shot_def)

lemma onCharacterUse_shots:
  "c_local (fst (snd (onCharacterUse e primary s))) = c_local (fst (snd s))
   \<and> shots_sent (onCharacterUse e primary s) = shots_sent s
   \<and> (local_armed (onCharacterUse e primary s) \<longrightarrow> local_armed s \<or> (primary \<and> e = c_local (fst (snd s))))"
  by (cases s) (auto simp: onCharacterUse_def local_armed_def shots_sent_def split: option.splits)

lemma onCharacterUnuse_shots:
  "c_local (fst (snd (onCharacterUnuse bz r e s))) = c_local (fst (snd s))
   \<and> shots_sent (onCharacterUnuse bz r e s) + armed_count (onCharacterUnuse bz r e s)
       \<le> shots_sent s + armed_count s"
proof (cases s)
  case (fields b c w)
  show ?thesis
  proof (cases "c_local c = e")
    case False
    then show ?thesis using fields
      by (simp add: onCharacterUnuse_def local_armed_def shots_sent_def Let_def split: option.splits)
  next
    case True
    then show ?thesis using fields
      by (auto simp: onCharacterUnuse_def local_armed_def shots_sent_def Let_def case_prod_beta
          set_player_def split: option.splits)
  qed
qed

lemma client_step_shots:
  "c_local (fst (snd (client_step bz inb ev s))) = c_local (fst (snd s))
   \<and> shots_sent (client_step bz inb ev s) + armed_count (client_step bz inb ev s)
       \<le> shots_sent s + armed_count s + (if ev = UseEvent (c_local (fst (snd s))) True then 1 else 0)"
proof (cases ev)
  case (ArrowEvent a)
  then show ?thesis using arrow_step_shots [of bz a "snd s"]
    by (simp add: local_armed_def shots_sent_def)
next
  case (UseEvent e primary)
  then show ?thesis using onCharacterUse_shots [of e primary s] by auto
next
  case (UnuseEvent e r)
  then show ?thesis using onCharacterUnuse_shots [of bz r e s] by simp
next
  case (PlayerTick t)
  then show ?thesis using player_tick_no_shot [of s inb t] no_new_shot_count
    by (simp add: no_new_shot_def)
next
  case (RespawnReceived p pos)
  then show ?thesis
    by (cases s) (simp add: onRespawnCommandPlayer_def local_armed_def shots_sent_def set_pos_def)
qed

definition client_run :: "real \<Rightarrow> (vec3 \<Rightarrow> bool) \<Rightarrow> client_event list \<Rightarrow> pstate \<Rightarrow> pstate" where
  "client_run bz inb evs s = foldl (\<lambda>s ev. client_step bz inb ev s) s evs"

text \<open>C26: every ArrowCommand a client sends is paid for by a draw: over any sequence of
  arrow events, presses, releases, ticks and respawns, the commands sent plus the draw still
  held never exceed those at the start plus the local player's primary presses.\<close>

theorem client_shots_need_draws:
  "shots_sent (client_run bz inb evs s) + armed_count (client_run bz inb evs s)
     \<le> shots_sent s + armed_count s + count_list evs (UseEvent (c_local (fst (snd s))) True)"
proof (induction evs arbitrary: s)
  case Nil
  then show ?case by (simp add: client_run_def)
next
  case (Cons ev evs)
  let ?s1 = "client_step bz inb ev s"
  have st: "c_local (fst (snd ?s1)) = c_local (fst (snd s))"
    "shots_sent ?s1 + armed_count ?s1
       \<le> shots_sent s + armed_count s + (if ev = UseEvent (c_local (fst (snd s))) True then 1 else 0)"
    using client_step_shots [of bz inb ev s] by auto
  have "client_run bz inb (ev # evs) s = client_run bz inb evs ?s1" by (simp add: client_run_def)
  then show ?case using Cons.IH [of ?s1] st by auto
qed


subsection \<open>Ticks while the local player is dead\<close>

definition dead_disarmed :: "pstate \<Rightarrow> bool" where
  "dead_disarmed s \<longleftrightarrow> \<not> local_armed s \<and> p_crosshair (fst s) = CrosshairHidden"

lemma player_tick_one_dead:
  assumes l: "c_local (fst (snd s)) = l" and dead: "\<not> w_alive (snd (snd s)) l"
    and has: "p_draw (fst s) l \<noteq> None"
  fixes inb t lt e
  defines "s' \<equiv> js_state (player_tick_one inb t l lt e s)"
  shows "snd s' = snd s \<and> p_draw (fst s') l \<noteq> None \<and> (e = l \<or> dead_disarmed s \<longrightarrow> dead_disarmed s')"
proof (cases "e = l")
  case True
  then show ?thesis using l dead has unfolding s'_def
    by (cases s) (auto simp: player_tick_one_def tickWhileDead_def dead_disarmed_def local_armed_def
        Let_def split: option.splits)
next
  case False
  then show ?thesis using l has unfolding s'_def
    by (cases s) (auto simp: player_tick_one_def initPlayer_def setBowFrame_in_range
        bow_frame_index_range [OF drawAmount_le_one] tickTutorial_def dead_disarmed_def local_armed_def
        Let_def setBowFrame_drawn split: option.splits)
qed

lemma player_tick_loop_dead:
  assumes "c_local (fst (snd s)) = l" "\<not> w_alive (snd (snd s)) l" "p_draw (fst s) l \<noteq> None"
    "l \<in> set es \<or> dead_disarmed s"
  shows "dead_disarmed (js_state (player_tick_loop inb t l lt es s))"
  using assms
proof (induction es arbitrary: s)
  case (Cons e rest)
  obtain s1 where r: "player_tick_one inb t l lt e s = Ok s1" using player_tick_one_ok by blast
  have "snd s1 = snd s \<and> p_draw (fst s1) l \<noteq> None \<and> (e = l \<or> dead_disarmed s \<longrightarrow> dead_disarmed s1)"
    using player_tick_one_dead [OF Cons.prems(1-3), of inb t lt e] r by simp
  then show ?case using Cons.IH [of s1] Cons.prems r by auto
qed simp

lemma unuse_disarmed: "\<not> local_armed s \<Longrightarrow> onCharacterUnuse bz r (c_local (fst (snd s))) s = s"
  by (cases s) (auto simp: onCharacterUnuse_def local_armed_def split: option.splits)

subsection \<open>The local shot\<close>

lemma spawnArrow_entry:
  "map_of (arrows (fst (spawnArrow bz vr d owner n (c, w)))) (w_next w) =
     Some \<lparr>arrow = Suc (w_next w), draw = d, ownerId = owner, netId = n, stuckPos = (0, 0, 0),
           stuckDir = (0, 0, 1), stuckTime = 0, lastEffectTime = w_time w + 0.1, spawnTime = w_time w\<rparr>"
  "w_player (snd (spawnArrow bz vr d owner n (c, w))) = w_player w"
  by (simp_all add: spawnArrow_def spawn_entity_def set_pos_def updateArrowTransform_def Let_def
      update_conv')

lemma net_id_of_range: "0 \<le> r \<Longrightarrow> r < 1 \<Longrightarrow> 0 \<le> net_id_of r \<and> net_id_of r < 2147483647"
  by (simp add: net_id_of_def floor_less_iff)

subsection \<open>Fixtures\<close>

text \<open>Player 2 of the demo arena is the local player and has been drawing since 9.5 s.\<close>

definition demo_bow :: bowview where
  "demo_bow = \<lparr>p_draw = [2 \<mapsto> \<lparr>drawTime = 9.5, releaseTime = 0\<rparr>], p_item = Map.empty,
     p_visible = (\<lambda>_. True), p_fp = None, p_crosshair = CrosshairHidden\<rparr>"

lemmas player_demo_defs = demo_bow_def demo_client_def demo_world_def demo_player_def

subsection \<open>Properties\<close>

text \<open>C29: the player tick never throws: every bow frame it shows is one of the five of
  bow.ts.\<close>

theorem player_tick_total:
  "(\<exists>s'. player_tick inb t s = Ok s')
   \<and> 0 \<le> bow_frame_index (drawAmount drawState t') \<and> bow_frame_index (drawAmount drawState t') \<le> 4"
  using player_tick_loop_ok bow_frame_index_range [OF drawAmount_le_one]
  by (cases s) (simp add: player_tick_def del: split_paired_Ex)

text \<open>C28: a local release that ends a draw while the player holds arrows and has a view
  ray spawns the arrow, sends one ArrowCommand with the draw and a net id in range, and takes
  one arrow locally.\<close>

theorem onCharacterUnuse_local_shot:
  assumes "c_local c = e" "p_draw b e = Some drawState" "0 < drawTime drawState"
    "w_player w e = Some p" "0 < arrowCount p" "w_view w e = Some vr"
  shows "\<exists>c2 w2. onCharacterUnuse bz r e (b, c, w) =
            (b\<lparr>p_draw := (p_draw b)(e \<mapsto> \<lparr>drawTime = 0, releaseTime = w_time w\<rparr>)\<rparr>, c2, w2)
     \<and> c_to_server c2 = c_to_server c @ [ArrowCommand vr (min 1 (w_time w - drawTime drawState)) e (net_id_of r)]
     \<and> w_player w2 e = Some (p\<lparr>arrowCount := arrowCount p - 1\<rparr>)
     \<and> (\<exists>entry. map_of (arrows c2) (w_next w) = Some entry \<and> netId entry = net_id_of r
          \<and> ownerId entry = e \<and> draw entry = min 1 (w_time w - drawTime drawState))
     \<and> (0 \<le> r \<and> r < 1 \<longrightarrow> 0 \<le> net_id_of r \<and> net_id_of r < 2147483647)"
proof -
  let ?w1 = "set_player e (p\<lparr>arrowCount := arrowCount p - 1\<rparr>) w"
  let ?d = "min 1 (w_time w - drawTime drawState)"
  let ?sp = "spawnArrow bz vr ?d e (net_id_of r) (c, ?w1)"
  have u: "onCharacterUnuse bz r e (b, c, w) =
      (b\<lparr>p_draw := (p_draw b)(e \<mapsto> \<lparr>drawTime = 0, releaseTime = w_time w\<rparr>)\<rparr>,
       (fst ?sp)\<lparr>c_to_server := c_to_server (fst ?sp) @ [ArrowCommand vr ?d e (net_id_of r)]\<rparr>, snd ?sp)"
    using assms by (simp add: onCharacterUnuse_def Let_def case_prod_beta set_player_def)
  have "w_next ?w1 = w_next w" "w_time ?w1 = w_time w" "w_player ?w1 e = Some (p\<lparr>arrowCount := arrowCount p - 1\<rparr>)"
    by (simp_all add: set_player_def)
  then show ?thesis using u spawnArrow_entry [of bz vr ?d e "net_id_of r" c ?w1] net_id_of_range
    by auto
qed

theorem onCharacterUnuse_local_shot_witness:
  "\<exists>c2 w2. onCharacterUnuse 1 (1 / 2) 2 (demo_bow, demo_client, demo_world) =
      (demo_bow\<lparr>p_draw := [2 \<mapsto> \<lparr>drawTime = 0, releaseTime = 10\<rparr>]\<rparr>, c2, w2)
    \<and> c_to_server c2 = [ArrowCommand ((3, 6, 0), (1, 0, 0)) (1 / 2) 2 (net_id_of (1 / 2))]
    \<and> w_player w2 2 = Some (demo_player\<lparr>arrowCount := 2\<rparr>)"
proof -
  have h: "c_local demo_client = 2" "p_draw demo_bow 2 = Some \<lparr>drawTime = 9.5, releaseTime = 0\<rparr>"
    "0 < drawTime \<lparr>drawTime = 9.5::real, releaseTime = 0\<rparr>" "w_player demo_world 2 = Some demo_player"
    "0 < arrowCount demo_player" "w_view demo_world 2 = Some ((3, 6, 0), (1, 0, 0))"
    by (simp_all add: player_demo_defs)
  from onCharacterUnuse_local_shot [OF h, of 1 "1 / 2"] obtain c2 w2 where
    u: "onCharacterUnuse 1 (1 / 2) 2 (demo_bow, demo_client, demo_world) =
      (demo_bow\<lparr>p_draw := (p_draw demo_bow)(2 \<mapsto> \<lparr>drawTime = 0, releaseTime = w_time demo_world\<rparr>)\<rparr>, c2, w2)"
    and m: "c_to_server c2 = c_to_server demo_client @ [ArrowCommand ((3, 6, 0), (1, 0, 0))
      (min 1 (w_time demo_world - drawTime \<lparr>drawTime = 9.5::real, releaseTime = 0\<rparr>)) 2 (net_id_of (1 / 2))]"
    and p: "w_player w2 2 = Some (demo_player\<lparr>arrowCount := arrowCount demo_player - 1\<rparr>)"
    by blast
  show ?thesis using u m p
    by (intro exI [of _ c2] exI [of _ w2]) (simp add: demo_world_def demo_bow_def demo_client_def
      demo_player_def)
qed

text \<open>a local release with no view ray takes the arrow locally and sends nothing: the
  client's count drops while the server's does not.\<close>

theorem onCharacterUnuse_no_view_ray:
  assumes "c_local c = e" "p_draw b e = Some drawState" "0 < drawTime drawState"
    "w_player w e = Some p" "0 < arrowCount p" "w_view w e = None"
  shows "onCharacterUnuse bz r e (b, c, w) =
     (b\<lparr>p_draw := (p_draw b)(e \<mapsto> \<lparr>drawTime = 0, releaseTime = w_time w\<rparr>)\<rparr>, c,
      set_player e (p\<lparr>arrowCount := arrowCount p - 1\<rparr>) w)"
  using assms by (simp add: onCharacterUnuse_def Let_def set_player_def)

theorem onCharacterUnuse_no_view_ray_witness:
  "onCharacterUnuse 1 (1 / 2) 2 (demo_bow, demo_client, demo_world\<lparr>w_view := Map.empty\<rparr>) =
     (demo_bow\<lparr>p_draw := [2 \<mapsto> \<lparr>drawTime = 0, releaseTime = 10\<rparr>]\<rparr>, demo_client,
      set_player 2 (demo_player\<lparr>arrowCount := 2\<rparr>) (demo_world\<lparr>w_view := Map.empty\<rparr>))"
proof -
  have h: "c_local demo_client = 2" "p_draw demo_bow 2 = Some \<lparr>drawTime = 9.5, releaseTime = 0\<rparr>"
    "0 < drawTime \<lparr>drawTime = 9.5::real, releaseTime = 0\<rparr>"
    "w_player (demo_world\<lparr>w_view := Map.empty\<rparr>) 2 = Some demo_player"
    "0 < arrowCount demo_player" "w_view (demo_world\<lparr>w_view := Map.empty\<rparr>) 2 = None"
    by (simp_all add: player_demo_defs)
  from onCharacterUnuse_no_view_ray [OF h, of 1 "1 / 2"] show ?thesis
    by (simp add: demo_world_def demo_bow_def demo_player_def)
qed

text \<open>drawTime 0 doubles as "not drawing": a press at world time 0 by a player holding
  arrows records a draw at 0, and the release fires nothing.\<close>

theorem draw_at_time_zero_lost:
  assumes "w_time w = 0" "p_draw b e = Some drawState" "drawTime drawState = 0"
    "w_player w e = Some p" "0 < arrowCount p"
  shows "onCharacterUnuse bz r e (onCharacterUse e True (b, c, w)) =
     (b\<lparr>p_draw := (p_draw b)(e \<mapsto> \<lparr>drawTime = 0, releaseTime = 0\<rparr>)\<rparr>, c, w)"
  using assms by (simp add: onCharacterUse_def onCharacterUnuse_def)


theorem draw_at_time_zero_lost_witness:
  "onCharacterUnuse 1 (1 / 2) 2 (onCharacterUse 2 True
      (demo_bow\<lparr>p_draw := [2 \<mapsto> \<lparr>drawTime = 0, releaseTime = 0\<rparr>]\<rparr>, demo_client, demo_world\<lparr>w_time := 0\<rparr>)) =
   (demo_bow\<lparr>p_draw := [2 \<mapsto> \<lparr>drawTime = 0, releaseTime = 0\<rparr>]\<rparr>, demo_client, demo_world\<lparr>w_time := 0\<rparr>)"
proof -
  have h: "w_time (demo_world\<lparr>w_time := 0\<rparr>) = 0"
    "p_draw (demo_bow\<lparr>p_draw := [2 \<mapsto> \<lparr>drawTime = 0, releaseTime = 0\<rparr>]\<rparr>) 2 = Some \<lparr>drawTime = 0, releaseTime = 0\<rparr>"
    "drawTime \<lparr>drawTime = 0::real, releaseTime = 0\<rparr> = 0"
    "w_player (demo_world\<lparr>w_time := 0\<rparr>) 2 = Some demo_player" "0 < arrowCount demo_player"
    by (simp_all add: player_demo_defs)
  from draw_at_time_zero_lost [OF h, of 1 "1 / 2" demo_client] show ?thesis by simp
qed

text \<open>C27: a tick in which the local player is dead hides the crosshair and clears its
  draw, so a release after the respawn fires nothing until a new press.\<close>

theorem player_tick_dead_disarms:
  assumes "c_local c \<in> set (players_of w)" "p_draw b (c_local c) \<noteq> None" "\<not> w_alive w (c_local c)"
  shows "\<exists>s'. player_tick inb t (b, c, w) = Ok s' \<and> \<not> local_armed s'
     \<and> p_crosshair (fst s') = CrosshairHidden \<and> onCharacterUnuse bz r (c_local c) s' = s'"
proof -
  have "\<exists>s'. player_tick inb t (b, c, w) = Ok s'"
    using player_tick_loop_ok by (simp add: player_tick_def del: split_paired_Ex)
  then obtain s' where r: "player_tick inb t (b, c, w) = Ok s'" by blast
  have "dead_disarmed s'"
    using player_tick_loop_dead [of "(b, c, w)" "c_local c" "players_of w" inb t
        "isInTutorialArea (c_local c) w"] assms r
    by (simp add: player_tick_def)
  moreover have "c_local (fst (snd s')) = c_local c"
    using player_tick_no_shot [of "(b, c, w)" inb t] r by (simp add: no_new_shot_def)
  ultimately show ?thesis using r unuse_disarmed [of s' bz r] by (auto simp: dead_disarmed_def)
qed

theorem player_tick_dead_disarms_witness:
  "\<exists>s'. player_tick (\<lambda>_. True) 11 (demo_bow, demo_client, demo_world\<lparr>w_alive := (\<lambda>e. e \<in> {1, 3})\<rparr>) = Ok s'
     \<and> \<not> local_armed s' \<and> p_crosshair (fst s') = CrosshairHidden"
proof -
  have h: "c_local demo_client \<in> set (players_of (demo_world\<lparr>w_alive := (\<lambda>e. e \<in> {1, 3})\<rparr>))"
    "p_draw demo_bow (c_local demo_client) \<noteq> None"
    "\<not> w_alive (demo_world\<lparr>w_alive := (\<lambda>e. e \<in> {1, 3})\<rparr>) (c_local demo_client)"
    by (simp_all add: player_demo_defs players_of_def)
  from player_tick_dead_disarms [OF h, of "\<lambda>_. True" 11 1 "1 / 2"] show ?thesis by blast
qed

end
