(* ===== verification/UI.thy ===== *)
theory UI
  imports Host "HOL-Library.Multiset"
begin

text \<open>
  \<open>src/project/client/ui.ts\<close> and \<open>progression.ts\<close>: the client's heads-up display. The
  record \<open>ui_state\<close> holds the module variables of ui.ts that the game logic updates: the
  game start time, the last time the local player was alive, the death message, the arrow
  count last shown and the wobble start times of the three arrow indicators, the leaderboard
  key, the notification and the kill feed. HTML strings are recorded by what they show: a
  death message is a \<open>death_message\<close>, a kill notification a \<open>kill_notice\<close> (its flavor
  entry of \<open>killStreakData\<close>, the streak shown and the victim) with its \<open>notice_style\<close>.
  The leaderboard is computed afresh each tick from the player traits and only rendered, so
  it is a function of the world. What the tick writes to the page (opacities, colours,
  scales, the rows shown) is theory \<open>HUD\<close>.
\<close>

subsection \<open>State (ui.ts lines 6-33)\<close>

record feed_entry =
  killerName :: string
  victimName :: string
  startTime :: real
  endTime :: real
  isLocalPlayerKiller :: bool
  isEnvironmental :: bool

datatype death_message = NoDeathMessage | FellOutOfBounds | HitYourself | KilledBy string

datatype notice_style = NoStyle | EntryStyle nat | RainbowStyle int

record kill_notice =
  flavorIndex :: nat
  streakText :: "int option"
  noticeVictim :: string

record ui_state =
  gameStartTime :: real
  lastTimeAlive :: real
  deathMessage :: death_message
  lastArrowCount :: int
  arrowWobbleStartTimes :: "real list"
  isTabPressed :: bool
  notificationText :: "kill_notice option"
  notificationEndTime :: real
  notificationCustomStyle :: notice_style
  notificationStartTime :: real
  killFeedEntries :: "feed_entry list"

text \<open>The initial values of the module variables.\<close>

definition ui_init :: ui_state where
  "ui_init = \<lparr>gameStartTime = 0, lastTimeAlive = 0, deathMessage = NoDeathMessage, lastArrowCount = 3,
     arrowWobbleStartTimes = [0, 0, 0], isTabPressed = False, notificationText = None,
     notificationEndTime = 0, notificationCustomStyle = NoStyle, notificationStartTime = 0,
     killFeedEntries = []\<rparr>"

text \<open>The game start creates three arrow indicators (lines 69-71).\<close>

definition arrowIndicatorCount :: nat where
  "arrowIndicatorCount = 3"

subsection \<open>Kill feed and notifications (lines 35-59)\<close>

definition addKillFeedEntry :: "string \<Rightarrow> string \<Rightarrow> bool \<Rightarrow> bool \<Rightarrow> real \<Rightarrow> ui_state \<Rightarrow> ui_state" where
  "addKillFeedEntry killer victim isLocal isEnv currentTime ui =
     (let entries = killFeedEntries ui @ [\<lparr>killerName = killer, victimName = victim,
            startTime = currentTime, endTime = currentTime + 5, isLocalPlayerKiller = isLocal,
            isEnvironmental = isEnv\<rparr>]
      in ui\<lparr>killFeedEntries := (if 10 < length entries then tl entries else entries)\<rparr>)"

definition showNotification :: "kill_notice \<Rightarrow> real \<Rightarrow> notice_style \<Rightarrow> real \<Rightarrow> ui_state \<Rightarrow> ui_state" where
  "showNotification text duration customStyle currentTime ui =
     ui\<lparr>notificationText := Some text, notificationStartTime := currentTime,
       notificationEndTime := currentTime + duration, notificationCustomStyle := customStyle\<rparr>"

subsection \<open>progression.ts: onKill (lines 5-118)\<close>

text \<open>\<open>killStreakData\<close> has 22 entries (0 to 21 kills); their emoji texts and styles are
  recorded by their index. \<open>killStreakData[index]\<close> with a negative index is
  \<open>undefined\<close>, and reading its \<open>text\<close> throws. Beyond the table the style is the
  rainbow one with font size \<open>33 + extraScale\<close>.\<close>

definition killStreakDataLength :: int where
  "killStreakDataLength = 22"

definition onKill :: "string \<Rightarrow> int \<Rightarrow> real \<Rightarrow> ui_state \<Rightarrow> ui_state js_result" where
  "onKill victim streakCount currentTime ui =
     (let streak = (if 2 \<le> streakCount then Some streakCount else None);
          index = min streakCount (killStreakDataLength - 1)
      in if index < 0 then Raised ui
         else
           (let customStyle =
                  (if killStreakDataLength - 1 < streakCount
                   then RainbowStyle (33 + min 5 (streakCount - killStreakDataLength + 1))
                   else EntryStyle (nat index))
            in Ok (showNotification \<lparr>flavorIndex = nat index, streakText = streak, noticeVictim = victim\<rparr>
                     2 customStyle currentTime ui)))"

subsection \<open>The listeners (lines 503-545)\<close>

text \<open>\<open>trait?.name || "Unknown"\<close>: a missing trait and an empty name both read as
  Unknown; \<open>substring(0, 16)\<close> is \<open>take 16\<close>.\<close>

definition name_or_unknown :: "world \<Rightarrow> eid \<Rightarrow> string" where
  "name_or_unknown w e = (case w_player w e of
     None \<Rightarrow> ''Unknown'' | Some t \<Rightarrow> if name t = [] then ''Unknown'' else name t)"

text \<open>\<open>killerTrait?.killStreak || 1\<close>: a missing trait or a streak of 0 reads as 1.\<close>

definition streak_or_one :: "world \<Rightarrow> eid \<Rightarrow> int" where
  "streak_or_one w e = (case w_player w e of
     None \<Rightarrow> 1 | Some t \<Rightarrow> if killStreak t = 0 then 1 else killStreak t)"

definition onHitCommandUI :: "eid \<Rightarrow> eid \<Rightarrow> eid \<Rightarrow> world \<Rightarrow> ui_state \<Rightarrow> ui_state js_result" where
  "onHitCommandUI localPlayerId attackerId victimId w ui =
     (let killer = name_or_unknown w attackerId;
          victim = name_or_unknown w victimId;
          ui1 = addKillFeedEntry (take 16 killer) (take 16 victim) (attackerId = localPlayerId) False
                  (w_time w) ui;
          r = (if attackerId = localPlayerId \<and> victimId \<noteq> localPlayerId
               then onKill victim (streak_or_one w attackerId) (w_time w) ui1
               else Ok ui1)
      in case r of
           Raised u \<Rightarrow> Raised u
         | Ok ui2 \<Rightarrow>
             Ok (if victimId = localPlayerId
                 then ui2\<lparr>deathMessage := (if attackerId = localPlayerId then HitYourself
                                           else KilledBy (take 16 killer))\<rparr>
                 else ui2))"

definition onEnvironmentalDeathUI :: "eid \<Rightarrow> world \<Rightarrow> ui_state \<Rightarrow> ui_state" where
  "onEnvironmentalDeathUI victimId w ui =
     addKillFeedEntry '''' (take 16 (name_or_unknown w victimId)) False True (w_time w) ui"

text \<open>The R key holds the full leaderboard (lines 549-559).\<close>

definition onKeyDown :: "string \<Rightarrow> ui_state \<Rightarrow> ui_state" where
  "onKeyDown key ui = (if key = ''r'' \<or> key = ''R'' then ui\<lparr>isTabPressed := True\<rparr> else ui)"

definition onKeyUp :: "string \<Rightarrow> ui_state \<Rightarrow> ui_state" where
  "onKeyUp key ui = (if key = ''r'' \<or> key = ''R'' then ui\<lparr>isTabPressed := False\<rparr> else ui)"

subsection \<open>The tick (lines 188-500)\<close>

text \<open>Lines 206-213: a change of the arrow count starts the wobble of the indicator at
  the lower of the two counts when it is one of the three.\<close>

definition arrow_count_change :: "real \<Rightarrow> int \<Rightarrow> ui_state \<Rightarrow> ui_state" where
  "arrow_count_change t newCount ui =
     (if newCount \<noteq> lastArrowCount ui then
        (let changedIndex = min newCount (lastArrowCount ui);
             ws = arrowWobbleStartTimes ui
         in ui\<lparr>arrowWobbleStartTimes :=
                 (if 0 \<le> changedIndex \<and> changedIndex < int arrowIndicatorCount
                  then ws[nat changedIndex := t] else ws),
               lastArrowCount := newCount\<rparr>)
      else ui)"

text \<open>Lines 224-240: the loop ends every wobble older than 0.4 s. The wobble array always has
  the three entries the loop visits.\<close>

definition wobble_reset :: "real \<Rightarrow> ui_state \<Rightarrow> ui_state" where
  "wobble_reset t ui =
     ui\<lparr>arrowWobbleStartTimes :=
         map (\<lambda>wobbleStart. if 0 < wobbleStart \<and> \<not> t - wobbleStart < 0.4 then 0 else wobbleStart)
           (arrowWobbleStartTimes ui)\<rparr>"

definition arrow_indicator_update :: "real \<Rightarrow> int \<Rightarrow> ui_state \<Rightarrow> ui_state" where
  "arrow_indicator_update t newCount ui = wobble_reset t (arrow_count_change t newCount ui)"

definition ui_tick :: "eid \<Rightarrow> real \<Rightarrow> world \<Rightarrow> ui_state \<Rightarrow> ui_state" where
  "ui_tick localPlayerId t w ui =
     (if localPlayerId = 0 then ui
      else case w_player w localPlayerId of
        None \<Rightarrow> ui
      | Some player \<Rightarrow>
          (let ui1 = (if w_alive w localPlayerId
                      then arrow_indicator_update t (arrowCount player) (ui\<lparr>lastTimeAlive := t\<rparr>)
                      else ui)
           in ui1\<lparr>killFeedEntries := filter (\<lambda>entry. t < endTime entry) (killFeedEntries ui1)\<rparr>))"

text \<open>Line 295: the notification shows while the player is alive and it has not ended.\<close>

definition notification_shown :: "eid \<Rightarrow> real \<Rightarrow> world \<Rightarrow> ui_state \<Rightarrow> bool" where
  "notification_shown localPlayerId t w ui \<longleftrightarrow> w_alive w localPlayerId \<and> t < notificationEndTime ui"

subsection \<open>The leaderboard (lines 333-390)\<close>

record player_stat =
  stat_id :: eid
  stat_name :: string
  stat_kills :: int
  stat_deaths :: int
  stat_killStreak :: int

definition player_stats :: "world \<Rightarrow> player_stat list" where
  "player_stats w = List.map_filter (\<lambda>e. map_option (\<lambda>t. \<lparr>stat_id = e, stat_name = name t,
     stat_kills = kills t, stat_deaths = deathCount t, stat_killStreak = killStreak t\<rparr>) (w_player w e))
     (players_of w)"

text \<open>\<open>playerStats.sort((a, b) => b.kills - a.kills)\<close>: \<open>Array.prototype.sort\<close> is stable,
  so this is the stable sort by descending kills.\<close>

definition leaderboard_order :: "world \<Rightarrow> player_stat list" where
  "leaderboard_order w = sort_key (\<lambda>s. - stat_kills s) (player_stats w)"

record lb_row =
  row_rank :: nat
  row_local :: bool
  row_crown :: bool
  row_name :: string
  row_deaths :: int
  row_kills :: int
  row_streak :: "int option"

definition leaderboard_rows :: "eid \<Rightarrow> bool \<Rightarrow> world \<Rightarrow> lb_row list" where
  "leaderboard_rows localPlayerId tabPressed w =
     (let topPlayers = take (if tabPressed then 10 else 5) (leaderboard_order w)
      in map (\<lambda>(index, p). \<lparr>row_rank = index + 1, row_local = (stat_id p = localPlayerId),
               row_crown = (index = 0), row_name = take 16 (stat_name p), row_deaths = stat_deaths p,
               row_kills = stat_kills p,
               row_streak = (if 2 \<le> stat_killStreak p then Some (stat_killStreak p) else None)\<rparr>)
           (enumerate 0 topPlayers))"

text \<open>The player-count line under the short leaderboard.\<close>

definition player_count_line :: "bool \<Rightarrow> world \<Rightarrow> nat option" where
  "player_count_line tabPressed w = (if tabPressed then None else Some (length (player_stats w)))"

subsection \<open>The HUD as one event machine\<close>

datatype ui_event =
    UIGameStart
  | UITick real
  | UIHit eid eid
  | UIEnvDeath eid
  | UIKeyDown string
  | UIKeyUp string

text \<open>\<open>J.onGameStart\<close> records the start time (line 62) and builds the DOM.\<close>

fun ui_step :: "eid \<Rightarrow> world \<Rightarrow> ui_event \<Rightarrow> ui_state \<Rightarrow> ui_state" where
  "ui_step l w UIGameStart ui = ui\<lparr>gameStartTime := w_time w\<rparr>"
| "ui_step l w (UITick t) ui = ui_tick l t w ui"
| "ui_step l w (UIHit a v) ui = js_state (onHitCommandUI l a v w ui)"
| "ui_step l w (UIEnvDeath v) ui = onEnvironmentalDeathUI v w ui"
| "ui_step l w (UIKeyDown k) ui = onKeyDown k ui"
| "ui_step l w (UIKeyUp k) ui = onKeyUp k ui"

definition ui_run :: "eid \<Rightarrow> (world \<times> ui_event) list \<Rightarrow> ui_state \<Rightarrow> ui_state" where
  "ui_run l evs ui = foldl (\<lambda>u (w, ev). ui_step l w ev u) ui evs"


subsection \<open>The kill feed holds at most ten entries\<close>

lemma addKillFeedEntry_length:
  "length (killFeedEntries ui) \<le> 10 \<Longrightarrow>
     length (killFeedEntries (addKillFeedEntry k v il ie now ui)) \<le> 10"
  by (simp add: addKillFeedEntry_def Let_def)

lemma addKillFeedEntry_last:
  "last (killFeedEntries (addKillFeedEntry k v il ie now ui)) =
     \<lparr>killerName = k, victimName = v, startTime = now, endTime = now + 5, isLocalPlayerKiller = il,
      isEnvironmental = ie\<rparr>"
  by (cases "killFeedEntries ui") (simp_all add: addKillFeedEntry_def Let_def)

lemma onKill_feed: "killFeedEntries (js_state (onKill v k now ui)) = killFeedEntries ui"
  by (simp add: onKill_def showNotification_def Let_def)

lemma onHitCommandUI_feed:
  "killFeedEntries (js_state (onHitCommandUI l a v w ui)) =
     killFeedEntries (addKillFeedEntry (take 16 (name_or_unknown w a)) (take 16 (name_or_unknown w v))
       (a = l) False (w_time w) ui)"
  using onKill_feed
  by (simp add: onHitCommandUI_def Let_def split: js_result.splits) (metis js_state.simps)

lemma arrow_indicator_update_feed [simp]:
  "killFeedEntries (arrow_indicator_update t n ui) = killFeedEntries ui"
  by (simp add: arrow_indicator_update_def arrow_count_change_def wobble_reset_def Let_def)

lemma ui_tick_feed:
  "killFeedEntries (ui_tick l t w ui) = killFeedEntries ui
   \<or> killFeedEntries (ui_tick l t w ui) = filter (\<lambda>entry. t < endTime entry) (killFeedEntries ui)"
  by (simp add: ui_tick_def Let_def split: option.splits)

lemma ui_step_feed_length:
  "length (killFeedEntries ui) \<le> 10 \<Longrightarrow> length (killFeedEntries (ui_step l w ev ui)) \<le> 10"
proof (cases ev)
  case (UITick t)
  assume "length (killFeedEntries ui) \<le> 10"
  then show ?thesis using UITick ui_tick_feed [of l t w ui]
    by (auto intro: order_trans [OF length_filter_le])
qed (simp_all add: onHitCommandUI_feed addKillFeedEntry_length onEnvironmentalDeathUI_def
       onKeyDown_def onKeyUp_def)

subsection \<open>The kill feed keeps the ten most recent entries\<close>

text \<open>The reference: the last \<open>n\<close> elements of a list.\<close>

definition last_n :: "nat \<Rightarrow> 'a list \<Rightarrow> 'a list" where
  "last_n n xs = drop (length xs - n) xs"

text \<open>A kill-feed addition as its arguments, and the entry it records.\<close>

type_synonym feed_add = "string \<times> string \<times> bool \<times> bool \<times> real"

definition feed_entry_of :: "feed_add \<Rightarrow> feed_entry" where
  "feed_entry_of a = (case a of (k, v, il, ie, now) \<Rightarrow> \<lparr>killerName = k, victimName = v, startTime = now,
     endTime = now + 5, isLocalPlayerKiller = il, isEnvironmental = ie\<rparr>)"

definition add_feed :: "ui_state \<Rightarrow> feed_add \<Rightarrow> ui_state" where
  "add_feed ui a = (case a of (k, v, il, ie, now) \<Rightarrow> addKillFeedEntry k v il ie now ui)"

lemma add_feed_entries:
  "killFeedEntries (add_feed ui a) =
     (let entries = killFeedEntries ui @ [feed_entry_of a]
      in if 10 < length entries then tl entries else entries)"
  by (cases a) (simp add: add_feed_def addKillFeedEntry_def feed_entry_of_def Let_def)

lemma last_n_short: "length xs \<le> n \<Longrightarrow> last_n n xs = xs"
  by (simp add: last_n_def)

lemma trim_is_last_n:
  assumes "length xs \<le> 10"
  shows "(if 10 < length (xs @ [e]) then tl (xs @ [e]) else xs @ [e]) = last_n 10 (xs @ [e])"
proof (cases "10 < length (xs @ [e])")
  case True
  then have "length xs = 10" "xs \<noteq> []" using assms by auto
  then show ?thesis by (simp add: last_n_def drop_Suc)
qed (simp add: last_n_short)

lemma last_n_rev: "last_n n xs = rev (take n (rev xs))"
  by (simp add: last_n_def take_rev)

lemma last_n_append: "last_n n (last_n n ys @ zs) = last_n n (ys @ zs)"
  by (simp add: last_n_rev take_append)

subsection \<open>The leaderboard\<close>

lemma map_enumerate_snd: "map (\<lambda>x. f (snd x)) (enumerate n ys) = map f ys"
  by (induction ys arbitrary: n) auto

lemma map_enumerate_fst: "map (\<lambda>x. f (fst x)) (enumerate n ys) = map f [n..<n + length ys]"
proof -
  have "map (\<lambda>x. f (fst x)) (enumerate n ys) = map f (map fst (enumerate n ys))"
    by (simp only: map_map comp_def)
  also have "map fst (enumerate n ys) = [n..<n + length ys]" by (simp add: enumerate_eq_zip)
  finally show ?thesis .
qed

lemma leaderboard_rows_fields:
  "map row_kills (leaderboard_rows l tab w) = map stat_kills (take (if tab then 10 else 5) (leaderboard_order w))"
  "map row_rank (leaderboard_rows l tab w) = [1..<length (leaderboard_rows l tab w) + 1]"
  "length (leaderboard_rows l tab w) = min (if tab then 10 else 5) (length (player_stats w))"
  by (simp_all add: leaderboard_rows_def Let_def case_prod_beta comp_def map_enumerate_snd
      map_enumerate_fst map_Suc_upt leaderboard_order_def)

lemma leaderboard_order_sorted:
  "sorted (map (\<lambda>s. - stat_kills s) (leaderboard_order w))"
  by (simp add: leaderboard_order_def)


lemma leaderboard_order_stable:
  "filter (\<lambda>s. stat_kills s = k) (leaderboard_order w) = filter (\<lambda>s. stat_kills s = k) (player_stats w)"
proof -
  show ?thesis using sort_key_stable [of "\<lambda>s. - stat_kills s" "- k" "player_stats w"]
    by (simp add: leaderboard_order_def)
qed

lemma sorted_take_drop_le:
  "sorted (map f xs) \<Longrightarrow> x \<in> set (take n xs) \<Longrightarrow> y \<in> set (drop n xs) \<Longrightarrow> f x \<le> f y"
  using sorted_append [of "map f (take n xs)" "map f (drop n xs)"]
  by (simp add: map_append [symmetric] del: map_append)

lemma onKill_result:
  "onKill v k now ui = (if k < 0 then Raised ui
     else Ok (showNotification \<lparr>flavorIndex = nat (min k 21), streakText = (if 2 \<le> k then Some k else None),
                noticeVictim = v\<rparr> 2 (if 21 < k then RainbowStyle (33 + min 5 (k - 21)) else EntryStyle (nat k))
                now ui))"
  by (auto simp: onKill_def killStreakDataLength_def Let_def min_def)

subsection \<open>Fixtures\<close>

lemmas ui_demo_defs = ui_init_def demo_world_def demo_player_def

subsection \<open>Properties\<close>

text \<open>C32: whatever the client sees, the kill feed never holds more than ten entries, and a
  reported hit always becomes its newest entry, with both names cut to 16 characters.\<close>

theorem kill_feed_bounded:
  assumes "length (killFeedEntries ui) \<le> 10"
  shows "length (killFeedEntries (ui_run l evs ui)) \<le> 10
     \<and> last (killFeedEntries (ui_step l w (UIHit a v) ui)) =
         \<lparr>killerName = take 16 (name_or_unknown w a), victimName = take 16 (name_or_unknown w v),
          startTime = w_time w, endTime = w_time w + 5, isLocalPlayerKiller = (a = l),
          isEnvironmental = False\<rparr>"
proof (rule conjI)
  show "length (killFeedEntries (ui_run l evs ui)) \<le> 10" using assms
  proof (induction evs arbitrary: ui)
    case (Cons e evs)
    then show ?case using ui_step_feed_length [OF Cons.prems, of l "fst e" "snd e"]
      by (cases e) (simp add: ui_run_def)
  qed (simp add: ui_run_def)
qed (simp add: onHitCommandUI_feed addKillFeedEntry_last)

theorem kill_feed_bounded_witness:
  "length (killFeedEntries (ui_run 2 [(demo_world, UIHit 2 3), (demo_world, UITick 20)] ui_init)) \<le> 10
   \<and> victimName (last (killFeedEntries (ui_step 2 demo_world (UIHit 2 3) ui_init))) = ''Legolas''"
  using kill_feed_bounded [of ui_init 2 "[(demo_world, UIHit 2 3), (demo_world, UITick 20)]" demo_world 2 3]
  by (simp add: ui_demo_defs name_or_unknown_def)

text \<open>C34: the leaderboard is the stable sort of the players by descending kills: it is a
  permutation of the players, sorted, keeps players with equal kills in store order, shows
  the first five (ten while R is held) ranked from 1, and no player left off has more kills
  than a player shown.\<close>

theorem leaderboard_top:
  "mset (leaderboard_order w) = mset (player_stats w)
   \<and> sorted (map (\<lambda>s. - stat_kills s) (leaderboard_order w))
   \<and> (\<forall>k. filter (\<lambda>s. stat_kills s = k) (leaderboard_order w) = filter (\<lambda>s. stat_kills s = k) (player_stats w))
   \<and> length (leaderboard_rows l tab w) = min (if tab then 10 else 5) (length (player_stats w))
   \<and> map row_rank (leaderboard_rows l tab w) = [1..<length (leaderboard_rows l tab w) + 1]
   \<and> (\<forall>r \<in> set (leaderboard_rows l tab w). \<forall>s \<in> set (drop (if tab then 10 else 5) (leaderboard_order w)).
        stat_kills s \<le> row_kills r)"
proof (intro conjI allI ballI)
  fix r s
  assume r: "r \<in> set (leaderboard_rows l tab w)"
    and s: "s \<in> set (drop (if tab then 10 else 5) (leaderboard_order w))"
  have "row_kills r \<in> set (map stat_kills (take (if tab then 10 else 5) (leaderboard_order w)))"
    using r leaderboard_rows_fields(1) [of l tab w] by (metis image_eqI list.set_map)
  then obtain p where p: "p \<in> set (take (if tab then 10 else 5) (leaderboard_order w))" "row_kills r = stat_kills p"
    by auto
  show "stat_kills s \<le> row_kills r"
    using sorted_take_drop_le [OF leaderboard_order_sorted p(1) s] p(2) by simp
qed (simp_all add: leaderboard_order_def leaderboard_order_stable [unfolded leaderboard_order_def]
       leaderboard_rows_fields)

theorem leaderboard_top_witness:
  "length (leaderboard_rows 2 False demo_world) = 3"
  using leaderboard_top [of demo_world 2 False]
  by (simp add: demo_world_def player_stats_def players_of_def List.map_filter_def)

text \<open>a kill notification never reads past the 22 entries of killStreakData: onKill
  throws exactly for a negative streak; otherwise it shows the victim for two seconds with a
  flavor entry of the table, and beyond the table the rainbow font size stays in 34..38.\<close>

theorem onKill_in_table:
  "(onKill v k now ui = Raised ui \<longleftrightarrow> k < 0)
   \<and> (0 \<le> k \<longrightarrow> (\<exists>ui'. onKill v k now ui = Ok ui'
        \<and> (\<exists>n. notificationText ui' = Some n \<and> flavorIndex n < 22 \<and> noticeVictim n = v)
        \<and> notificationEndTime ui' = now + 2
        \<and> (\<forall>fs. notificationCustomStyle ui' = RainbowStyle fs \<longrightarrow> 34 \<le> fs \<and> fs \<le> 38)))"
  by (auto simp: onKill_result showNotification_def)

theorem onKill_in_table_witness:
  "\<exists>ui'. onKill ''Legolas'' 25 7 ui_init = Ok ui' \<and> notificationCustomStyle ui' = RainbowStyle 37"
  using onKill_in_table [of "''Legolas''" 25 7 ui_init]
  by (simp add: onKill_result showNotification_def)

text \<open>C33: the kill feed's push-and-shift keeps exactly the ten most recent entries: any
  sequence of additions to a feed of at most ten entries leaves the last ten of all entries
  in the order they were added.\<close>

theorem kill_feed_recent:
  assumes "length (killFeedEntries ui) \<le> 10"
  shows "killFeedEntries (foldl add_feed ui adds) = last_n 10 (killFeedEntries ui @ map feed_entry_of adds)"
  using assms
proof (induction adds arbitrary: ui)
  case Nil
  then show ?case by (simp add: last_n_short)
next
  case (Cons a adds)
  have step: "killFeedEntries (add_feed ui a) = last_n 10 (killFeedEntries ui @ [feed_entry_of a])"
    using trim_is_last_n [OF Cons.prems] by (simp add: add_feed_entries Let_def)
  have "length (killFeedEntries (add_feed ui a)) \<le> 10"
    using Cons.prems by (cases a) (simp add: add_feed_def addKillFeedEntry_length)
  then have "killFeedEntries (foldl add_feed (add_feed ui a) adds) =
      last_n 10 (killFeedEntries (add_feed ui a) @ map feed_entry_of adds)"
    by (rule Cons.IH)
  also have "\<dots> = last_n 10 (killFeedEntries ui @ map feed_entry_of (a # adds))"
    unfolding step by (simp add: last_n_append)
  finally show ?case by simp
qed

theorem kill_feed_recent_witness:
  "map startTime (killFeedEntries (foldl add_feed ui_init
     (map (\<lambda>n. ('''', '''', False, True, of_nat n)) [1..<13]))) = map of_nat [3..<13]"
  using kill_feed_recent [of ui_init "map (\<lambda>n. ('''', '''', False, True, of_nat n)) [1..<13]"]
  by (simp add: ui_init_def last_n_def feed_entry_of_def upt_rec)

end
