(* ===== verification/Nameplates.thy ===== *)
theory Nameplates
  imports UI
begin

text \<open>
  \<open>src/project/client/nameplates.ts\<close>: every tick each client finds the player with the
  most kills (the first one in store order among equals, if that maximum is above 0) and
  sets every named player's nameplate, with a crown and gold text for that player. The
  nameplates are the engine state \<open>J.setCharacterNameplate\<close> writes, recorded per entity
  as whether it is crowned and the name shown (\<open>displayName\<close> is the crown and the name;
  the colour follows the crown).
\<close>

subsection \<open>Finding the top player (lines 5-17)\<close>

text \<open>\<open>J.getAllWithTraits([PlayerTrait])\<close> as the \<open>[id, trait]\<close> pairs it returns.\<close>

definition player_entries :: "world \<Rightarrow> (eid \<times> player_trait) list" where
  "player_entries w = List.map_filter (\<lambda>e. map_option (Pair e) (w_player w e)) (players_of w)"

fun top_player_loop :: "(eid \<times> player_trait) list \<Rightarrow> eid option \<Rightarrow> int \<Rightarrow> eid option \<times> int" where
  "top_player_loop [] topPlayerId maxKills = (topPlayerId, maxKills)"
| "top_player_loop ((playerId, trait) # rest) topPlayerId maxKills =
     (if maxKills < kills trait then top_player_loop rest (Some playerId) (kills trait)
      else top_player_loop rest topPlayerId maxKills)"

subsection \<open>Setting the nameplates (lines 19-27)\<close>

record nameplate =
  np_crowned :: bool
  np_name :: string

fun nameplate_loop :: "eid option \<Rightarrow> int \<Rightarrow> (eid \<times> player_trait) list \<Rightarrow>
                       (eid \<Rightarrow> nameplate option) \<Rightarrow> (eid \<Rightarrow> nameplate option)" where
  "nameplate_loop topPlayerId maxKills [] plates = plates"
| "nameplate_loop topPlayerId maxKills ((playerId, trait) # rest) plates =
     nameplate_loop topPlayerId maxKills rest
       (if name trait \<noteq> [] then
          plates(playerId \<mapsto> \<lparr>np_crowned = (Some playerId = topPlayerId \<and> 0 < maxKills), np_name = name trait\<rparr>)
        else plates)"

definition nameplates_tick :: "world \<Rightarrow> (eid \<Rightarrow> nameplate option) \<Rightarrow> (eid \<Rightarrow> nameplate option)" where
  "nameplates_tick w plates =
     (let players = player_entries w;
          (topPlayerId, maxKills) = top_player_loop players None (-1)
      in nameplate_loop topPlayerId maxKills players plates)"

subsection \<open>The scan computes the first maximum\<close>

lemma argmin_first_snoc:
  "argmin_first f (xs @ [x]) =
     (case argmin_first f xs of None \<Rightarrow> Some x | Some y \<Rightarrow> if f x < f y then Some x else Some y)"
  by (induction xs) (auto split: option.splits)

lemma argmin_first_map:
  "argmin_first f (map g xs) = map_option g (argmin_first (\<lambda>x. f (g x)) xs)"
  by (induction xs) (auto split: option.splits)

lemma hd_sort_key_argmin:
  fixes f :: "'a \<Rightarrow> int"
  shows "xs \<noteq> [] \<Longrightarrow> argmin_first (\<lambda>x. of_int (f x)) xs = Some (hd (sort_key f xs))"
proof (induction xs)
  case (Cons a xs)
  show ?case
  proof (cases xs)
    case Nil
    then show ?thesis by simp
  next
    case (Cons b bs)
    then obtain y ys where s: "sort_key f xs = y # ys"
      by (cases "sort_key f xs") auto
    with Cons Cons.IH show ?thesis by auto
  qed
qed simp

lemma top_player_loop_snoc:
  "top_player_loop (xs @ [(e, t)]) tp m =
     (case top_player_loop xs tp m of (tp', m') \<Rightarrow> if m' < kills t then (Some e, kills t) else (tp', m'))"
  by (induction xs tp m rule: top_player_loop.induct) auto

abbreviation kills_key :: "eid \<times> player_trait \<Rightarrow> real" where
  "kills_key p \<equiv> of_int (- kills (snd p))"

lemma top_player_loop_argmax:
  "top_player_loop xs tp m =
     (case argmin_first kills_key xs of
        None \<Rightarrow> (tp, m)
      | Some y \<Rightarrow> if m < kills (snd y) then (Some (fst y), kills (snd y)) else (tp, m))"
proof (induction xs rule: rev_induct)
  case (snoc x xs)
  obtain e t where x: "x = (e, t)" by (cases x)
  show ?case using snoc
    by (auto simp: x top_player_loop_snoc argmin_first_snoc split: option.splits)
qed simp

subsection \<open>Nameplates and the leaderboard read the same traits\<close>

lemma map_filter_option_map:
  "List.map_filter (\<lambda>e. map_option (F e) (P e)) L =
     map (\<lambda>(e, t). F e t) (List.map_filter (\<lambda>e. map_option (Pair e) (P e)) L)"
  by (induction L) (auto simp: List.map_filter_def split: option.splits)

lemma player_stats_entries:
  "player_stats w = map (\<lambda>(e, t). \<lparr>stat_id = e, stat_name = name t, stat_kills = kills t,
     stat_deaths = deathCount t, stat_killStreak = killStreak t\<rparr>) (player_entries w)"
  unfolding player_stats_def player_entries_def by (rule map_filter_option_map)

lemma player_entries_trait: "(e, t) \<in> set (player_entries w) \<Longrightarrow> w_player w e = Some t"
  by (auto simp: player_entries_def List.map_filter_def)

lemma player_entries_intro:
  "e \<in> set (players_of w) \<Longrightarrow> w_player w e = Some t \<Longrightarrow> (e, t) \<in> set (player_entries w)"
  by (force simp: player_entries_def List.map_filter_def)

lemma hd_leaderboard_order:
  assumes "argmin_first kills_key (player_entries w) = Some y"
  shows "stat_id (hd (leaderboard_order w)) = fst y \<and> stat_kills (hd (leaderboard_order w)) = kills (snd y)"
proof -
  have ne: "player_stats w \<noteq> []" using assms by (auto simp: player_stats_entries)
  have "(\<lambda>x. of_int (- stat_kills ((\<lambda>(e, t). \<lparr>stat_id = e, stat_name = name t, stat_kills = kills t,
          stat_deaths = deathCount t, stat_killStreak = killStreak t\<rparr>) x))) = kills_key"
    by (auto simp: case_prod_beta)
  then have "argmin_first (\<lambda>s. of_int (- stat_kills s)) (player_stats w) =
      Some (\<lparr>stat_id = fst y, stat_name = name (snd y), stat_kills = kills (snd y),
             stat_deaths = deathCount (snd y), stat_killStreak = killStreak (snd y)\<rparr>)"
    using assms by (simp add: player_stats_entries argmin_first_map case_prod_beta)
  then have "hd (leaderboard_order w) = \<lparr>stat_id = fst y, stat_name = name (snd y), stat_kills = kills (snd y),
      stat_deaths = deathCount (snd y), stat_killStreak = killStreak (snd y)\<rparr>"
    using hd_sort_key_argmin [OF ne, of "\<lambda>s. - stat_kills s"] by (simp add: leaderboard_order_def)
  then show ?thesis by simp
qed

lemma leaderboard_first_crowned:
  "leaderboard_rows l tab w \<noteq> [] \<Longrightarrow> row_crown (hd (leaderboard_rows l tab w))"
  by (cases "take (if tab then 10 else 5) (leaderboard_order w)")
    (auto simp: leaderboard_rows_def Let_def)

lemma nameplate_loop_keep:
  "pl e = Some np \<Longrightarrow> np_crowned np = (Some e = tp \<and> 0 < m) \<Longrightarrow>
     \<exists>np'. nameplate_loop tp m xs pl e = Some np' \<and> np_crowned np' = (Some e = tp \<and> 0 < m)"
proof (induction xs arbitrary: pl np)
  case (Cons q qs)
  obtain a b where q: "q = (a, b)" by (cases q)
  show ?case
  proof (cases "name b \<noteq> [] \<and> a = e")
    case True
    let ?n = "\<lparr>np_crowned = (Some a = tp \<and> 0 < m), np_name = name b\<rparr>"
    have "\<exists>np'. nameplate_loop tp m qs (pl(a \<mapsto> ?n)) e = Some np' \<and> np_crowned np' = (Some e = tp \<and> 0 < m)"
      using True by (intro Cons.IH) auto
    then show ?thesis using True q by simp
  next
    case False
    let ?pl = "if name b \<noteq> [] then pl(a \<mapsto> \<lparr>np_crowned = (Some a = tp \<and> 0 < m), np_name = name b\<rparr>) else pl"
    have "?pl e = Some np" using False Cons.prems(1) by auto
    then have "\<exists>np'. nameplate_loop tp m qs ?pl e = Some np' \<and> np_crowned np' = (Some e = tp \<and> 0 < m)"
      using Cons.prems(2) by (rule Cons.IH)
    then show ?thesis using q by simp
  qed
qed simp

lemma nameplate_loop_set:
  "(e, t) \<in> set xs \<Longrightarrow> name t \<noteq> [] \<Longrightarrow>
     \<exists>np. nameplate_loop tp m xs plates e = Some np \<and> np_crowned np = (Some e = tp \<and> 0 < m)"
proof (induction xs arbitrary: plates)
  case (Cons p rest)
  obtain e' t' where p: "p = (e', t')" by (cases p)
  show ?case
  proof (cases "(e, t) \<in> set rest")
    case True
    then show ?thesis using Cons p by simp
  next
    case False
    then have "p = (e, t)" using Cons.prems(1) by simp
    then show ?thesis using Cons.prems(2) p
      by (auto intro: nameplate_loop_keep [where np = "\<lparr>np_crowned = (Some e = tp \<and> 0 < m), np_name = name t\<rparr>"])
  qed
qed simp

end
