(* ===== verification/Effects.thy ===== *)
theory Effects
  imports ClientArrow
begin

text \<open>
  The client's transient props: \<open>src/project/client/debris.ts\<close> (the broken bow thrown
  from a victim on every HitCommand, removed after five seconds) and \<open>effects.ts\<close> (the
  tinted cubes and spheres of the particle bursts, each moving on a parabola until its end
  time). Both keep a module array and sweep it backwards, \<open>splice\<close>-ing out and removing
  the expired entries; \<open>splice_sweep\<close> is that loop once, for both. The props live in the
  client state of \<open>ClientArrow\<close>; the velocity the debris gets is the client's velocity
  store \<open>c_vel\<close>. Angular velocity, tint, glow, scale and rotation are presentation and
  not modelled; an effect is recorded by its prop (field \<open>effectProp\<close>, \<open>prop\<close>
  being a keyword), motion and times.
\<close>

subsection \<open>The backward splice loop\<close>

text \<open>\<open>for (let i = xs.length - 1; i >= 0; i--)\<close>: the argument counts the indices still
  to visit, \<open>xs ! i\<close> is \<open>xs[i]\<close>, and \<open>xs.splice(i, 1)\<close> drops that element; an
  expired element gets \<open>onExpired\<close>, the others \<open>onKept\<close>.\<close>

fun splice_sweep :: "('a \<Rightarrow> bool) \<Rightarrow> ('a \<Rightarrow> 's \<Rightarrow> 's) \<Rightarrow> ('a \<Rightarrow> 's \<Rightarrow> 's) \<Rightarrow> nat \<Rightarrow>
                     'a list \<times> 's \<Rightarrow> 'a list \<times> 's" where
  "splice_sweep expired onExpired onKept 0 st = st"
| "splice_sweep expired onExpired onKept (Suc i) (xs, s) =
     (if expired (xs ! i)
      then splice_sweep expired onExpired onKept i (take i xs @ drop (Suc i) xs, onExpired (xs ! i) s)
      else splice_sweep expired onExpired onKept i (xs, onKept (xs ! i) s))"

subsection \<open>debris.ts\<close>

text \<open>The entry's \<open>spawnTime\<close> is \<open>debrisSpawnTime\<close> here, the arrow entries having a
  field of that name. The five \<open>Math.random()\<close> values of the listener, in call order.\<close>

record debris_entry =
  entity :: eid
  debrisSpawnTime :: real

record debris_rolls =
  spinX :: real
  spinY :: real
  spinZ :: real
  speedRoll :: real
  liftRoll :: real

type_synonym dstate = "debris_entry list \<times> cstate"

definition onHitCommandDebris :: "debris_rolls \<Rightarrow> eid \<Rightarrow> dstate \<Rightarrow> dstate" where
  "onHitCommandDebris rolls victimId st = (case st of (debrisList, c, w) \<Rightarrow>
     (case w_view w victimId of
        None \<Rightarrow> st
      | Some viewRay \<Rightarrow>
          (case spawn_entity w of
             (debris, w1) \<Rightarrow>
               (let forwardOffset = vscale (snd viewRay) 1.5;
                    spawnPos = vadd (fst viewRay) forwardOffset;
                    w2 = set_pos debris spawnPos w1;
                    speed = 8 + speedRoll rolls * 4;
                    v = vscale (snd viewRay) speed;
                    vel = (vx v, vy v + (15 + liftRoll rolls * 5), vz v)
                in (debrisList @ [\<lparr>entity = debris, debrisSpawnTime = w_time w2\<rparr>],
                    c\<lparr>c_vel := (c_vel c)(debris \<mapsto> vel)\<rparr>, w2)))))"

definition debris_tick :: "dstate \<Rightarrow> dstate" where
  "debris_tick st = (case st of (debrisList, s) \<Rightarrow>
     (let t = w_time (snd s)
      in splice_sweep (\<lambda>entry. 5 \<le> t - debrisSpawnTime entry) (\<lambda>entry s. client_remove (entity entry) s)
           (\<lambda>entry s. s) (length debrisList) (debrisList, s)))"

subsection \<open>effects.ts\<close>

record effect =
  effectProp :: eid
  startPos :: vec3
  velocity :: vec3
  acceleration :: vec3
  startTime :: real
  endTime :: real

type_synonym estate = "effect list \<times> cstate"

text \<open>\<open>addEffect\<close> (lines 27-67) with the arguments that decide where the prop is and when
  it goes; the asset, tints, glows, scales and rotations only dress it.\<close>

definition addEffect :: "vec3 \<Rightarrow> vec3 \<Rightarrow> vec3 \<Rightarrow> real \<Rightarrow> estate \<Rightarrow> estate" where
  "addEffect vel acc pos duration st = (case st of (effects, c, w) \<Rightarrow>
     (case spawn_entity w of
        (p, w1) \<Rightarrow>
          (let t0 = w_time w1
           in (effects @ [\<lparr>effectProp = p, startPos = pos, velocity = vel, acceleration = acc,
                          startTime = t0, endTime = t0 + duration\<rparr>],
               c, set_pos p pos w1))))"

text \<open>Lines 81-89: the position after \<open>elapsed\<close> seconds.\<close>

definition effect_position :: "effect \<Rightarrow> real \<Rightarrow> vec3" where
  "effect_position e t =
     (let elapsed = t - startTime e;
          p = startPos e; v = velocity e; a = acceleration e
      in (vx p + vx v * elapsed + 0.5 * vx a * elapsed * elapsed,
          vy p + vy v * elapsed + 0.5 * vy a * elapsed * elapsed,
          vz p + vz v * elapsed + 0.5 * vz a * elapsed * elapsed))"

definition effects_render :: "estate \<Rightarrow> estate" where
  "effects_render st = (case st of (effects, s) \<Rightarrow>
     (let t = w_time (snd s)
      in splice_sweep (\<lambda>e. endTime e \<le> t) (\<lambda>e s. client_remove (effectProp e) s)
           (\<lambda>e s. (fst s, set_pos (effectProp e) (effect_position e t) (snd s))) (length effects) (effects, s)))"

subsection \<open>The sweep is a filter\<close>

lemma splice_sweep_filter:
  "i \<le> length xs \<Longrightarrow> splice_sweep ex f g i (xs, s) =
     (filter (\<lambda>x. \<not> ex x) (take i xs) @ drop i xs,
      foldl (\<lambda>s x. if ex x then f x s else g x s) s (rev (take i xs)))"
proof (induction i arbitrary: xs s)
  case (Suc i)
  have tk: "take (Suc i) xs = take i xs @ [xs ! i]" and dr: "drop i xs = xs ! i # drop (Suc i) xs"
    using Suc.prems by (simp_all add: take_Suc_conv_app_nth Cons_nth_drop_Suc)
  show ?case
  proof (cases "ex (xs ! i)")
    case True
    let ?ys = "take i xs @ drop (Suc i) xs"
    have "take i ?ys = take i xs" "drop i ?ys = drop (Suc i) xs"
      using Suc.prems by simp_all
    moreover have "i \<le> length ?ys" using Suc.prems by simp
    ultimately show ?thesis using True Suc.IH [of ?ys] by (simp add: tk)
  next
    case False
    then show ?thesis using Suc.IH [of xs] Suc.prems by (simp add: tk dr)
  qed
qed simp

lemma splice_sweep_all:
  "splice_sweep ex f g (length xs) (xs, s) =
     (filter (\<lambda>x. \<not> ex x) xs, foldl (\<lambda>s x. if ex x then f x s else g x s) s (rev xs))"
  using splice_sweep_filter [of "length xs" xs ex f g s] by simp

lemma sweep_entities:
  assumes "\<And>x s. w_entities (snd (g x s)) = w_entities (snd s)"
  shows "w_entities (snd (foldl (\<lambda>s x. if ex x then client_remove (h x) s else g x s) s xs)) =
     filter (\<lambda>e. e \<notin> h ` set (filter ex xs)) (w_entities (snd s))"
proof (induction xs arbitrary: s)
  case (Cons x xs)
  show ?case
  proof (cases "ex x")
    case True
    have "w_entities (snd (client_remove (h x) s)) = removeAll (h x) (w_entities (snd s))"
      by (cases s) (simp add: client_remove_def remove_entity_def)
    then show ?thesis using True Cons.IH [of "client_remove (h x) s"]
      by (simp add: removeAll_filter_not_eq filter_filter) (rule filter_cong; auto)
  next
    case False
    then show ?thesis using Cons.IH [of "g x s"] assms by simp
  qed
qed simp

subsection \<open>Fixtures\<close>

definition demo_debris :: "debris_entry list" where
  "demo_debris = [\<lparr>entity = 6, debrisSpawnTime = 4\<rparr>, \<lparr>entity = 7, debrisSpawnTime = 8\<rparr>]"

definition demo_effect_world :: world where
  "demo_effect_world = demo_world\<lparr>w_entities := [1, 2, 3, 4, 5, 6, 7], w_next := 8\<rparr>"

subsection \<open>Properties\<close>

text \<open>C36: both backward splice sweeps are filters: a debris tick keeps exactly the entries
  younger than five seconds, in order, and removes from the store exactly the props of the
  others; an effects render keeps exactly the effects whose end time is still ahead and
  removes exactly the props of the rest.\<close>

theorem transient_sweeps:
  "fst (debris_tick (ds, s)) = filter (\<lambda>e. w_time (snd s) - debrisSpawnTime e < 5) ds
   \<and> w_entities (snd (snd (debris_tick (ds, s)))) =
       filter (\<lambda>x. x \<notin> entity ` set (filter (\<lambda>e. 5 \<le> w_time (snd s) - debrisSpawnTime e) ds))
         (w_entities (snd s))
   \<and> fst (effects_render (es, s)) = filter (\<lambda>e. w_time (snd s) < endTime e) es
   \<and> w_entities (snd (snd (effects_render (es, s)))) =
       filter (\<lambda>x. x \<notin> effectProp ` set (filter (\<lambda>e. endTime e \<le> w_time (snd s)) es))
         (w_entities (snd s))"
proof -
  let ?t = "w_time (snd s)"
  have e1: "w_entities (snd (foldl (\<lambda>s' x. if 5 \<le> ?t - debrisSpawnTime x then client_remove (entity x) s'
        else (\<lambda>e s. s) x s') s (rev ds))) =
      filter (\<lambda>x. x \<notin> entity ` set (filter (\<lambda>e. 5 \<le> ?t - debrisSpawnTime e) (rev ds))) (w_entities (snd s))"
    by (rule sweep_entities) simp
  have e2: "w_entities (snd (foldl (\<lambda>s' x. if endTime x \<le> ?t then client_remove (effectProp x) s'
        else (\<lambda>e s'. (fst s', set_pos (effectProp e) (effect_position e ?t) (snd s'))) x s') s (rev es))) =
      filter (\<lambda>x. x \<notin> effectProp ` set (filter (\<lambda>e. endTime e \<le> ?t) (rev es))) (w_entities (snd s))"
    by (rule sweep_entities) (simp add: set_pos_def)
  show ?thesis using e1 e2
    by (simp add: debris_tick_def effects_render_def splice_sweep_all not_le case_prod_beta Let_def)
qed

theorem transient_sweeps_witness:
  "fst (debris_tick (demo_debris, demo_client, demo_effect_world\<lparr>w_time := 10\<rparr>)) = [\<lparr>entity = 7, debrisSpawnTime = 8\<rparr>]
   \<and> w_entities (snd (snd (debris_tick (demo_debris, demo_client, demo_effect_world\<lparr>w_time := 10\<rparr>)))) =
       [1, 2, 3, 4, 5, 7]"
  using transient_sweeps [of demo_debris "(demo_client, demo_effect_world\<lparr>w_time := 10\<rparr>)" "[]"]
  by (simp add: demo_debris_def demo_effect_world_def demo_world_def)

end
