(* ===== verification/PickupHover.thy ===== *)
theory PickupHover
  imports Effects
begin

text \<open>
  \<open>src/project/client/pickup.ts\<close>: every tick each client makes the pickups hover around
  the height it first saw them at, and spawns a green particle (an effect of
  \<open>Effects\<close>) at most every half second per pickup near the local player. The two module
  \<open>Map\<close>s are association lists (\<open>AList.update\<close> is \<open>Map.set\<close>). Rotation and glow
  are presentation; the PickupCommand and ItemSpawnCommand listeners only play sounds.
  The two \<open>Math.random()\<close> values of a particle are the record \<open>particle_rolls\<close>.
\<close>

record hover_state =
  pickupBasePositions :: "(eid \<times> real) list"
  pickupLastParticleTime :: "(eid \<times> real) list"

record particle_rolls =
  angleRoll :: real
  radiusRoll :: real

type_synonym hstate = "hover_state \<times> estate"

text \<open>The particle of lines 49-86, with \<open>pickupLastParticleTime.get(id) || 0\<close>.\<close>

definition pickup_particle :: "real \<Rightarrow> particle_rolls \<Rightarrow> eid \<Rightarrow> vec3 \<Rightarrow> real \<Rightarrow> hstate \<Rightarrow> hstate" where
  "pickup_particle time rolls pickupId pos newY st = (case st of (hs, es) \<Rightarrow>
     (let lastParticleTime = (case map_of (pickupLastParticleTime hs) pickupId of None \<Rightarrow> 0 | Some x \<Rightarrow> x)
      in if 0.5 \<le> time - lastParticleTime then
           (let hs1 = hs\<lparr>pickupLastParticleTime := AList.update pickupId time (pickupLastParticleTime hs)\<rparr>;
                angle = angleRoll rolls * pi * 2;
                radius = 0.3 + radiusRoll rolls * 0.2;
                particlePos = (vx pos + cos angle * radius, newY - 0.3, vz pos + sin angle * radius)
            in (hs1, addEffect (0, 1.2, 0) (0, 0, 0) particlePos 1.5 es))
         else st))"

text \<open>One pickup of the loop (lines 12-87); \<open>continue\<close> leaves the state as it is.\<close>

definition pickup_hover_step :: "real \<Rightarrow> particle_rolls \<Rightarrow> eid \<Rightarrow> hstate \<Rightarrow> hstate" where
  "pickup_hover_step time rolls pickupId st = (case st of (hs, es, c, w) \<Rightarrow>
     (case w_pos w pickupId of
        None \<Rightarrow> st
      | Some pos \<Rightarrow>
          (let hs1 = (if pickupId \<in> fst ` set (pickupBasePositions hs) then hs
                      else hs\<lparr>pickupBasePositions := AList.update pickupId (vy pos) (pickupBasePositions hs)\<rparr>);
               baseY = the (map_of (pickupBasePositions hs1) pickupId);
               offset = vx pos * 0.3 + vz pos * 0.2;
               newY = baseY + sin (time * 4.5 + offset) * 0.35;
               w1 = set_pos pickupId (vx pos, newY, vz pos) w;
               localPlayer = c_local c;
               localPlayerPos = (if localPlayer \<noteq> 0 then w_pos w1 localPlayer else None)
           in case localPlayerPos of
                None \<Rightarrow> (hs1, es, c, w1)
              | Some lp \<Rightarrow>
                  (let dx = vx pos - vx lp; dy = vy pos - vy lp; dz = vz pos - vz lp;
                       distSq = dx * dx + dy * dy + dz * dz
                   in if 30 * 30 < distSq then (hs1, es, c, w1)
                      else pickup_particle time rolls pickupId pos newY (hs1, es, c, w1)))))"

fun pickup_hover_loop :: "real \<Rightarrow> (nat \<Rightarrow> particle_rolls) \<Rightarrow> nat \<Rightarrow> eid list \<Rightarrow> hstate \<Rightarrow> hstate" where
  "pickup_hover_loop time rolls k [] st = st"
| "pickup_hover_loop time rolls k (p # ps) st =
     pickup_hover_loop time rolls (Suc k) ps (pickup_hover_step time (rolls k) p st)"

definition pickup_tick :: "real \<Rightarrow> (nat \<Rightarrow> particle_rolls) \<Rightarrow> hstate \<Rightarrow> hstate" where
  "pickup_tick time rolls st = pickup_hover_loop time rolls 0 (pickups_of (snd (snd (snd st)))) st"

subsection \<open>Lemmas\<close>

lemma pickup_particle_bases [simp]:
  "pickupBasePositions (fst (pickup_particle time rolls p pos y st)) = pickupBasePositions (fst st)"
  by (cases st) (simp add: pickup_particle_def Let_def)

lemma addEffect_pos_other:
  "e \<noteq> w_next (snd (snd st)) \<Longrightarrow> w_pos (snd (snd (addEffect v a pos d st))) e = w_pos (snd (snd st)) e"
  by (cases st) (simp add: addEffect_def spawn_entity_def set_pos_def Let_def)

lemma pickup_particle_pos_other:
  "e \<noteq> w_next (snd (snd (snd st))) \<Longrightarrow>
     w_pos (snd (snd (snd (pickup_particle time rolls p pos y st)))) e = w_pos (snd (snd (snd st))) e"
  by (cases st) (auto simp: pickup_particle_def Let_def addEffect_pos_other)

lemma hover_offset_bound: "\<bar>(b + sin x * 0.35) - b\<bar> \<le> (0.35::real)"
  using abs_sin_le_one [of x] by (simp add: abs_mult)

text \<open>The hover moves a pickup only vertically, within 0.35 of the height first recorded for
  it; that height is never changed afterwards.\<close>

lemma pickup_hover_step_bounds:
  assumes "w_pos w p = Some pos" "p \<noteq> w_next w"
  shows "\<exists>b y. map_of (pickupBasePositions (fst (pickup_hover_step time rolls p (hs, es, c, w)))) p = Some b
     \<and> (\<forall>b0. map_of (pickupBasePositions hs) p = Some b0 \<longrightarrow> b = b0)
     \<and> w_pos (snd (snd (snd (pickup_hover_step time rolls p (hs, es, c, w))))) p = Some (vx pos, y, vz pos)
     \<and> \<bar>y - b\<bar> \<le> 0.35"
proof -
  define hs1 where "hs1 = (if p \<in> fst ` set (pickupBasePositions hs) then hs
              else hs\<lparr>pickupBasePositions := AList.update p (vy pos) (pickupBasePositions hs)\<rparr>)"
  obtain b where b: "map_of (pickupBasePositions hs1) p = Some b"
    by (cases "p \<in> fst ` set (pickupBasePositions hs)") (auto simp: hs1_def update_conv' dest: weak_map_of_SomeI)
  have first: "\<forall>b0. map_of (pickupBasePositions hs) p = Some b0 \<longrightarrow> b = b0"
    using b by (auto simp: hs1_def split: if_splits dest: map_of_SomeD intro: rev_image_eqI)
  define y where "y = b + sin (time * 4.5 + (vx pos * 0.3 + vz pos * 0.2)) * 0.35"
  define w1 where "w1 = set_pos p (vx pos, y, vz pos) w"
  have w1: "w_pos w1 p = Some (vx pos, y, vz pos)" "w_next w1 = w_next w"
    by (simp_all add: w1_def set_pos_def)
  have step: "pickup_hover_step time rolls p (hs, es, c, w) =
      (case (if c_local c \<noteq> 0 then w_pos w1 (c_local c) else None) of
         None \<Rightarrow> (hs1, es, c, w1)
       | Some lp \<Rightarrow> if 30 * 30 < vx (vsub pos lp) * vx (vsub pos lp) + vy (vsub pos lp) * vy (vsub pos lp)
                                + vz (vsub pos lp) * vz (vsub pos lp)
                    then (hs1, es, c, w1) else pickup_particle time rolls p pos y (hs1, es, c, w1))"
    using b by (cases "p \<in> fst ` set (pickupBasePositions hs)")
      (simp_all add: hs1_def pickup_hover_step_def Let_def assms(1) y_def w1_def vsub_def split: option.split)
  have "map_of (pickupBasePositions (fst (pickup_hover_step time rolls p (hs, es, c, w)))) p = Some b
      \<and> w_pos (snd (snd (snd (pickup_hover_step time rolls p (hs, es, c, w))))) p = Some (vx pos, y, vz pos)"
    unfolding step using assms(2) b w1 by (auto simp: pickup_particle_pos_other split: option.splits)
  then show ?thesis using first hover_offset_bound [of b] y_def by blast
qed

text \<open>The particle reach is 30 units (\<open>distSq > 30 * 30\<close>), where the comment of line 38
  says 20: a due pickup whose local player is within 30 units gets a particle.\<close>

lemma pickup_particle_reach:
  assumes "w_pos w p = Some pos" "c_local c \<noteq> 0" "c_local c \<noteq> p" "w_pos w (c_local c) = Some lp"
    "vlen2 (vsub pos lp) \<le> 900" "map_of (pickupLastParticleTime hs) p = None" "0.5 \<le> time"
  shows "length (fst (snd (pickup_hover_step time rolls p (hs, es, c, w)))) = Suc (length es)"
  using assms
  by (auto simp: pickup_hover_step_def pickup_particle_def addEffect_def set_pos_def vlen2_def vsub_def
      Let_def case_prod_beta algebra_simps split: option.splits)

text \<open>Neither map ever loses a key: a pickup that is collected and removed keeps its entries.\<close>

lemma pickup_hover_step_bases:
  "pickupBasePositions (fst (pickup_hover_step time rolls p (hs, es, c, w))) =
     (case w_pos w p of None \<Rightarrow> pickupBasePositions hs
      | Some pos \<Rightarrow> if p \<in> fst ` set (pickupBasePositions hs) then pickupBasePositions hs
                   else AList.update p (vy pos) (pickupBasePositions hs))"
  by (auto simp: pickup_hover_step_def Let_def split: option.splits)

lemma pickup_hover_step_keys:
  "fst ` set (pickupBasePositions (fst st)) \<subseteq> fst ` set (pickupBasePositions (fst (pickup_hover_step time rolls p st)))"
  by (cases st) (auto simp: pickup_hover_step_bases AList.dom_update split: option.splits)

lemma pickup_tick_keys:
  "fst ` set (pickupBasePositions (fst st)) \<subseteq> fst ` set (pickupBasePositions (fst (pickup_hover_loop time rolls k ps st)))"
proof (induction ps arbitrary: k st)
  case (Cons p ps)
  show ?case
    using pickup_hover_step_keys [of st time "rolls k" p] Cons.IH [of "pickup_hover_step time (rolls k) p st" "Suc k"]
    by simp
qed simp

end
