(* ===== verification/Particles.thy ===== *)
theory Particles
  imports Effects
begin

text \<open>
  \<open>src/project/client/particles.ts\<close>: the three particle bursts, each a sequence of
  \<open>addEffect\<close> calls of \<open>Effects\<close>. Only the arguments that decide where a particle
  goes and when it expires are kept (velocity, acceleration, position, duration); the tints,
  glows, scales and the random rotation dress it. The \<open>Math.random()\<close> values that
  decide a death particle's flight are the record \<open>death_rolls\<close>, one per iteration.
  The gl-matrix \<open>vec3.cross\<close> and the dot product are written out.
\<close>

definition vcross :: "vec3 \<Rightarrow> vec3 \<Rightarrow> vec3" where
  "vcross a b = (vy a * vz b - vz a * vy b, vz a * vx b - vx a * vz b, vx a * vy b - vy a * vx b)"

definition vdot :: "vec3 \<Rightarrow> vec3 \<Rightarrow> real" where
  "vdot a b = vx a * vx b + vy a * vy b + vz a * vz b"

text \<open>Lines 4-21.\<close>

definition spawnArrowTrailParticle :: "vec3 \<Rightarrow> estate \<Rightarrow> estate" where
  "spawnArrowTrailParticle position = addEffect (0, 0.1, 0) (0, 0, 0) position 0.5"

text \<open>The counting loop shared by the two bursts, \<open>for (let i = 0; i < particleCount; i++)\<close>,
  with \<open>addEffect\<close> as its body; it stops because \<open>particleCount - i\<close> decreases.\<close>

function burst_loop :: "(nat \<Rightarrow> vec3) \<Rightarrow> vec3 \<Rightarrow> vec3 \<Rightarrow> real \<Rightarrow> nat \<Rightarrow> nat \<Rightarrow> estate \<Rightarrow> estate" where
  "burst_loop vel acc position duration particleCount i st =
     (if i < particleCount
      then burst_loop vel acc position duration particleCount (Suc i) (addEffect (vel i) acc position duration st)
      else st)"
  by pat_completeness auto
termination
  by (relation "measure (\<lambda>(vel, acc, position, duration, particleCount, i, st). particleCount - i)") auto

declare burst_loop.simps [simp del]

text \<open>The velocity of particle \<open>i\<close> of the reflection burst (lines 29-50): a ring of
  six directions in the plane of the surface, spread at speed 2, plus speed 3 along the
  normal.\<close>

definition reflection_velocity :: "vec3 \<Rightarrow> nat \<Rightarrow> vec3" where
  "reflection_velocity normal i =
     (let particleCount = 6;
          angle = (real i / particleCount) * pi * 2;
          arbitrary = (if \<bar>vy normal\<bar> < 0.9 then (0, 1, 0) else (1, 0, 0));
          tangent = vnormalize (vcross normal arbitrary);
          bitangent = vcross normal tangent;
          circleOffset = (cos angle * vx tangent + sin angle * vx bitangent,
                          cos angle * vy tangent + sin angle * vy bitangent,
                          cos angle * vz tangent + sin angle * vz bitangent);
          spreadSpeed = 2;
          normalSpeed = 3
      in (vx normal * normalSpeed + vx circleOffset * spreadSpeed,
          vy normal * normalSpeed + vy circleOffset * spreadSpeed,
          vz normal * normalSpeed + vz circleOffset * spreadSpeed))"

text \<open>Lines 23-69: \<open>for (let i = 0; i < particleCount; i++)\<close>.\<close>

definition spawnArrowReflectionParticles :: "vec3 \<Rightarrow> vec3 \<Rightarrow> estate \<Rightarrow> estate" where
  "spawnArrowReflectionParticles position normal =
     burst_loop (reflection_velocity normal) (0, 0, 0) position 0.4 6 0"

text \<open>The four \<open>Math.random()\<close> values of lines 75-81, in call order.\<close>

record death_rolls =
  elevationRoll :: real
  speedXRoll :: real
  upRoll :: real
  speedZRoll :: real

definition death_velocity :: "death_rolls \<Rightarrow> nat \<Rightarrow> vec3" where
  "death_velocity r i =
     (let particleCount = 12;
          angle = (real i / particleCount) * pi * 2;
          elevation = (elevationRoll r - 0.5) * pi * 0.5;
          horizontalRadius = cos elevation
      in (cos angle * horizontalRadius * (3 + speedXRoll r * 3),
          8 + upRoll r * 6,
          sin angle * horizontalRadius * (3 + speedZRoll r * 3)))"

text \<open>Lines 71-101.\<close>

definition spawnPlayerDeathParticles :: "(nat \<Rightarrow> death_rolls) \<Rightarrow> vec3 \<Rightarrow> estate \<Rightarrow> estate" where
  "spawnPlayerDeathParticles rolls position =
     burst_loop (\<lambda>i. death_velocity (rolls i) i) (0, -30, 0) position 1 12 0"

definition demo_death_rolls :: "nat \<Rightarrow> death_rolls" where
  "demo_death_rolls i = \<lparr>elevationRoll = 0.5, speedXRoll = 0.25, upRoll = real (i mod 4) / 4, speedZRoll = 0.75\<rparr>"

subsection \<open>Bursts append their effects in order\<close>

abbreviation flight :: "effect \<Rightarrow> vec3 \<times> vec3 \<times> vec3 \<times> real" where
  "flight e \<equiv> (startPos e, velocity e, acceleration e, endTime e - startTime e)"

lemma addEffect_flight:
  "map flight (fst (addEffect vel acc pos d st)) = map flight (fst st) @ [(pos, vel, acc, d)]"
  by (simp add: addEffect_def Let_def split: prod.split)

lemma burst_loop_foldl:
  "burst_loop vel acc position duration n i st =
     foldl (\<lambda>st i. addEffect (vel i) acc position duration st) st [i..<n]"
proof (induction vel acc position duration n i st rule: burst_loop.induct)
  case (1 vel acc position duration n i st)
  then show ?case by (simp add: burst_loop.simps upt_conv_Cons)
qed

lemma burst_flight:
  "map flight (fst (foldl (\<lambda>st i. addEffect (v i) acc pos d st) st is)) =
     map flight (fst st) @ map (\<lambda>i. (pos, v i, acc, d)) is"
  by (induction "is" arbitrary: st) (simp_all add: addEffect_flight)

subsection \<open>Vector identities\<close>

lemma vdot_cross_self: "vdot a (vcross a b) = 0" "vdot b (vcross a b) = 0"
  by (simp_all add: vdot_def vcross_def algebra_simps)

lemma vlen2_cross: "vlen2 (vcross a b) = vlen2 a * vlen2 b - (vdot a b)\<^sup>2"
  by (simp add: vlen2_def vdot_def vcross_def power2_eq_square algebra_simps)

lemma vdot_vscale: "vdot a (vscale b s) = s * vdot a b" "vdot (vscale b s) a = s * vdot b a"
  by (simp_all add: vdot_def vscale_def algebra_simps)

lemma vlen2_vscale: "vlen2 (vscale a s) = s\<^sup>2 * vlen2 a"
  by (simp add: vlen2_def vscale_def power2_eq_square algebra_simps)

lemma vdot_comm: "vdot a b = vdot b a"
  by (simp add: vdot_def algebra_simps)

lemma vlen2_vnormalize: "0 < vlen2 a \<Longrightarrow> vlen2 (vnormalize a) = 1"
  by (simp add: vnormalize_def Let_def vlen2_vscale power_divide)

lemma vdot_vnormalize: "vdot a b = 0 \<Longrightarrow> vdot a (vnormalize b) = 0"
  by (simp add: vnormalize_def Let_def vdot_vscale)

text \<open>Line 31 picks a helper axis that is never parallel to a unit normal.\<close>

lemma vcross_arbitrary_pos:
  assumes "vlen2 n = 1"
  shows "0 < vlen2 (vcross n (if \<bar>vy n\<bar> < 0.9 then (0, 1, 0) else (1, 0, 0)))"
proof (cases "\<bar>vy n\<bar> < 0.9")
  case True
  have "\<bar>vy n\<bar>\<^sup>2 < 0.9\<^sup>2" using True by (intro power_strict_mono) auto
  then show ?thesis using True assms by (simp add: vcross_def vlen2_def power2_eq_square)
next
  case False
  have "0.9\<^sup>2 \<le> \<bar>vy n\<bar>\<^sup>2" using False by (intro power_mono) auto
  then have "81 / 100 \<le> vy n * vy n" by (simp add: power2_eq_square)
  moreover have "0 \<le> vz n * vz n" by simp
  ultimately have "0 < vz n * vz n + vy n * vy n" by linarith
  then show ?thesis using False by (simp add: vcross_def vlen2_def)
qed

lemma ring_velocity:
  fixes n t b :: vec3 and a :: real
  assumes "vlen2 n = 1" "vlen2 t = 1" "vlen2 b = 1" "vdot n t = 0" "vdot n b = 0" "vdot t b = 0"
  defines "v \<equiv> (vx n * 3 + (cos a * vx t + sin a * vx b) * 2,
                 vy n * 3 + (cos a * vy t + sin a * vy b) * 2,
                 vz n * 3 + (cos a * vz t + sin a * vz b) * 2)"
  shows "vdot v n = 3" "vlen2 v = 13"
proof -
  have "vdot v n = 3 * vlen2 n + 2 * cos a * vdot n t + 2 * sin a * vdot n b"
    by (simp add: v_def vdot_def vlen2_def algebra_simps)
  then show "vdot v n = 3" using assms by simp
  have "vlen2 v = 9 * vlen2 n + 4 * ((cos a)\<^sup>2 * vlen2 t + (sin a)\<^sup>2 * vlen2 b + 2 * cos a * sin a * vdot t b)
                 + 12 * (cos a * vdot n t + sin a * vdot n b)"
    by (simp add: v_def vdot_def vlen2_def power2_eq_square algebra_simps)
  then show "vlen2 v = 13" using assms by simp
qed

lemma reflection_velocity_geometry:
  assumes "vlen2 normal = 1"
  shows "vdot (reflection_velocity normal i) normal = 3 \<and> vlen2 (reflection_velocity normal i) = 13"
proof -
  define c where "c = vcross normal (if \<bar>vy normal\<bar> < 0.9 then (0, 1, 0) else (1, 0, 0::real))"
  define t where "t = vnormalize c"
  have t1: "vlen2 t = 1" using vcross_arbitrary_pos [OF assms] by (simp add: t_def c_def vlen2_vnormalize)
  have nt: "vdot normal t = 0" by (simp add: t_def c_def vdot_vnormalize vdot_cross_self)
  have b1: "vlen2 (vcross normal t) = 1" using assms t1 nt by (simp add: vlen2_cross)
  have "reflection_velocity normal i =
          (vx normal * 3 + (cos (real i / 6 * pi * 2) * vx t + sin (real i / 6 * pi * 2) * vx (vcross normal t)) * 2,
           vy normal * 3 + (cos (real i / 6 * pi * 2) * vy t + sin (real i / 6 * pi * 2) * vy (vcross normal t)) * 2,
           vz normal * 3 + (cos (real i / 6 * pi * 2) * vz t + sin (real i / 6 * pi * 2) * vz (vcross normal t)) * 2)"
    by (simp add: reflection_velocity_def Let_def t_def c_def)
  then show ?thesis
    using ring_velocity [OF assms t1 b1 nt vdot_cross_self(1) vdot_cross_self(2)] by simp
qed

subsection \<open>Bounds of the death burst\<close>

lemma death_velocity_bounds:
  assumes "0 \<le> speedXRoll r" "speedXRoll r < 1" "0 \<le> upRoll r" "upRoll r < 1"
    "0 \<le> speedZRoll r" "speedZRoll r < 1"
  shows "8 \<le> vy (death_velocity r i) \<and> vy (death_velocity r i) < 14
    \<and> \<bar>vx (death_velocity r i)\<bar> \<le> 6 \<and> \<bar>vz (death_velocity r i)\<bar> \<le> 6"
proof -
  have hz: "\<bar>x * y * (3 + s * 3)\<bar> \<le> 6" if "\<bar>x\<bar> \<le> 1" "\<bar>y\<bar> \<le> 1" "0 \<le> s" "s < 1" for x y s :: real
  proof -
    have "\<bar>x\<bar> * \<bar>y\<bar> * (3 + s * 3) \<le> 1 * 1 * 6" using that by (intro mult_mono) auto
    then show ?thesis using that by (simp add: abs_mult)
  qed
  define a where "a = real i / 12 * pi * 2"
  define e where "e = (elevationRoll r - 0.5) * pi * 0.5"
  have v: "death_velocity r i = (cos a * cos e * (3 + speedXRoll r * 3), 8 + upRoll r * 6,
                                 sin a * cos e * (3 + speedZRoll r * 3))"
    by (simp add: death_velocity_def Let_def a_def e_def)
  have "\<bar>cos a * cos e * (3 + speedXRoll r * 3)\<bar> \<le> 6" "\<bar>sin a * cos e * (3 + speedZRoll r * 3)\<bar> \<le> 6"
    by (rule hz; simp add: assms abs_cos_le_one abs_sin_le_one)+
  then show ?thesis using assms(3,4) unfolding v v_sel by (intro conjI) linarith+
qed

text \<open>With the burst's acceleration of -30, the height gained after \<open>s\<close> seconds at
  vertical speed \<open>v\<close> is at most \<open>v\<^sup>2 / 60\<close>.\<close>

lemma parabola_apex: "v * s + 0.5 * (- 30) * s * s \<le> v * v / (60::real)"
proof -
  have "v * v / 60 - (v * s + 0.5 * (- 30) * s * s) = (v - 30 * s)\<^sup>2 / 60"
    by (simp add: power2_eq_square field_simps)
  moreover have "0 \<le> (v - 30 * s)\<^sup>2 / 60" by simp
  ultimately show ?thesis by linarith
qed

lemma burst_length:
  "length (fst (foldl (\<lambda>st i. addEffect (v i) acc pos d st) st is)) = length (fst st) + length is"
proof -
  have "length (map flight (fst (foldl (\<lambda>st i. addEffect (v i) acc pos d st) st is)))
        = length (map flight (fst st) @ map (\<lambda>i. (pos, v i, acc, d)) is)"
    by (simp only: burst_flight)
  then show ?thesis by (simp only: length_map length_append)
qed

lemma burst_new:
  assumes "e \<in> set (drop (length (fst st)) (fst (foldl (\<lambda>st i. addEffect (v i) acc pos d st) st is)))"
  shows "\<exists>i\<in>set is. flight e = (pos, v i, acc, d)"
proof -
  let ?xs = "fst (foldl (\<lambda>st i. addEffect (v i) acc pos d st) st is)"
  have eq: "map flight (drop (length (fst st)) ?xs) = map (\<lambda>i. (pos, v i, acc, d)) is"
    unfolding drop_map [symmetric] burst_flight by simp
  have "flight e \<in> set (map flight (drop (length (fst st)) ?xs))"
    using assms by (simp only: set_map) (rule imageI)
  then have "flight e \<in> set (map (\<lambda>i. (pos, v i, acc, d)) is)"
    by (simp only: eq)
  then show ?thesis by (simp only: set_map image_iff)
qed

subsection \<open>Properties\<close>

text \<open>C13: the particle loop ends, after exactly particleCount - i iterations: it appends
  one effect per index from i up to particleCount - 1, in order, each at the given
  position with that index's velocity, the given acceleration and the given lifetime, and
  leaves the effects already there untouched.\<close>

theorem burst_loop_runs:
  "map flight (fst (burst_loop vel acc position duration particleCount i st)) =
     map flight (fst st) @ map (\<lambda>j. (position, vel j, acc, duration)) [i..<particleCount]"
  by (simp only: burst_loop_foldl burst_flight)

text \<open>C5: a wall bounce adds exactly six particles at the collision point, without
  acceleration, living 0.4 s; for a unit surface normal each leaves the surface at normal
  speed 3 with total speed sqrt 13, the six directions of the ring lying in the surface.\<close>

theorem reflection_burst:
  assumes "vlen2 normal = 1"
  shows "length (fst (spawnArrowReflectionParticles position normal st)) = length (fst st) + 6
   \<and> (\<forall>e \<in> set (drop (length (fst st)) (fst (spawnArrowReflectionParticles position normal st))).
        startPos e = position \<and> acceleration e = (0, 0, 0) \<and> endTime e - startTime e = 0.4
        \<and> vdot (velocity e) normal = 3 \<and> vlen2 (velocity e) = 13)"
proof -
  have "length (fst (spawnArrowReflectionParticles position normal st)) = length (fst st) + 6"
    using burst_length [of "reflection_velocity normal" "(0, 0, 0)" position "0.4" st "[0..<6]"]
    by (simp add: spawnArrowReflectionParticles_def burst_loop_foldl del: upt_rec_numeral)
  moreover have "startPos e = position \<and> acceleration e = (0, 0, 0) \<and> endTime e - startTime e = 0.4
        \<and> vdot (velocity e) normal = 3 \<and> vlen2 (velocity e) = 13"
    if e: "e \<in> set (drop (length (fst st)) (fst (spawnArrowReflectionParticles position normal st)))" for e
  proof -
    obtain i where "flight e = (position, reflection_velocity normal i, (0, 0, 0), 0.4)"
      using burst_new [OF e [unfolded spawnArrowReflectionParticles_def burst_loop_foldl]] by blast
    then show ?thesis using reflection_velocity_geometry [OF assms, of i] by simp
  qed
  ultimately show ?thesis by blast
qed

theorem reflection_burst_witness:
  "vlen2 (0, 1, 0) = 1
   \<and> length (fst (spawnArrowReflectionParticles (2, 0, 3) (0, 1, 0) ([], demo_client, demo_effect_world))) = 6"
proof -
  have n: "vlen2 (0, 1, 0) = 1" by (simp add: vlen2_def)
  show ?thesis
    using reflection_burst [OF n, of "(2, 0, 3)" "([], demo_client, demo_effect_world)"] n by simp
qed

text \<open>C35: a player's death adds exactly twelve particles at the death position, each
  living one second under gravity -30; for random values in [0, 1) each is thrown upwards at
  vertical speed between 8 and 14 and horizontal components of at most 6, and so never rises
  49/15 (about 3.27) units or more above the point of death.\<close>

theorem death_burst_apex:
  assumes "\<forall>i<12. 0 \<le> speedXRoll (rolls i) \<and> speedXRoll (rolls i) < 1 \<and> 0 \<le> upRoll (rolls i)
     \<and> upRoll (rolls i) < 1 \<and> 0 \<le> speedZRoll (rolls i) \<and> speedZRoll (rolls i) < 1"
  shows "length (fst (spawnPlayerDeathParticles rolls position st)) = length (fst st) + 12
   \<and> (\<forall>e \<in> set (drop (length (fst st)) (fst (spawnPlayerDeathParticles rolls position st))).
        startPos e = position \<and> acceleration e = (0, -30, 0) \<and> endTime e - startTime e = 1
        \<and> 8 \<le> vy (velocity e) \<and> \<bar>vx (velocity e)\<bar> \<le> 6 \<and> \<bar>vz (velocity e)\<bar> \<le> 6
        \<and> (\<forall>t. vy (effect_position e t) - vy position < 49 / 15))"
proof -
  have "startPos e = position \<and> acceleration e = (0, -30, 0) \<and> endTime e - startTime e = 1
        \<and> 8 \<le> vy (velocity e) \<and> \<bar>vx (velocity e)\<bar> \<le> 6 \<and> \<bar>vz (velocity e)\<bar> \<le> 6
        \<and> (\<forall>t. vy (effect_position e t) - vy position < 49 / 15)"
    if e: "e \<in> set (drop (length (fst st)) (fst (spawnPlayerDeathParticles rolls position st)))" for e
  proof -
    obtain i where i: "i < 12" and fl: "flight e = (position, death_velocity (rolls i) i, (0, -30, 0), 1)"
      using burst_new [OF e [unfolded spawnPlayerDeathParticles_def burst_loop_foldl]] by (auto simp del: upt_rec_numeral)
    let ?v = "vy (death_velocity (rolls i) i)"
    have b: "8 \<le> ?v \<and> ?v < 14 \<and> \<bar>vx (death_velocity (rolls i) i)\<bar> \<le> 6
             \<and> \<bar>vz (death_velocity (rolls i) i)\<bar> \<le> 6"
      using assms i by (intro death_velocity_bounds) auto
    have "?v * ?v < 14 * 14" using b by (intro mult_strict_mono) auto
    then have "?v * s + 0.5 * (- 30) * s * s < 49 / 15" for s
      using parabola_apex [of ?v s] by linarith
    then show ?thesis using fl b by (simp add: effect_position_def Let_def)
  qed
  moreover have "length (fst (spawnPlayerDeathParticles rolls position st)) = length (fst st) + 12"
    using burst_length [of "\<lambda>i. death_velocity (rolls i) i" "(0, -30, 0)" position 1 st "[0..<12]"]
    by (simp add: spawnPlayerDeathParticles_def burst_loop_foldl del: upt_rec_numeral)
  ultimately show ?thesis by blast
qed

theorem death_burst_apex_witness:
  "length (fst (spawnPlayerDeathParticles demo_death_rolls (5, 2, 5) ([], demo_client, demo_effect_world))) = 12"
proof -
  have r: "\<forall>i<12. 0 \<le> speedXRoll (demo_death_rolls i) \<and> speedXRoll (demo_death_rolls i) < 1
       \<and> 0 \<le> upRoll (demo_death_rolls i) \<and> upRoll (demo_death_rolls i) < 1
       \<and> 0 \<le> speedZRoll (demo_death_rolls i) \<and> speedZRoll (demo_death_rolls i) < 1"
    by (simp add: demo_death_rolls_def)
  show ?thesis
    using death_burst_apex [OF r, of "(5, 2, 5)" "([], demo_client, demo_effect_world)"] by simp
qed

end
