(* ===== verification/Camera.thy ===== *)
theory Camera
  imports Particles
begin

text \<open>
  \<open>src/project/client/camera.ts\<close>, the death camera, and the two callers that drive it:
  \<open>handlePlayerDeath\<close> of \<open>client/player.ts\<close> (the death burst of \<open>Particles\<close>, then the
  camera for the local victim) and the client's HitCommand listener of
  \<open>client/arrow.ts\<close>, which runs it before deleting the arrow. The module variables are the
  record \<open>camera_state\<close>, \<open>null\<close> being \<open>None\<close>. \<open>J.setCameraFree(cameraPos, quat)\<close> is
  recorded as the pose it sets: the camera position and the point it looks at
  (\<open>targetPos\<close>, from which \<open>mat4.lookAt\<close> builds the rotation); a tick that returns early
  sets no pose. Sounds are not modelled. \<open>vec3.lerp\<close> of gl-matrix is \<open>vlerp\<close>.
\<close>

definition vlerp :: "vec3 \<Rightarrow> vec3 \<Rightarrow> real \<Rightarrow> vec3" where
  "vlerp a b t = (vx a + t * (vx b - vx a), vy a + t * (vy b - vy a), vz a + t * (vz b - vz a))"

record camera_state =
  cameraZoomTarget :: "eid option"
  deathCameraStartTime :: real
  smoothedKillerPos :: "vec3 option"
  initialViewRay :: "ray option"

definition camera_init :: camera_state where
  "camera_init = \<lparr>cameraZoomTarget = None, deathCameraStartTime = 0, smoothedKillerPos = None,
                  initialViewRay = None\<rparr>"

text \<open>Lines 8-16; \<open>if (targetId)\<close> lets neither \<open>null\<close> nor the handle 0 through.\<close>

definition setCameraZoomTarget :: "eid option \<Rightarrow> cstate \<Rightarrow> camera_state \<Rightarrow> camera_state" where
  "setCameraZoomTarget targetId s cam =
     (let cam1 = cam\<lparr>cameraZoomTarget := targetId\<rparr>
      in case truthy_id targetId of
           None \<Rightarrow> cam1
         | Some _ \<Rightarrow>
             (let victimId = c_local (fst s)
              in cam1\<lparr>deathCameraStartTime := w_time (snd s), smoothedKillerPos := None,
                      initialViewRay := (if victimId \<noteq> 0 then w_view (snd s) victimId else None)\<rparr>))"

text \<open>The ease of lines 41-42.\<close>

definition smooth_phase :: "real \<Rightarrow> real" where
  "smooth_phase elapsed = (let movePhase = min 1 (elapsed / 2) in movePhase * movePhase * (3 - 2 * movePhase))"

text \<open>Lines 18-71: the new camera state and the pose set, if any.\<close>

definition camera_tick :: "real \<Rightarrow> cstate \<Rightarrow> camera_state \<Rightarrow> camera_state \<times> (vec3 \<times> vec3) option" where
  "camera_tick t s cam =
     (case (truthy_id (cameraZoomTarget cam), initialViewRay cam) of
        (Some target, Some viewRay) \<Rightarrow>
          (let victimId = c_local (fst s)
           in if victimId = 0 then (cam, None)
              else (case (w_pos (snd s) victimId, w_pos (snd s) target) of
                      (Some victimPos, Some killerPos) \<Rightarrow>
                        (let smoothed0 = (case smoothedKillerPos cam of None \<Rightarrow> killerPos | Some p \<Rightarrow> p);
                             smoothSpeed = 0.1;
                             smoothed = vlerp smoothed0 killerPos smoothSpeed;
                             elapsed = t - deathCameraStartTime cam;
                             smoothPhase = smooth_phase elapsed;
                             toKiller = vsub smoothed victimPos;
                             dirToKiller = vnormalize (vx toKiller, 0, vz toKiller);
                             oppositeDir = vscale dirToKiller (-1);
                             finalPos = (vx victimPos + vx oppositeDir * 3, vy victimPos + 1.6 + 3,
                                         vz victimPos + vz oppositeDir * 3);
                             cameraPos = vlerp (fst viewRay) finalPos smoothPhase;
                             dirToTarget = vnormalize (vsub smoothed cameraPos);
                             finalDir = vlerp (snd viewRay) dirToTarget smoothPhase;
                             targetPos = vadd cameraPos finalDir
                         in (cam\<lparr>smoothedKillerPos := Some smoothed\<rparr>, Some (cameraPos, targetPos)))
                    | _ \<Rightarrow> (cam, None)))
      | _ \<Rightarrow> (cam, None))"

text \<open>\<open>handlePlayerDeath\<close> (player.ts lines 25-41): the burst at the death position, then the
  camera when the local player died and a killer is named.\<close>

definition handlePlayerDeath :: "(nat \<Rightarrow> death_rolls) \<Rightarrow> eid \<Rightarrow> vec3 \<Rightarrow> eid option \<Rightarrow>
    camera_state \<times> estate \<Rightarrow> camera_state \<times> estate" where
  "handlePlayerDeath rolls victimId position killerId st = (case st of (cam, es) \<Rightarrow>
     (let es1 = spawnPlayerDeathParticles rolls position es;
          localPlayerId = c_local (fst (snd es1))
      in if victimId = localPlayerId \<and> killerId \<noteq> None
         then (setCameraZoomTarget killerId (snd es1) cam, es1)
         else (cam, es1)))"

text \<open>The client's HitCommand listener (arrow.ts lines 264-267).\<close>

definition onHitCommandDeath :: "(nat \<Rightarrow> death_rolls) \<Rightarrow> eid \<Rightarrow> eid \<Rightarrow> vec3 \<Rightarrow> int \<Rightarrow>
    camera_state \<times> estate \<Rightarrow> camera_state \<times> estate" where
  "onHitCommandDeath rolls attackerId victimId position n st =
     (case handlePlayerDeath rolls victimId position (Some attackerId) st of
        (cam, effects, s) \<Rightarrow> (cam, effects, onHitCommandClient n s))"

text \<open>The camera half of the client's RespawnCommand listener (player.ts lines 238-245).\<close>

definition onRespawnCommandCamera :: "eid \<Rightarrow> cstate \<Rightarrow> camera_state \<Rightarrow> camera_state" where
  "onRespawnCommandCamera playerId s cam =
     (if playerId = c_local (fst s) then setCameraZoomTarget None s cam else cam)"

text \<open>The engine calls the tick once per frame; a run is a list of (time, client state)
  frames.\<close>

definition camera_run :: "(real \<times> cstate) list \<Rightarrow> camera_state \<Rightarrow> camera_state" where
  "camera_run run cam = foldl (\<lambda>cam (t, s). fst (camera_tick t s cam)) cam run"

subsection \<open>Lemmas\<close>

lemma v_eta [simp]: "(vx a, vy a, vz a) = a"
  by (simp add: vx_def vy_def vz_def)

lemma vlerp_one [simp]: "vlerp a b 1 = b"
  by (simp add: vlerp_def)

lemma vlerp_zero [simp]: "vlerp a b 0 = a"
  by (simp add: vlerp_def)

lemma vlerp_same [simp]: "vlerp a a t = a"
  by (simp add: vlerp_def)

lemma smooth_phase_bounds: "0 \<le> e \<Longrightarrow> 0 \<le> smooth_phase e \<and> smooth_phase e \<le> 1"
proof -
  assume e: "0 \<le> e"
  define m where "m = min 1 (e / 2)"
  have m: "0 \<le> m" "m \<le> 1" using e by (auto simp: m_def)
  have "1 - m * m * (3 - 2 * m) = (1 - m) * (1 - m) * (1 + 2 * m)"
    by (simp add: algebra_simps)
  moreover have "0 \<le> (1 - m) * (1 - m) * (1 + 2 * m)" using m by simp
  moreover have "0 \<le> m * m * (3 - 2 * m)" using m by simp
  ultimately show ?thesis by (simp add: smooth_phase_def Let_def m_def [symmetric])
qed

lemma smooth_phase_settled: "2 \<le> e \<Longrightarrow> smooth_phase e = 1"
  by (simp add: smooth_phase_def min_def)

lemma vdot_vnormalize_self: "0 < vlen2 h \<Longrightarrow> vdot (vnormalize h) h = sqrt (vlen2 h)"
proof -
  assume h: "0 < vlen2 h"
  have "vdot (vnormalize h) h = vlen2 h / sqrt (vlen2 h)"
    using h by (simp add: vnormalize_def vdot_def vscale_def vlen2_def Let_def field_simps)
  also have "\<dots> = sqrt (vlen2 h)" using h by (simp add: real_div_sqrt)
  finally show ?thesis .
qed

lemma vy_vnormalize_flat: "vy (vnormalize (a, 0, b)) = 0"
  by (simp add: vnormalize_def vscale_def Let_def)

lemma camera_tick_fixed:
  "cameraZoomTarget (fst (camera_tick t s cam)) = cameraZoomTarget cam"
  "deathCameraStartTime (fst (camera_tick t s cam)) = deathCameraStartTime cam"
  "initialViewRay (fst (camera_tick t s cam)) = initialViewRay cam"
  by (simp_all add: camera_tick_def Let_def split: option.split prod.split)

lemma camera_tick_smoothed:
  assumes "truthy_id (cameraZoomTarget cam) = Some k" "initialViewRay cam = Some vr"
    "c_local (fst s) \<noteq> 0" "w_pos (snd s) (c_local (fst s)) = Some vp" "w_pos (snd s) k = Some kp"
  shows "fst (camera_tick t s cam) =
    cam\<lparr>smoothedKillerPos := Some (vlerp (case smoothedKillerPos cam of None \<Rightarrow> kp | Some p \<Rightarrow> p) kp 0.1)\<rparr>"
  using assms by (simp add: camera_tick_def Let_def split: option.split)

lemma vlerp_lag: "vlerp p k 0.1 = vadd k (vscale (vsub p k) 0.9)"
  by (simp add: vlerp_def vadd_def vscale_def vsub_def field_simps)

lemma lag_compose:
  "vadd k (vscale (vsub (vadd k (vscale (vsub p k) a)) k) b) = vadd k (vscale (vsub p k) (a * b))"
  by (simp add: vadd_def vscale_def vsub_def algebra_simps)

text \<open>Spawning effects leaves the client record, the clock and the view rays alone.\<close>

lemma addEffect_keeps:
  "fst (snd (addEffect v a p d st)) = fst (snd st)"
  "w_time (snd (snd (addEffect v a p d st))) = w_time (snd (snd st))"
  "w_view (snd (snd (addEffect v a p d st))) = w_view (snd (snd st))"
  "w_player (snd (snd (addEffect v a p d st))) = w_player (snd (snd st))"
  by (cases st; simp add: addEffect_def spawn_entity_def set_pos_def Let_def split: prod.split)+

lemma burst_keeps:
  "fst (snd (foldl (\<lambda>st i. addEffect (v i) acc pos d st) st is)) = fst (snd st)
   \<and> w_time (snd (snd (foldl (\<lambda>st i. addEffect (v i) acc pos d st) st is))) = w_time (snd (snd st))
   \<and> w_view (snd (snd (foldl (\<lambda>st i. addEffect (v i) acc pos d st) st is))) = w_view (snd (snd st))
   \<and> w_player (snd (snd (foldl (\<lambda>st i. addEffect (v i) acc pos d st) st is))) = w_player (snd (snd st))"
  by (induction "is" arbitrary: st) (simp_all add: addEffect_keeps)

lemma setCameraZoomTarget_reads:
  "c_local c = c_local c' \<Longrightarrow> w_time w = w_time w' \<Longrightarrow> w_view w = w_view w' \<Longrightarrow>
     setCameraZoomTarget k (c, w) cam = setCameraZoomTarget k (c', w') cam"
  by (simp add: setCameraZoomTarget_def Let_def split: option.split)

lemma deleteArrow_loop_client:
  "fst (deleteArrow_loop n xs (c, w)) = fst (deleteArrow_loop n xs (c, w'))"
proof (induction xs)
  case (Cons x xs)
  then show ?case by (cases x) (simp add: client_remove_def)
qed simp

lemma deleteArrow_client: "fst (deleteArrow n (c, w)) = fst (deleteArrow n (c, w'))"
  by (simp add: deleteArrow_def deleteArrow_loop_client)

lemma deleteArrow_loop_find:
  "arrows (fst (deleteArrow_loop n xs (c, w))) =
     (case find (\<lambda>x. netId (snd x) = n) xs of None \<Rightarrow> arrows c | Some x \<Rightarrow> AList.delete (fst x) (arrows c))
   \<and> arrowsHit (fst (deleteArrow_loop n xs (c, w))) =
     (case find (\<lambda>x. netId (snd x) = n) xs of None \<Rightarrow> arrowsHit c | Some x \<Rightarrow> removeAll (fst x) (arrowsHit c))"
proof (induction xs)
  case (Cons x xs)
  then show ?case by (cases x) (simp add: client_remove_def drop_arrow_def)
qed simp

text \<open>After the local player's RespawnCommand the camera is off: every later tick returns
  early, sets no pose and changes nothing, until the next death.\<close>

lemma respawn_stops_death_camera:
  "camera_tick t' s' (onRespawnCommandCamera (c_local c) (c, w) cam) = (onRespawnCommandCamera (c_local c) (c, w) cam, None)
   \<and> camera_run run (onRespawnCommandCamera (c_local c) (c, w) cam) = onRespawnCommandCamera (c_local c) (c, w) cam"
proof -
  have stop: "camera_tick t' s' (onRespawnCommandCamera (c_local c) (c, w) cam) = (onRespawnCommandCamera (c_local c) (c, w) cam, None)" for t' s'
    by (simp add: camera_tick_def onRespawnCommandCamera_def setCameraZoomTarget_def)
  have "camera_run run (onRespawnCommandCamera (c_local c) (c, w) cam) = onRespawnCommandCamera (c_local c) (c, w) cam"
    unfolding camera_run_def by (induction run) (auto simp: stop)
  then show ?thesis using stop by simp
qed

subsection \<open>Properties\<close>

text \<open>C7: two seconds after the death the camera has settled: a tick with both bodies present
  sets the camera 4.6 above the victim, 3 units from it horizontally on the side away from the
  smoothed killer position, and looking straight at that position.\<close>

theorem death_camera_settles:
  assumes "truthy_id (cameraZoomTarget cam) = Some k" "initialViewRay cam = Some vr"
    "c_local (fst s) \<noteq> 0" "w_pos (snd s) (c_local (fst s)) = Some vp" "w_pos (snd s) k = Some kp"
    "2 \<le> t - deathCameraStartTime cam"
    "sk = vlerp (case smoothedKillerPos cam of None \<Rightarrow> kp | Some p \<Rightarrow> p) kp 0.1"
    "vx sk \<noteq> vx vp \<or> vz sk \<noteq> vz vp"
  shows "\<exists>cp tp. camera_tick t s cam = (cam\<lparr>smoothedKillerPos := Some sk\<rparr>, Some (cp, tp))
     \<and> vy cp = vy vp + 4.6 \<and> (vx cp - vx vp)\<^sup>2 + (vz cp - vz vp)\<^sup>2 = 9
     \<and> (vx cp - vx vp) * (vx sk - vx vp) + (vz cp - vz vp) * (vz sk - vz vp) < 0
     \<and> vsub tp cp = vnormalize (vsub sk cp)"
proof -
  define h where "h = (vx sk - vx vp, 0::real, vz sk - vz vp)"
  define u where "u = vnormalize h"
  define cp where "cp = (vx vp + vx (vscale u (-1)) * 3, vy vp + 1.6 + 3, vz vp + vz (vscale u (-1)) * 3)"
  have "0 < (vx sk - vx vp)\<^sup>2 + (vz sk - vz vp)\<^sup>2"
    using assms(8) by (simp add: sum_power2_gt_zero_iff)
  then have hpos: "0 < vlen2 h" by (simp add: h_def vlen2_def power2_eq_square)
  have u1: "vlen2 u = 1" using hpos by (simp add: u_def vlen2_vnormalize)
  have uy: "vy u = 0" by (simp add: u_def h_def vy_vnormalize_flat)
  have uh: "vdot u h = sqrt (vlen2 h)" using hpos by (simp add: u_def vdot_vnormalize_self)
  have tick: "camera_tick t s cam = (cam\<lparr>smoothedKillerPos := Some sk\<rparr>, Some (cp, vadd cp (vnormalize (vsub sk cp))))"
    using assms(1-7) smooth_phase_settled [OF assms(6)]
    by (simp add: camera_tick_def Let_def cp_def u_def h_def vsub_def split: option.split)
  have "(vx cp - vx vp)\<^sup>2 + (vz cp - vz vp)\<^sup>2 = 9 * vlen2 u"
    using uy by (simp add: cp_def vscale_def vlen2_def power2_eq_square algebra_simps)
  moreover have "(vx cp - vx vp) * (vx sk - vx vp) + (vz cp - vz vp) * (vz sk - vz vp) = - 3 * vdot u h"
    by (simp add: cp_def vscale_def vdot_def h_def algebra_simps)
  moreover have "vsub (vadd cp x) cp = x" for x
    by (simp add: vsub_def vadd_def)
  ultimately show ?thesis using tick u1 uh hpos by (simp add: cp_def)
qed

theorem death_camera_settles_witness:
  "\<exists>cp tp. camera_tick 12 (demo_client, demo_world)
       \<lparr>cameraZoomTarget = Some 3, deathCameraStartTime = 10, smoothedKillerPos = None,
        initialViewRay = Some ((3, 6, 0), (1, 0, 0))\<rparr> =
     (\<lparr>cameraZoomTarget = Some 3, deathCameraStartTime = 10, smoothedKillerPos = Some (6, 8, 0),
       initialViewRay = Some ((3, 6, 0), (1, 0, 0))\<rparr>, Some (cp, tp))
     \<and> vy cp = 4 + 4.6 \<and> (vx cp - 3)\<^sup>2 + (vz cp - 0)\<^sup>2 = 9"
proof -
  have "\<exists>cp tp. camera_tick 12 (demo_client, demo_world)
       \<lparr>cameraZoomTarget = Some 3, deathCameraStartTime = 10, smoothedKillerPos = None,
        initialViewRay = Some ((3, 6, 0), (1, 0, 0))\<rparr> =
     (\<lparr>cameraZoomTarget = Some 3, deathCameraStartTime = 10, smoothedKillerPos = None,
        initialViewRay = Some ((3, 6, 0), (1, 0, 0))\<rparr>\<lparr>smoothedKillerPos := Some (6, 8, 0)\<rparr>, Some (cp, tp))
     \<and> vy cp = vy (3, 4, 0) + 4.6 \<and> (vx cp - vx (3, 4, 0))\<^sup>2 + (vz cp - vz (3, 4, 0))\<^sup>2 = 9
     \<and> (vx cp - vx (3, 4, 0)) * (vx (6, 8, 0) - vx (3, 4, 0)) + (vz cp - vz (3, 4, 0)) * (vz (6, 8, 0) - vz (3, 4, 0)) < 0
     \<and> vsub tp cp = vnormalize (vsub (6, 8, 0) cp)"
    by (rule death_camera_settles [where k = 3 and vr = "((3, 6, 0), (1, 0, 0))" and vp = "(3, 4, 0)" and kp = "(6, 8, 0)"])
      (simp_all add: demo_client_def demo_world_def vlerp_def)
  then show ?thesis by auto
qed

text \<open>C30: the smoothed target converges to a killer that stands still: over any run of ticks
  in which the camera stays on and the killer's position is fixed, the lag behind it shrinks by
  the factor 0.9 at every tick.\<close>

theorem death_camera_converges:
  assumes "\<forall>(t, s) \<in> set run. c_local (fst s) = v \<and> w_pos (snd s) v \<noteq> None \<and> w_pos (snd s) k = Some kp"
    "truthy_id (cameraZoomTarget cam) = Some k" "initialViewRay cam \<noteq> None" "v \<noteq> 0"
    "smoothedKillerPos cam = Some p"
  shows "smoothedKillerPos (camera_run run cam) = Some (vadd kp (vscale (vsub p kp) (0.9 ^ length run)))"
  using assms
proof (induction run arbitrary: cam p)
  case Nil
  then show ?case by (simp add: camera_run_def vadd_def vscale_def vsub_def)
next
  case (Cons f run)
  obtain t s where f: "f = (t, s)" by (metis surj_pair)
  obtain vr where vr: "initialViewRay cam = Some vr" using Cons.prems(3) by auto
  obtain vp where vp: "w_pos (snd s) v = Some vp" using Cons.prems(1) f by auto
  let ?cam = "fst (camera_tick t s cam)"
  have step: "?cam = cam\<lparr>smoothedKillerPos := Some (vadd kp (vscale (vsub p kp) 0.9))\<rparr>"
    using camera_tick_smoothed [OF Cons.prems(2) vr, of s vp kp t] Cons.prems f vp by (simp add: vlerp_lag)
  have "smoothedKillerPos (camera_run run ?cam) =
          Some (vadd kp (vscale (vsub (vadd kp (vscale (vsub p kp) 0.9)) kp) (0.9 ^ length run)))"
    using Cons.IH [of ?cam] Cons.prems step by simp
  then show ?case by (simp add: camera_run_def f lag_compose)
qed

theorem death_camera_converges_witness:
  "smoothedKillerPos (camera_run [(11, demo_client, demo_world), (12, demo_client, demo_world)]
      \<lparr>cameraZoomTarget = Some 3, deathCameraStartTime = 10, smoothedKillerPos = Some (0, 0, 0),
       initialViewRay = Some ((3, 6, 0), (1, 0, 0))\<rparr>) = Some (6 * 0.19, 8 * 0.19, 0)"
proof -
  have "smoothedKillerPos (camera_run [(11, demo_client, demo_world), (12, demo_client, demo_world)]
      \<lparr>cameraZoomTarget = Some 3, deathCameraStartTime = 10, smoothedKillerPos = Some (0, 0, 0),
       initialViewRay = Some ((3, 6, 0), (1, 0, 0))\<rparr>) =
      Some (vadd (6, 8, 0) (vscale (vsub (0, 0, 0) (6, 8, 0)) (0.9 ^ length [(11::real, demo_client, demo_world), (12, demo_client, demo_world)])))"
    by (rule death_camera_converges [where v = 2 and k = 3])
      (simp_all add: demo_client_def demo_world_def)
  then show ?thesis by (simp add: vadd_def vscale_def vsub_def)
qed

text \<open>The HitCommand listener in three parts: the camera turns to the attacker when the
  local player died, twelve death particles are added, and the arrow is deleted from a world
  that differs from the old one only in the particles' props.\<close>

lemma onHitCommandDeath_parts:
  "\<exists>es1 w1. onHitCommandDeath rolls attackerId victimId position n (cam, es, c, w) =
       (if victimId = c_local c then setCameraZoomTarget (Some attackerId) (c, w) cam else cam,
        es1, deleteArrow n (c, w1))
     \<and> length es1 = length es + 12
     \<and> w_time w1 = w_time w \<and> w_view w1 = w_view w \<and> w_player w1 = w_player w"
proof -
  obtain es1 c1 w1 where sp: "spawnPlayerDeathParticles rolls position (es, c, w) = (es1, c1, w1)"
    by (metis prod_cases3)
  have k: "c1 = c \<and> w_time w1 = w_time w \<and> w_view w1 = w_view w \<and> w_player w1 = w_player w"
    using burst_keeps [of "\<lambda>i. death_velocity (rolls i) i" "(0, -30, 0)" position 1 "(es, c, w)" "[0..<12]"] sp
    by (simp only: spawnPlayerDeathParticles_def burst_loop_foldl) simp
  have len: "length es1 = length es + 12"
    using burst_length [of "\<lambda>i. death_velocity (rolls i) i" "(0, -30, 0)" position 1 "(es, c, w)" "[0..<12]"] sp
    by (simp only: spawnPlayerDeathParticles_def burst_loop_foldl) simp
  show ?thesis
    using k len sp setCameraZoomTarget_reads [of c c w1 w "Some attackerId" cam]
    by (auto simp add: onHitCommandDeath_def handlePlayerDeath_def onHitCommandClient_def Let_def)
qed

text \<open>C31: the client's HitCommand listener starts the death camera exactly when the local
  player is the victim and the attacker handle is truthy: the target becomes the attacker, the
  start time the clock of that moment, the smoothed killer position is reset and the initial
  view ray is the victim's; a zero attacker only stores the target, and a remote victim leaves
  the camera alone. The listener then deletes the first arrow with the command's netId from the
  client's arrow map and hit list and leaves them unchanged when there is none.\<close>

theorem hit_starts_death_camera:
  "fst (onHitCommandDeath rolls attackerId victimId position n (cam, es, c, w)) =
     (if victimId \<noteq> c_local c then cam
      else if attackerId = 0 then cam\<lparr>cameraZoomTarget := Some 0\<rparr>
      else cam\<lparr>cameraZoomTarget := Some attackerId, deathCameraStartTime := w_time w,
                smoothedKillerPos := None,
                initialViewRay := (if victimId = 0 then None else w_view w victimId)\<rparr>)
   \<and> arrows (fst (snd (snd (onHitCommandDeath rolls attackerId victimId position n (cam, es, c, w))))) =
     (case find (\<lambda>x. netId (snd x) = n) (arrows c) of
        None \<Rightarrow> arrows c | Some x \<Rightarrow> AList.delete (fst x) (arrows c))
   \<and> arrowsHit (fst (snd (snd (onHitCommandDeath rolls attackerId victimId position n (cam, es, c, w))))) =
     (case find (\<lambda>x. netId (snd x) = n) (arrows c) of
        None \<Rightarrow> arrowsHit c | Some x \<Rightarrow> removeAll (fst x) (arrowsHit c))"
proof -
  obtain es1 w1 where d: "onHitCommandDeath rolls attackerId victimId position n (cam, es, c, w) =
       (if victimId = c_local c then setCameraZoomTarget (Some attackerId) (c, w) cam else cam,
        es1, deleteArrow n (c, w1))"
    using onHitCommandDeath_parts [of rolls attackerId victimId position n cam es c w] by blast
  show ?thesis
    unfolding d using deleteArrow_loop_find [of n "arrows c" c w1]
    by (simp add: deleteArrow_def setCameraZoomTarget_def)
qed

end
