(* ===== verification/HUD.thy ===== *)
theory HUD
  imports UI
begin

text \<open>
  What the HUD tick of \<open>src/project/client/ui.ts\<close> (lines 188-332) writes to the page: the
  style properties it sets are the fields of the record \<open>hud\<close>, a store the tick updates
  field by field, a property the tick does not write keeping its value. Colours are recorded
  by what they show (the overlay's rgba, the label red or white), an element's HTML by the
  datum it shows. The module state the same tick updates is \<open>ui_tick\<close> of \<open>UI\<close>;
  \<open>ui_frame\<close> runs both on the state before the tick, as the one callback does.
  \<open>J.getCharacterInput(id)?.isPrimaryDown\<close> is the parameter \<open>primaryDown\<close>.
\<close>

text \<open>The elastic ease of lines 228-233 and 307-312.\<close>

definition elastic_wobble :: "real \<Rightarrow> real" where
  "elastic_wobble progress =
     (let c4 = (2 * pi) / 3
      in if progress = 0 then 0 else if progress = 1 then 0
         else 2 powr (-10 * progress) * sin ((progress * 10 - 0.75) * c4))"

text \<open>The scale of one arrow indicator (lines 223-243).\<close>

definition indicator_scale :: "real \<Rightarrow> real \<Rightarrow> real" where
  "indicator_scale t wobbleStart =
     (if 0 < wobbleStart then
        (let elapsed = t - wobbleStart; duration = 0.4
         in if elapsed < duration then 1 + elastic_wobble (elapsed / duration) * 1.5 else 1)
      else 1)"

text \<open>Lines 195-197: the black fade after the game start and around the respawn time.\<close>

definition dark_fade_alpha :: "real \<Rightarrow> player_trait \<Rightarrow> ui_state \<Rightarrow> real" where
  "dark_fade_alpha t player ui =
     (let gameStartFadeIn = max 0 (1 - (t - gameStartTime ui) / 2);
          respawnFadeInOut = (if 0 < respawnTime player
                              then max 0 (1 - \<bar>respawnTime player - t\<bar> / 1) else 0)
      in max gameStartFadeIn respawnFadeInOut)"

text \<open>Lines 256-258.\<close>

definition label_pulsate :: "real \<Rightarrow> real" where
  "label_pulsate t =
     (let sineWave = sin (t * 10);
          squareSine = sgn sineWave * (\<bar>sineWave\<bar> powr 0.4)
      in 1 + squareSine * 0.1)"

text \<open>One row of the kill feed (lines 393-498): the killer (none for an environmental
  death), the victim, the opacity (fading out over the last second), the appearing wobble's scale
  and whether the local player's kill is highlighted.\<close>

record feed_row =
  rowKiller :: "string option"
  rowVictim :: string
  rowOpacity :: real
  rowScale :: real
  rowHighlight :: bool

definition kill_feed_row :: "real \<Rightarrow> feed_entry \<Rightarrow> feed_row" where
  "kill_feed_row t entry =
     (let elapsed = t - startTime entry;
          timeRemaining = endTime entry - t;
          wobbleDuration = 0.4;
          scale = (if elapsed < wobbleDuration then 1 + elastic_wobble (elapsed / wobbleDuration) * 1.5 else 1);
          opacity = (if timeRemaining < 1 then timeRemaining else 1)
      in \<lparr>rowKiller = (if isEnvironmental entry then None else Some (killerName entry)),
          rowVictim = victimName entry, rowOpacity = opacity, rowScale = scale,
          rowHighlight = isLocalPlayerKiller entry\<rparr>)"

record hud =
  overlayColor :: "real \<times> real \<times> real \<times> real"
  textHtml :: "death_message option"
  textOpacity :: real
  textScale :: real
  indicatorOpacity :: "real list"
  indicatorScale :: "real list"
  labelRed :: bool
  labelOpacity :: real
  labelScale :: real
  noticeHtml :: "kill_notice option"
  noticeOpacity :: real
  noticeScale :: real
  noticeStyle :: notice_style
  leaderboardRows :: "lb_row list"
  playerCountLine :: "nat option"
  feedRows :: "feed_row list"

text \<open>The page after the game start (lines 60-186): the browser's defaults, white labels and
  a hidden notification (line 182).\<close>

definition hud_init :: hud where
  "hud_init = \<lparr>overlayColor = (0, 0, 0, 0), textHtml = None, textOpacity = 1, textScale = 1,
     indicatorOpacity = [1, 1, 1], indicatorScale = [1, 1, 1], labelRed = False, labelOpacity = 1,
     labelScale = 1, noticeHtml = None, noticeOpacity = 0, noticeScale = 1, noticeStyle = NoStyle,
     leaderboardRows = [], playerCountLine = None, feedRows = []\<rparr>"

text \<open>Lines 188-502: what the tick writes. The alive branch reads the wobble times after the
  arrow-count change of lines 206-213 and before the loop resets them; the leaderboard is
  \<open>leaderboard_rows\<close> and \<open>player_count_line\<close> of \<open>UI\<close>, the kill feed the rows of the entries
  the tick keeps.\<close>

definition hud_tick :: "eid \<Rightarrow> real \<Rightarrow> bool \<Rightarrow> world \<Rightarrow> ui_state \<Rightarrow> hud \<Rightarrow> hud" where
  "hud_tick localPlayerId t primaryDown w ui h =
     (if localPlayerId = 0 then h
      else case w_player w localPlayerId of
        None \<Rightarrow> h
      | Some player \<Rightarrow>
          (let darkFadeAlpha = dark_fade_alpha t player ui;
               isAlive = w_alive w localPlayerId;
               h1 = (if isAlive then
                       (let ui1 = arrow_count_change t (arrowCount player) (ui\<lparr>lastTimeAlive := t\<rparr>);
                            ws = arrowWobbleStartTimes ui1;
                            isTryingToShoot = primaryDown;
                            redLabel = (arrowCount player = 0 \<and> isTryingToShoot)
                        in h\<lparr>overlayColor := (0, 0, 0, darkFadeAlpha), textHtml := None,
                             indicatorOpacity := map (\<lambda>i. if int i < arrowCount player then 1 else 0.3)
                                                   [0..<arrowIndicatorCount],
                             indicatorScale := map (\<lambda>i. indicator_scale t (ws ! i)) [0..<arrowIndicatorCount],
                             labelRed := redLabel,
                             labelOpacity := (if redLabel then 1 else 0.3),
                             labelScale := (if redLabel then label_pulsate t else 1)\<rparr>)
                     else
                       (let deathElapsed = t - lastTimeAlive ui;
                            deathFade = min 1 (deathElapsed / 3);
                            redOpacity = 0.8 - deathFade * 0.6;
                            finalAlpha = max darkFadeAlpha redOpacity;
                            textFadeStart = 1;
                            textOpacity = (if textFadeStart < deathElapsed
                                           then min 1 ((deathElapsed - textFadeStart) / 1) else 0);
                            scaleProgress = min 1 (deathElapsed / 2.5);
                            easedProgress = scaleProgress * scaleProgress * (3 - 2 * scaleProgress);
                            scale = 1.5 - easedProgress * 0.5
                        in h\<lparr>overlayColor := (if 0 < darkFadeAlpha then (0, 0, 0, finalAlpha)
                                             else (139, 0, 0, redOpacity)),
                             textHtml := Some (deathMessage ui), textOpacity := textOpacity,
                             textScale := scale,
                             indicatorOpacity := replicate arrowIndicatorCount 0, labelOpacity := 0\<rparr>));
               h2 = (if isAlive \<and> t < notificationEndTime ui then
                       (let elapsed = t - notificationStartTime ui;
                            wobbleDuration = 0.4;
                            scale = (if elapsed < wobbleDuration
                                     then 1 + elastic_wobble (elapsed / wobbleDuration) * 1.5 else 1)
                        in h1\<lparr>noticeHtml := notificationText ui, noticeOpacity := 1, noticeScale := scale,
                              noticeStyle := notificationCustomStyle ui\<rparr>)
                     else h1\<lparr>noticeOpacity := 0, noticeHtml := None\<rparr>)
           in h2\<lparr>leaderboardRows := leaderboard_rows localPlayerId (isTabPressed ui) w,
                 playerCountLine := player_count_line (isTabPressed ui) w,
                 feedRows := map (kill_feed_row t) (filter (\<lambda>entry. t < endTime entry) (killFeedEntries ui))\<rparr>))"

text \<open>One call of the tick callback: the module state and the page, both from the state
  before it.\<close>

definition ui_frame :: "eid \<Rightarrow> real \<Rightarrow> bool \<Rightarrow> world \<Rightarrow> ui_state \<times> hud \<Rightarrow> ui_state \<times> hud" where
  "ui_frame localPlayerId t primaryDown w st = (case st of (ui, h) \<Rightarrow>
     (ui_tick localPlayerId t w ui, hud_tick localPlayerId t primaryDown w ui h))"

abbreviation overlay_alpha :: "hud \<Rightarrow> real" where
  "overlay_alpha h \<equiv> snd (snd (snd (overlayColor h)))"

subsection \<open>What the tick writes\<close>

lemma hud_tick_alive_fields:
  assumes "localPlayerId \<noteq> 0" "w_player w localPlayerId = Some p" "w_alive w localPlayerId"
  shows "indicatorOpacity (hud_tick localPlayerId t pd w ui h) =
           map (\<lambda>i. if int i < arrowCount p then 1 else 0.3) [0..<arrowIndicatorCount]"
    "overlayColor (hud_tick localPlayerId t pd w ui h) = (0, 0, 0, dark_fade_alpha t p ui)"
    "textHtml (hud_tick localPlayerId t pd w ui h) = None"
  using assms by (simp_all add: hud_tick_def Let_def)

lemma hud_tick_dead_fields:
  assumes "localPlayerId \<noteq> 0" "w_player w localPlayerId = Some p" "\<not> w_alive w localPlayerId"
  shows "indicatorOpacity (hud_tick localPlayerId t pd w ui h) = replicate arrowIndicatorCount 0"
    "overlayColor (hud_tick localPlayerId t pd w ui h) =
       (if 0 < dark_fade_alpha t p ui
        then (0, 0, 0, max (dark_fade_alpha t p ui) (0.8 - min 1 ((t - lastTimeAlive ui) / 3) * 0.6))
        else (139, 0, 0, 0.8 - min 1 ((t - lastTimeAlive ui) / 3) * 0.6))"
    "textHtml (hud_tick localPlayerId t pd w ui h) = Some (deathMessage ui)"
    "textOpacity (hud_tick localPlayerId t pd w ui h) =
       (if 1 < t - lastTimeAlive ui then min 1 ((t - lastTimeAlive ui - 1) / 1) else 0)"
    "noticeOpacity (hud_tick localPlayerId t pd w ui h) = 0"
  using assms by (simp_all add: hud_tick_def Let_def)

lemma dark_fade_alpha_bounds:
  "gameStartTime ui \<le> t \<Longrightarrow> 0 \<le> dark_fade_alpha t p ui \<and> dark_fade_alpha t p ui \<le> 1"
  by (auto simp: dark_fade_alpha_def Let_def max_def)

lemma dark_fade_alpha_peaks:
  "dark_fade_alpha (gameStartTime ui) p ui = 1"
  "0 < respawnTime p \<Longrightarrow> gameStartTime ui \<le> respawnTime p \<Longrightarrow> dark_fade_alpha (respawnTime p) p ui = 1"
  by (auto simp: dark_fade_alpha_def Let_def max_def)

text \<open>While the local player is alive exactly the first arrowCount of the three indicators
  are opaque and the others dimmed to 0.3; while dead all three are hidden.\<close>

lemma hud_arrow_indicators:
  assumes "localPlayerId \<noteq> 0" "w_player w localPlayerId = Some p"
  shows "length (indicatorOpacity (hud_tick localPlayerId t pd w ui h)) = 3
    \<and> (\<forall>i < 3. indicatorOpacity (hud_tick localPlayerId t pd w ui h) ! i =
         (if w_alive w localPlayerId then (if int i < arrowCount p then 1 else 0.3) else 0))"
  using hud_tick_alive_fields(1) [OF assms] hud_tick_dead_fields(1) [OF assms]
  by (cases "w_alive w localPlayerId") (simp_all add: arrowIndicatorCount_def)

text \<open>The overlay's opacity stays in [0, 1]; the screen is fully black at the game start and
  at the respawn moment (the fade starts a second before it), and while the player is dead it
  never clears below 0.2.\<close>

lemma hud_overlay_fade:
  assumes "localPlayerId \<noteq> 0" "w_player w localPlayerId = Some p"
    "gameStartTime ui \<le> t" "lastTimeAlive ui \<le> t"
  shows "0 \<le> overlay_alpha (hud_tick localPlayerId t pd w ui h)
    \<and> overlay_alpha (hud_tick localPlayerId t pd w ui h) \<le> 1
    \<and> (\<not> w_alive w localPlayerId \<longrightarrow> 0.2 \<le> overlay_alpha (hud_tick localPlayerId t pd w ui h))
    \<and> (w_alive w localPlayerId \<and> (t = gameStartTime ui \<or> t = respawnTime p \<and> 0 < t) \<longrightarrow>
         overlay_alpha (hud_tick localPlayerId t pd w ui h) = 1)"
proof (cases "w_alive w localPlayerId")
  case True
  then show ?thesis
    using hud_tick_alive_fields(2) [OF assms(1,2) True] dark_fade_alpha_bounds [OF assms(3), where p = p]
      dark_fade_alpha_peaks [where p = p and ui = ui] assms(3)
    by auto
next
  case False
  define a where "a = dark_fade_alpha t p ui"
  define r where "r = 0.8 - min 1 ((t - lastTimeAlive ui) / 3) * (0.6::real)"
  have r: "0.2 \<le> r" "r \<le> 0.8"
    using assms(4) by (auto simp: r_def min_def)
  have a: "0 \<le> a" "a \<le> 1" using dark_fade_alpha_bounds [OF assms(3), where p = p] by (simp_all add: a_def)
  have "overlayColor (hud_tick localPlayerId t pd w ui h) = (if 0 < a then (0, 0, 0, max a r) else (139, 0, 0, r))"
    unfolding a_def r_def by (rule hud_tick_dead_fields(2) [OF assms(1,2) False])
  then have "overlay_alpha (hud_tick localPlayerId t pd w ui h) = (if 0 < a then max a r else r)" by simp
  then show ?thesis using r a False by (auto simp: max_def)
qed

subsection \<open>The kill feed on the page\<close>

text \<open>The page shows one row per entry the module keeps, in order, each with an opacity in
  (0, 1]: the rows are drawn from the same filtered list the tick stores.\<close>

lemma hud_feed_rows:
  assumes "localPlayerId \<noteq> 0" "w_player w localPlayerId = Some p"
  shows "map rowVictim (feedRows (hud_tick localPlayerId t pd w ui h)) =
           map victimName (killFeedEntries (ui_tick localPlayerId t w ui))
    \<and> (\<forall>r \<in> set (feedRows (hud_tick localPlayerId t pd w ui h)). 0 < rowOpacity r \<and> rowOpacity r \<le> 1)"
proof -
  have rows: "feedRows (hud_tick localPlayerId t pd w ui h) =
      map (kill_feed_row t) (filter (\<lambda>entry. t < endTime entry) (killFeedEntries ui))"
    using assms by (simp add: hud_tick_def Let_def)
  have feed: "killFeedEntries (ui_tick localPlayerId t w ui) = filter (\<lambda>entry. t < endTime entry) (killFeedEntries ui)"
    using assms by (simp add: ui_tick_def Let_def)
  have "0 < rowOpacity (kill_feed_row t e) \<and> rowOpacity (kill_feed_row t e) \<le> 1" if "t < endTime e" for e
    using that by (simp add: kill_feed_row_def Let_def)
  then show ?thesis by (auto simp: rows feed kill_feed_row_def Let_def)
qed

end
