(* ===== verification/Utils.thy ===== *)
theory Utils
  imports Particles
begin

text \<open>
  \<open>src/project/utils.ts\<close>: the easing curves and \<open>quatFromDirection\<close>. \<open>easeOutCubic\<close>,
  the one curve the game uses, is in \<open>Player\<close>; the others are exported for presentation and
  modelled here as the functions they are (\<open>Math.pow\<close> with a real exponent is \<open>powr\<close>).
  \<open>quatFromDirection\<close> builds the rotation matrix whose columns are the right, up and
  forward axes and converts it with \<open>quat.fromMat3\<close>; it is recorded as that frame. The arrow
  model of \<open>ClientArrow\<close> records an arrow's rotation by the direction it is built from;
  the lemmas below show the frame is a rotation taking the forward axis to that direction,
  except for a vertical or zero direction.
\<close>

definition easeInQuad :: "real \<Rightarrow> real" where "easeInQuad t = t * t"
definition easeOutQuad :: "real \<Rightarrow> real" where "easeOutQuad t = t * (2 - t)"
definition easeInOutQuad :: "real \<Rightarrow> real" where
  "easeInOutQuad t = (if t < 0.5 then 2 * t * t else -1 + (4 - 2 * t) * t)"
definition easeInCubic :: "real \<Rightarrow> real" where "easeInCubic t = t * t * t"
definition easeInOutCubic :: "real \<Rightarrow> real" where
  "easeInOutCubic t = (if t < 0.5 then 4 * t * t * t else (t - 1) * (2 * t - 2) * (2 * t - 2) + 1)"
definition easeInExpo :: "real \<Rightarrow> real" where
  "easeInExpo t = (if t = 0 then 0 else 2 powr (10 * (t - 1)))"
definition easeOutExpo :: "real \<Rightarrow> real" where
  "easeOutExpo t = (if t = 1 then 1 else 1 - 2 powr (-10 * t))"
definition easeInElastic :: "real \<Rightarrow> real" where
  "easeInElastic t = sin (((13 * pi) / 2) * t) * 2 powr (10 * (t - 1))"
definition easeOutElastic :: "real \<Rightarrow> real" where
  "easeOutElastic t = sin (((-13 * pi) / 2) * (t + 1)) * 2 powr (-10 * t) + 1"
definition spring :: "real \<Rightarrow> real \<Rightarrow> real \<Rightarrow> real" where
  "spring t damping frequency = sin (frequency * t) * exp (- damping * t)"
definition easeOutCirc :: "real \<Rightarrow> real" where
  "easeOutCirc x = sqrt (1 - (x - 1)\<^sup>2)"

text \<open>Lines 28-47: the frame (right, correctedUp, forward).\<close>

definition quatFromDirection :: "vec3 \<Rightarrow> vec3 \<times> vec3 \<times> vec3" where
  "quatFromDirection dir =
     (let forward = vnormalize dir;
          up = (0, 1, 0);
          right = vnormalize (vcross up forward);
          correctedUp = vcross forward right
      in (right, correctedUp, forward))"

subsection \<open>The curves run from 0 to 1\<close>

lemma sin_13_pi_half: "sin (13 * pi / 2) = 1" "sin (-13 * pi / 2) = -1" "sin (-13 * pi) = 0"
proof -
  have "13 * pi / 2 = pi / 2 + 2 * pi + 2 * pi + 2 * pi" by simp
  then show "sin (13 * pi / 2) = 1" by (simp only: sin_periodic sin_pi_half)
  then show "sin (-13 * pi / 2) = -1" by simp
  have "-13 * pi = real_of_int (-13) * pi" by simp
  then show "sin (-13 * pi) = 0" unfolding sin_zero_iff_int2 by blast
qed

lemma easing_endpoints:
  "easeInQuad 0 = 0" "easeInQuad 1 = 1" "easeOutQuad 0 = 0" "easeOutQuad 1 = 1"
  "easeInOutQuad 0 = 0" "easeInOutQuad 1 = 1" "easeInCubic 0 = 0" "easeInCubic 1 = 1"
  "easeInOutCubic 0 = 0" "easeInOutCubic 1 = 1" "easeInExpo 0 = 0" "easeInExpo 1 = 1"
  "easeOutExpo 0 = 0" "easeOutExpo 1 = 1" "easeInElastic 0 = 0" "easeInElastic 1 = 1"
  "easeOutElastic 0 = 0" "easeOutElastic 1 = 1" "easeOutCirc 0 = 0" "easeOutCirc 1 = 1"
  "spring 0 d f = 0"
  by (simp_all add: easeInQuad_def easeOutQuad_def easeInOutQuad_def easeInCubic_def
      easeInOutCubic_def easeInExpo_def easeOutExpo_def easeInElastic_def easeOutElastic_def
      easeOutCirc_def spring_def sin_13_pi_half)

subsection \<open>quatFromDirection builds a rotation\<close>

lemma vlen2_pos_iff: "0 < vlen2 a \<longleftrightarrow> a \<noteq> (0, 0, 0)"
proof -
  have "0 < (vx a)\<^sup>2 + (vy a)\<^sup>2 + (vz a)\<^sup>2 \<longleftrightarrow> vx a \<noteq> 0 \<or> vy a \<noteq> 0 \<or> vz a \<noteq> 0"
  proof (cases "vx a \<noteq> 0 \<or> vy a \<noteq> 0")
    case True
    then have "0 < (vx a)\<^sup>2 + (vy a)\<^sup>2" by (simp add: sum_power2_gt_zero_iff)
    then have "0 < (vx a)\<^sup>2 + (vy a)\<^sup>2 + (vz a)\<^sup>2" by (simp add: add_pos_nonneg)
    then show ?thesis using True by blast
  next
    case False
    then show ?thesis by simp
  qed
  moreover have "a = (0, 0, 0) \<longleftrightarrow> vx a = 0 \<and> vy a = 0 \<and> vz a = 0"
    by (cases a) (simp add: vx_def vy_def vz_def)
  ultimately show ?thesis by (simp add: vlen2_def power2_eq_square)
qed

lemma vnormalize_dir:
  "0 < vlen2 d \<Longrightarrow> vnormalize d = vscale d (1 / sqrt (vlen2 d))"
  by (simp add: vnormalize_def Let_def)

text \<open>For a direction that is not vertical the frame is orthonormal, its right axis is
  horizontal, its up axis points upwards and its forward axis is the direction normalized:
  the rotation of the arrow model is determined by, and recorded faithfully as, its direction.\<close>

lemma quatFromDirection_frame:
  assumes "quatFromDirection dir = (r, u, f)" "vx dir \<noteq> 0 \<or> vz dir \<noteq> 0"
  shows "f = vnormalize dir \<and> vlen2 f = 1 \<and> vlen2 r = 1 \<and> vlen2 u = 1
    \<and> vdot r f = 0 \<and> vdot u f = 0 \<and> vdot u r = 0 \<and> vy r = 0 \<and> 0 < vy u"
proof -
  have f: "f = vnormalize dir" and r: "r = vnormalize (vcross (0, 1, 0) f)" and u: "u = vcross f r"
    using assms(1) by (auto simp: quatFromDirection_def Let_def)
  have d: "0 < vlen2 dir" using assms(2) by (auto simp: vlen2_pos_iff)
  have f1: "vlen2 f = 1" using d by (simp add: f vlen2_vnormalize)
  have c: "vcross (0, 1, 0) f = (vz f, 0, - vx f)" by (simp add: vcross_def)
  have fxz: "vx f \<noteq> 0 \<or> vz f \<noteq> 0"
    using assms(2) d by (auto simp: f vnormalize_dir vscale_def)
  have cpos: "0 < vlen2 (vcross (0, 1, 0) f)"
    using fxz by (auto simp: c vlen2_def sum_power2_gt_zero_iff power2_eq_square [symmetric]
        add_pos_nonneg add_nonneg_pos)
  have r1: "vlen2 r = 1" using cpos by (simp add: r vlen2_vnormalize)
  have rf: "vdot r f = 0"
    using vdot_vnormalize [OF vdot_cross_self(2) [of f "(0, 1, 0)"]] by (simp add: r vdot_comm)
  have u1: "vlen2 u = 1" using f1 r1 rf by (simp add: u vlen2_cross vdot_comm)
  have uf: "vdot u f = 0" using vdot_cross_self(1) [of f r] by (simp add: u vdot_comm)
  have ur: "vdot u r = 0" using vdot_cross_self(2) [of r f] by (simp add: u vdot_comm)
  have ry: "vy r = 0" by (simp add: r c vnormalize_def vscale_def Let_def)
  have "vy u = sqrt (vlen2 (vcross (0, 1, 0) f))"
  proof -
    let ?s = "sqrt (vlen2 (vcross (0, 1, 0) f))"
    have "vy u = (vz f * vz f + vx f * vx f) / ?s"
      using cpos by (simp add: u r c vcross_def vnormalize_def vscale_def Let_def field_simps)
    also have "\<dots> = vlen2 (vcross (0, 1, 0) f) / ?s" by (simp add: c vlen2_def)
    also have "\<dots> = ?s" using cpos by (simp add: real_div_sqrt)
    finally show ?thesis .
  qed
  then have "0 < vy u" using cpos by simp
  then show ?thesis using f f1 r1 u1 rf uf ur ry by simp
qed

text \<open>A vertical direction (an arrow fired or falling straight up or down) has no horizontal
  part: the right and up axes are the zero vector and the matrix handed to
  \<open>quat.fromMat3\<close> is singular, not a rotation.\<close>

lemma quatFromDirection_vertical:
  "vx dir = 0 \<Longrightarrow> vz dir = 0 \<Longrightarrow> fst (quatFromDirection dir) = (0, 0, 0) \<and> fst (snd (quatFromDirection dir)) = (0, 0, 0)"
  by (simp add: quatFromDirection_def Let_def vcross_def vnormalize_def vscale_def vlen2_def)

end
