(* ===== verification/ClientHit.thy ===== *)
theory ClientHit
  imports Camera HUD
begin

text \<open>The client registers three listeners for HitCommand: the kill feed and progression of
  ui.ts (lines 503-545), the bow debris of debris.ts (lines 11-37) and the death burst, camera and
  arrow deletion of arrow.ts (lines 264-267). The engine runs every listener of a command, in the
  order the modules registered them. This theory runs them in any order over one client state
  and shows that what the player sees does not depend on that order.\<close>

datatype hit_listener = HitListenerUI | HitListenerDebris | HitListenerDeath

record hit_state =
  hit_ui :: ui_state
  hit_cam :: camera_state
  hit_debris :: "debris_entry list"
  hit_effects :: "effect list"
  hit_client :: client
  hit_world :: world

text \<open>One listener on the data of one HitCommand: attacker, victim, position and the arrow's
  netId; a listener that throws leaves the state it had reached (the engine goes on with the next
  listener).\<close>

fun run_hit_listener :: "(nat \<Rightarrow> death_rolls) \<Rightarrow> debris_rolls \<Rightarrow> eid \<Rightarrow> eid \<Rightarrow> vec3 \<Rightarrow> int \<Rightarrow>
    hit_state \<Rightarrow> hit_listener \<Rightarrow> hit_state" where
  "run_hit_listener dr rr a v pos n s HitListenerUI =
     s\<lparr>hit_ui := js_state (onHitCommandUI (c_local (hit_client s)) a v (hit_world s) (hit_ui s))\<rparr>"
| "run_hit_listener dr rr a v pos n s HitListenerDebris =
     (case onHitCommandDebris rr v (hit_debris s, hit_client s, hit_world s) of
        (d, c, w) \<Rightarrow> s\<lparr>hit_debris := d, hit_client := c, hit_world := w\<rparr>)"
| "run_hit_listener dr rr a v pos n s HitListenerDeath =
     (case onHitCommandDeath dr a v pos n (hit_cam s, hit_effects s, hit_client s, hit_world s) of
        (cam, es, c, w) \<Rightarrow> s\<lparr>hit_cam := cam, hit_effects := es, hit_client := c, hit_world := w\<rparr>)"

definition dispatch_hit :: "(nat \<Rightarrow> death_rolls) \<Rightarrow> debris_rolls \<Rightarrow> eid \<Rightarrow> eid \<Rightarrow> vec3 \<Rightarrow> int \<Rightarrow>
    hit_listener list \<Rightarrow> hit_state \<Rightarrow> hit_state" where
  "dispatch_hit dr rr a v pos n order s = foldl (run_hit_listener dr rr a v pos n) s order"

text \<open>What the player sees of the three listeners: the page's kill feed and notices, the
  camera, the arrows in flight and the number of debris and particle props (their entity
  handles come from the same counter and so depend on the order).\<close>

definition hit_observed :: "hit_state \<Rightarrow>
    ui_state \<times> camera_state \<times> (eid \<times> arrow_entry) list \<times> eid list \<times> nat \<times> nat" where
  "hit_observed s = (hit_ui s, hit_cam s, arrows (hit_client s), arrowsHit (hit_client s),
     length (hit_debris s), length (hit_effects s))"

text \<open>The arrows in flight are props without a PlayerTrait: deleting one touches no player.\<close>

definition arrows_traitless :: "client \<Rightarrow> world \<Rightarrow> bool" where
  "arrows_traitless c w \<longleftrightarrow>
     (\<forall>x\<in>set (arrows c). w_player w (fst x) = None \<and> w_player w (arrow (snd x)) = None)"

text \<open>The state after the listeners of \<open>L\<close> have run from \<open>s0\<close>, in some order.\<close>

definition hit_progress :: "(nat \<Rightarrow> death_rolls) \<Rightarrow> debris_rolls \<Rightarrow> eid \<Rightarrow> eid \<Rightarrow> vec3 \<Rightarrow> int \<Rightarrow>
    hit_state \<Rightarrow> hit_listener set \<Rightarrow> hit_state \<Rightarrow> bool" where
  "hit_progress dr rr a v pos n s0 L s \<longleftrightarrow>
     (let c0 = hit_client s0; w0 = hit_world s0; c = hit_client s; w = hit_world s
      in hit_ui s = (if HitListenerUI \<in> L then js_state (onHitCommandUI (c_local c0) a v w0 (hit_ui s0))
                     else hit_ui s0)
       \<and> length (hit_debris s) = length (hit_debris s0)
           + (if HitListenerDebris \<in> L \<and> w_view w0 v \<noteq> None then 1 else 0)
       \<and> w_player w = w_player w0 \<and> w_time w = w_time w0 \<and> c_local c = c_local c0
       \<and> w_view w v = w_view w0 v
       \<and> (if HitListenerDeath \<in> L
          then hit_cam s = (if v = c_local c0 then setCameraZoomTarget (Some a) (c0, w0) (hit_cam s0)
                            else hit_cam s0)
             \<and> length (hit_effects s) = length (hit_effects s0) + 12
             \<and> arrows c = arrows (fst (deleteArrow n (c0, w0)))
             \<and> arrowsHit c = arrowsHit (fst (deleteArrow n (c0, w0)))
          else hit_cam s = hit_cam s0 \<and> hit_effects s = hit_effects s0
             \<and> arrows c = arrows c0 \<and> arrowsHit c = arrowsHit c0 \<and> w_view w = w_view w0))"

subsection \<open>What each listener reads and writes\<close>

lemma onHitCommandUI_reads:
  "w_player w = w_player w' \<Longrightarrow> w_time w = w_time w' \<Longrightarrow>
     onHitCommandUI l a v w ui = onHitCommandUI l a v w' ui"
proof -
  assume p: "w_player w = w_player w'" and t: "w_time w = w_time w'"
  have n: "name_or_unknown w = name_or_unknown w'" and k: "streak_or_one w = streak_or_one w'"
    using p by (simp_all add: fun_eq_iff name_or_unknown_def streak_or_one_def)
  show ?thesis unfolding onHitCommandUI_def n k t ..
qed

lemma onHitCommandDebris_effect:
  "onHitCommandDebris rr v (d, c, w) = (d', c', w') \<Longrightarrow>
     length d' = length d + (if w_view w v \<noteq> None then 1 else 0)
     \<and> arrows c' = arrows c \<and> arrowsHit c' = arrowsHit c \<and> c_local c' = c_local c
     \<and> w_player w' = w_player w \<and> w_time w' = w_time w \<and> w_view w' = w_view w"
  by (auto simp add: onHitCommandDebris_def spawn_entity_def set_pos_def Let_def split: option.splits)

lemma deleteArrow_loop_arrows:
  "arrows c = arrows c2 \<Longrightarrow> arrowsHit c = arrowsHit c2 \<Longrightarrow>
     arrows (fst (deleteArrow_loop n xs (c, w))) = arrows (fst (deleteArrow_loop n xs (c2, w2)))
     \<and> arrowsHit (fst (deleteArrow_loop n xs (c, w))) = arrowsHit (fst (deleteArrow_loop n xs (c2, w2)))
     \<and> c_local (fst (deleteArrow_loop n xs (c, w))) = c_local c"
proof (induction xs)
  case (Cons x xs)
  then show ?case by (cases x) (simp add: client_remove_def drop_arrow_def)
qed simp

lemma deleteArrow_loop_world:
  "\<forall>x\<in>set xs. w_player w (fst x) = None \<and> w_player w (arrow (snd x)) = None \<Longrightarrow>
   w_player w v \<noteq> None \<Longrightarrow>
     w_player (snd (deleteArrow_loop n xs (c, w))) = w_player w
     \<and> w_time (snd (deleteArrow_loop n xs (c, w))) = w_time w
     \<and> w_view (snd (deleteArrow_loop n xs (c, w))) v = w_view w v"
proof (induction xs)
  case (Cons x xs)
  obtain coll e where x: "x = (coll, e)" by (cases x)
  have "coll \<noteq> v" "arrow e \<noteq> v" using Cons.prems x by auto
  then show ?case using Cons x
    by (auto simp add: client_remove_def remove_entity_def fun_upd_idem)
qed simp

subsection \<open>The listeners commute\<close>

lemma hit_progress_start: "hit_progress dr rr a v pos n s0 {} s0"
  by (simp add: hit_progress_def)

lemma hit_progress_UI:
  assumes P: "hit_progress dr rr a v pos n s0 L s" and x: "HitListenerUI \<notin> L"
  shows "hit_progress dr rr a v pos n s0 (insert HitListenerUI L) (run_hit_listener dr rr a v pos n s HitListenerUI)"
proof -
  have "onHitCommandUI (c_local (hit_client s)) a v (hit_world s) (hit_ui s)
      = onHitCommandUI (c_local (hit_client s0)) a v (hit_world s0) (hit_ui s0)"
    using P x onHitCommandUI_reads [of "hit_world s" "hit_world s0"]
    by (simp add: hit_progress_def Let_def)
  then show ?thesis using P x by (simp add: hit_progress_def Let_def)
qed

lemma hit_progress_Debris:
  assumes P: "hit_progress dr rr a v pos n s0 L s" and x: "HitListenerDebris \<notin> L"
  shows "hit_progress dr rr a v pos n s0 (insert HitListenerDebris L)
           (run_hit_listener dr rr a v pos n s HitListenerDebris)"
proof -
  obtain d' c' w' where r: "onHitCommandDebris rr v (hit_debris s, hit_client s, hit_world s) = (d', c', w')"
    by (metis prod_cases3)
  have e: "length d' = length (hit_debris s) + (if w_view (hit_world s) v \<noteq> None then 1 else 0)
     \<and> arrows c' = arrows (hit_client s) \<and> arrowsHit c' = arrowsHit (hit_client s)
     \<and> c_local c' = c_local (hit_client s) \<and> w_player w' = w_player (hit_world s)
     \<and> w_time w' = w_time (hit_world s) \<and> w_view w' = w_view (hit_world s)"
    by (rule onHitCommandDebris_effect [OF r])
  show ?thesis using P x e r by (simp add: hit_progress_def Let_def)
qed

lemma hit_progress_Death:
  assumes P: "hit_progress dr rr a v pos n s0 L s" and x: "HitListenerDeath \<notin> L"
    and T: "arrows_traitless (hit_client s0) (hit_world s0)" and V: "w_player (hit_world s0) v \<noteq> None"
  shows "hit_progress dr rr a v pos n s0 (insert HitListenerDeath L)
           (run_hit_listener dr rr a v pos n s HitListenerDeath)"
proof -
  let ?c = "hit_client s" and ?w = "hit_world s" and ?ca = "hit_client s0" and ?wa = "hit_world s0"
  have pre: "hit_cam s = hit_cam s0" "hit_effects s = hit_effects s0" "arrows ?c = arrows ?ca"
    "arrowsHit ?c = arrowsHit ?ca" "w_view ?w = w_view ?wa" "c_local ?c = c_local ?ca"
    "w_player ?w = w_player ?wa" "w_time ?w = w_time ?wa"
    using P x by (simp_all add: hit_progress_def Let_def)
  obtain es1 w1 where d: "onHitCommandDeath dr a v pos n (hit_cam s, hit_effects s, ?c, ?w) =
       (if v = c_local ?c then setCameraZoomTarget (Some a) (?c, ?w) (hit_cam s) else hit_cam s,
        es1, deleteArrow n (?c, w1))"
    and l: "length es1 = length (hit_effects s) + 12"
    and w1: "w_time w1 = w_time ?w" "w_view w1 = w_view ?w" "w_player w1 = w_player ?w"
    using onHitCommandDeath_parts [of dr a v pos n "hit_cam s" "hit_effects s" ?c ?w] by blast
  have cam: "setCameraZoomTarget (Some a) (?c, ?w) (hit_cam s0) = setCameraZoomTarget (Some a) (?ca, ?wa) (hit_cam s0)"
    using pre by (intro setCameraZoomTarget_reads) simp_all
  have arr: "arrows (fst (deleteArrow n (?c, w1))) = arrows (fst (deleteArrow n (?ca, ?wa)))
      \<and> arrowsHit (fst (deleteArrow n (?c, w1))) = arrowsHit (fst (deleteArrow n (?ca, ?wa)))"
    using deleteArrow_loop_arrows [of ?c ?ca n "arrows ?ca" w1 ?wa] pre by (simp add: deleteArrow_def)
  have loc: "c_local (fst (deleteArrow n (?c, w1))) = c_local ?c"
    using deleteArrow_loop_arrows [of ?c ?c n "arrows ?c" w1 w1] by (simp add: deleteArrow_def)
  have wo: "w_player (snd (deleteArrow n (?c, w1))) = w_player w1
      \<and> w_time (snd (deleteArrow n (?c, w1))) = w_time w1
      \<and> w_view (snd (deleteArrow n (?c, w1))) v = w_view w1 v"
    unfolding deleteArrow_def fst_conv
    by (rule deleteArrow_loop_world) (use T V pre w1 in \<open>simp_all add: arrows_traitless_def\<close>)
  have r: "run_hit_listener dr rr a v pos n s HitListenerDeath =
      s\<lparr>hit_cam := (if v = c_local ?c then setCameraZoomTarget (Some a) (?c, ?w) (hit_cam s) else hit_cam s),
         hit_effects := es1, hit_client := fst (deleteArrow n (?c, w1)),
         hit_world := snd (deleteArrow n (?c, w1))\<rparr>"
    by (simp only: run_hit_listener.simps d prod.case split_beta fst_conv snd_conv)
  show ?thesis using P x l w1 pre cam arr loc wo unfolding r by (simp add: hit_progress_def Let_def)
qed

lemma dispatch_hit_progress:
  assumes T: "arrows_traitless (hit_client s) (hit_world s)" and V: "w_player (hit_world s) v \<noteq> None"
    and D: "distinct order"
  shows "hit_progress dr rr a v pos n s (set order) (dispatch_hit dr rr a v pos n order s)"
  using D
proof (induction order rule: rev_induct)
  case Nil
  then show ?case by (simp add: dispatch_hit_def hit_progress_start)
next
  case (snoc x xs)
  then have P: "hit_progress dr rr a v pos n s (set xs) (dispatch_hit dr rr a v pos n xs s)"
    and nx: "x \<notin> set xs" by simp_all
  have run: "dispatch_hit dr rr a v pos n (xs @ [x]) s = run_hit_listener dr rr a v pos n (dispatch_hit dr rr a v pos n xs s) x"
    by (simp add: dispatch_hit_def)
  have "hit_progress dr rr a v pos n s (insert x (set xs))
      (run_hit_listener dr rr a v pos n (dispatch_hit dr rr a v pos n xs s) x)"
  proof (cases x)
    case HitListenerUI
    then show ?thesis using hit_progress_UI [OF P] nx by blast
  next
    case HitListenerDebris
    then show ?thesis using hit_progress_Debris [OF P] nx by blast
  next
    case HitListenerDeath
    then show ?thesis using hit_progress_Death [OF P _ T V] nx by blast
  qed
  then show ?case by (simp add: run del: run_hit_listener.simps)
qed

lemma hit_progress_observed:
  "hit_progress dr rr a v pos n s0 L s \<Longrightarrow> hit_progress dr rr a v pos n s0 L s' \<Longrightarrow>
     hit_observed s = hit_observed s'"
  by (cases "HitListenerDeath \<in> L") (simp_all add: hit_progress_def hit_observed_def Let_def)

text \<open>C4: The engine may run the client's three HitCommand listeners (ui.ts, debris.ts and
  arrow.ts) in any order: as long as the arrows in flight carry no PlayerTrait and the victim
  has one, any two orders leave the same kill feed and notices, the same camera, the same arrows
  in flight and the same numbers of debris and particle props.\<close>

theorem hit_listeners_commute:
  assumes "arrows_traitless (hit_client s) (hit_world s)" and "w_player (hit_world s) v \<noteq> None"
    and "distinct order1" and "distinct order2" and "set order1 = set order2"
  shows "hit_observed (dispatch_hit dr rr a v pos n order1 s) = hit_observed (dispatch_hit dr rr a v pos n order2 s)"
  using assms dispatch_hit_progress [of s v order1 dr rr a pos n] dispatch_hit_progress [of s v order2 dr rr a pos n]
  by (metis hit_progress_observed)

theorem hit_listeners_commute_witness:
  "hit_observed (dispatch_hit demo_death_rolls
       \<lparr>spinX = 0, spinY = 0, spinZ = 0, speedRoll = 0.5, liftRoll = 0.5\<rparr> 2 3 (6, 8, 0) 5
       [HitListenerDeath, HitListenerUI, HitListenerDebris]
       \<lparr>hit_ui = ui_init, hit_cam = camera_init, hit_debris = [], hit_effects = [],
        hit_client = demo_client\<lparr>arrows := [(6, \<lparr>arrow = 7, draw = 1, ownerId = 2, netId = 5,
          stuckPos = (0, 0, 0), stuckDir = (0, 0, 1), stuckTime = 0, lastEffectTime = 0, spawnTime = 0\<rparr>)]\<rparr>,
        hit_world = demo_world\<rparr>)
   = hit_observed (dispatch_hit demo_death_rolls
       \<lparr>spinX = 0, spinY = 0, spinZ = 0, speedRoll = 0.5, liftRoll = 0.5\<rparr> 2 3 (6, 8, 0) 5
       [HitListenerUI, HitListenerDebris, HitListenerDeath]
       \<lparr>hit_ui = ui_init, hit_cam = camera_init, hit_debris = [], hit_effects = [],
        hit_client = demo_client\<lparr>arrows := [(6, \<lparr>arrow = 7, draw = 1, ownerId = 2, netId = 5,
          stuckPos = (0, 0, 0), stuckDir = (0, 0, 1), stuckTime = 0, lastEffectTime = 0, spawnTime = 0\<rparr>)]\<rparr>,
        hit_world = demo_world\<rparr>)"
  by (rule hit_listeners_commute) (simp_all add: arrows_traitless_def demo_client_def demo_world_def insert_commute)

end
