(* ===== verification/Spec2Isabelle.thy ===== *)
theory Spec2Isabelle
  imports System Player Nameplates Effects PickupHover Particles Camera HUD Utils ClientHit
begin

text \<open>
  \<^bold>\<open>A verification library for bowbrawl\<close> (a bow-and-arrow arena shooter scripted
  in TypeScript on the Jamango engine, sources under \<open>src/project\<close>).

  \<^bold>\<open>The program.\<close> The server scripts (\<open>server.ts\<close>, \<open>server/*.ts\<close>) own the
  authoritative game state: player traits (kills, deaths, arrows), pickup spawners, the bot
  roster and the bots' decisions. Clients (\<open>client/*.ts\<close>) simulate arrows, detect hits
  and report them; the server relays shots and hits to everyone. Everything runs in engine
  callbacks (game start, join, game tick, collisions, network commands), one at a time.

  \<^bold>\<open>Theories and what they model.\<close>
  \<^item> \<open>Prelude\<close>: JavaScript values. Numbers are \<open>real\<close> (no overflow occurs in the
    game logic; \<open>Math.floor\<close> is \<open>floor\<close>, \<open>Math.round\<close> is \<open>js_round\<close>),
    \<open>Infinity\<close> is \<open>PInf\<close> of \<open>xreal\<close>, vectors are triples with the gl-matrix
    operations, entity handles are \<open>nat\<close> and their truthiness is \<open>truthy_id\<close>. Early
    returns are the \<open>flow\<close> datatype, thrown \<open>TypeError\<close>s the \<open>js_result\<close> datatype
    carrying the state reached at the throw; a \<open>Set\<close> is a distinct list
    (\<open>set_add\<close>). \<open>argmin_first\<close> is the reference for nearest-entity loops.
  \<^item> \<open>Host\<close>: \<open>traits.ts\<close> and \<open>commands.ts\<close> (records and the \<open>net_msg\<close>
    datatype) and the engine API the scripts call, as the record \<open>world\<close> (entity list,
    one map per trait, positions, liveness, view rays, movement and aim sinks, avatars, the
    broadcast log) with one definition per API call; \<open>J.raycast\<close> and \<open>J.findPath\<close> are
    the parameters of record \<open>host\<close>. \<open>world_wf\<close> is the store invariant,
    \<open>world_frame\<close> what one bot's think cycle may change, \<open>trait_inv\<close> the typing
    invariant of player traits (\<open>trait_typed\<close>: naturals for the counters, 0 to 3 arrows).
  \<^item> \<open>Targeting\<close>: \<open>findNearestPickup\<close>, \<open>findRandomPickup\<close>,
    \<open>findNearestEnemy\<close> (bots.ts 114-168), refined to \<open>argmin_first\<close>.
  \<^item> \<open>BotAI\<close>: \<open>updateBotAI\<close> (bots.ts 170-370), split into the phases
    \<open>bot_engage\<close> (with the aim solver \<open>aim_target\<close> and \<open>bot_try_shoot\<close>),
    \<open>bot_idle_gate\<close>, \<open>bot_follow_goal\<close> and \<open>bot_select_goal\<close>, composed by
    \<open>then_flow\<close> as the source's early returns compose them. Each \<open>Math.random()\<close> is a
    field of \<open>think_rolls\<close>.
  \<^item> \<open>Respawn\<close>: \<open>killPlayer\<close>, \<open>spawnPlayer\<close> with its max-min spawn rule
    \<open>choose_spawn\<close> and the Respawner collection (respawn.ts).
  \<^item> \<open>Roster\<close>: the module state \<open>botStates\<close>/\<open>botIds\<close>/\<open>lastBotCountCheckTime\<close>,
    \<open>createBot\<close>, \<open>removeBot\<close>, \<open>maintainBotCount\<close> and the bots' tick handler
    \<open>bot_tick\<close> (bots.ts 6-112, 372-409); \<open>roster_wf\<close> is its invariant.
  \<^item> \<open>Pickups\<close>: \<open>spawnPickup\<close>, the spawner tick \<open>spawner_update\<close> and the
    collision handler \<open>onPickupCollision\<close> (pickups.ts).
  \<^item> \<open>Server\<close>: the command listeners \<open>onArrowCommand\<close>, \<open>onHitCommand\<close>,
    \<open>onEnvironmentalDeath\<close>, game start and join, and the respawn tick (server.ts).
  \<^item> \<open>ClientArrow\<close>: the client's arrow simulation (client/arrow.ts): \<open>spawnArrow\<close>,
    wall bounces, hit detection and reporting, the arrow tick and the listeners, over the
    record \<open>client\<close> beside the client's copy of the world.
  \<^item> \<open>Player\<close>: the local bow (client/player.ts, bow.ts): the DrawTrait, the use and
    unuse listeners (draw, release, the local shot with its ArrowCommand), the player tick
    (tutorial visibility, out-of-bounds death, eased draw, wobble, crosshair, bow frame, the
    reset while dead) and the RespawnCommand listener, over the record \<open>bowview\<close> beside
    the client state; \<open>client_step\<close> runs the player events and the arrow events of
    \<open>ClientArrow\<close> as one client machine.
  \<^item> \<open>UI\<close>: the heads-up display (client/ui.ts, progression.ts): the record
    \<open>ui_state\<close> of the module variables the HUD logic updates, \<open>onKill\<close>, the kill feed,
    the HitCommand and EnvironmentalDeathCommand listeners, the tick and the leaderboard, and
    \<open>ui_step\<close> over the HUD's events. HTML strings are recorded by what they show.
  \<^item> \<open>HUD\<close>: what the tick of client/ui.ts writes to the page, the record \<open>hud\<close> of the style
    properties and element contents it sets, updated by \<open>hud_tick\<close> (overlay fade, death text,
    arrow indicators and label, notification, leaderboard and kill feed rows); \<open>ui_frame\<close> runs
    it beside \<open>ui_tick\<close> as the one callback does.
  \<^item> \<open>Utils\<close>: utils.ts, the easing curves (each runs from 0 to 1) and
    \<open>quatFromDirection\<close> as the frame it builds, a rotation taking the forward axis to the
    given direction unless that direction is vertical.
  \<^item> \<open>Nameplates\<close>: client/nameplates.ts, the scan for the player with the most kills
    and the nameplates it sets.
  \<^item> \<open>Effects\<close>: the client's transient props, client/debris.ts and effects.ts, and
    \<open>splice_sweep\<close>, the backward \<open>splice\<close> loop both use to expire them.
  \<^item> \<open>PickupHover\<close>: client/pickup.ts, the tick that makes each pickup hover around the
    height first seen for it (the two module \<open>Map\<close>s as association lists in
    \<open>hover_state\<close>) and spawns a particle effect of \<open>Effects\<close> at most every half second.
  \<^item> \<open>Particles\<close>: client/particles.ts, the arrow trail particle and the wall-bounce and
    death bursts, each a run of the counting loop \<open>burst_loop\<close> (the source's
    \<open>for (let i = 0; i < particleCount; i++)\<close>) over \<open>addEffect\<close> of \<open>Effects\<close>.
  \<^item> \<open>Camera\<close>: client/camera.ts (the record \<open>camera_state\<close> of its module variables,
    \<open>setCameraZoomTarget\<close>, the death-camera tick \<open>camera_tick\<close> returning the pose it sets)
    and its callers: \<open>handlePlayerDeath\<close> of client/player.ts, the client HitCommand listener
    of client/arrow.ts (\<open>onHitCommandDeath\<close>: handlePlayerDeath, then deleteArrow) and the
    camera half of the RespawnCommand listener.
  \<^item> \<open>ClientHit\<close>: the client's three HitCommand listeners (ui.ts \<open>onHitCommandUI\<close>,
    debris.ts \<open>onHitCommandDebris\<close>, arrow.ts \<open>onHitCommandDeath\<close>) as one
    \<open>hit_state\<close> (page, camera, debris and effect lists, client, world);
    \<open>dispatch_hit\<close> runs them in a given order, since the engine's order of listeners is
    not fixed by the code (it follows module load order).
  \<^item> \<open>System\<close>: the server as one state machine, \<open>server_step\<close> over
    \<open>server_event\<close>s in the engine's dispatch order, and \<open>server_reach\<close>.
  \<^item> this theory: the properties that span components.

  \<^bold>\<open>What the lemmas show.\<close> Each component theory ends with its properties, each after a
  text block naming its claim. In short: bots shoot only with line of sight, cooldown and
  arrows, and at least 3 s apart over any run (BotAI); aiming at an enemy takes priority
  over travel, except that a map without pickups clears the look-at target (a finding);
  nearest-target loops compute the first minimum over the explicitly filtered candidates
  (Targeting); the spawn rule is max-min over the true nearest-player distance and picks the
  first maximiser, and \<open>spawnPlayer\<close> throws exactly when a living player has no
  position (Respawn); the roster invariant survives every tick, maintenance tops the roster
  up to exactly three live bots and runs at most once a second, and a throw in it stalls the
  bots: the tick's state is the pass's throw, with no bot having thought (Roster); spawners refill ten seconds after going dry but never after a tick at time
  0, and collections respect the arrow cap and happen once per pickup (Pickups); the
  listeners' effects, including unvalidated hits (Server); the client's arrow map
  invariant, one hit report per arrow, no report between bots, a collider leak, and that a
  spawned arrow is removed completely by the HitCommand for its netId when that netId is fresh
  (ClientArrow); every ArrowCommand a client sends is paid for by a press, a tick while dead
  disarms the bow, the tick never asks for a bow frame that does not exist, and a release with
  no view ray or a press at time 0 loses the shot (Player); the kill feed keeps exactly the ten
  most recent entries, the leaderboard is the stable descending sort by kills with no hidden player above
  a shown one, and kill notifications stay inside their table (UI); the page shows exactly the first
  arrowCount indicators lit, keeps the overlay's opacity in [0, 1] with a full black at the game
  start and the respawn moment, and draws one row per kept kill-feed entry (HUD); both backward splice sweeps
  are filters that remove exactly the expired props (Effects); a pickup moves only vertically,
  within 0.35 of the height first recorded for it, particles reach 30 units where the comment
  says 20, and neither hover map ever loses a key (PickupHover); the burst loop terminates after
  exactly its count of iterations, a wall bounce throws six particles off the surface at normal
  speed 3 and speed sqrt 13, and death particles never rise 49/15 units above the body
  (Particles); two seconds after a death the camera sits 4.6 above the victim and 3 units
  away from the killer's side looking at the killer, its smoothed target converges to a
  standing killer by a factor 0.9 per tick, a HitCommand starts the camera exactly for the
  local victim of a truthy attacker (target, start time, reset smoothing and the victim's view
  ray) and deletes the first arrow with its netId, and a respawn turns it off (Camera); the three HitCommand listeners of the
  client commute on everything the player sees, provided the arrows in flight carry no
  PlayerTrait (ClientHit); and here, that the
  nameplate scan crowns the leaderboard's leader (only once it has a kill), the typing
  invariant of player traits across all server handlers and the mismatch between the aim solver's speed and the arrows' real speed.

  \<^bold>\<open>Host assumptions.\<close> The engine API is modelled from the spec and its types. One
  call is undocumented for the argument the code gives it: \<open>J.setEntityPosition(botId,
  undefined)\<close> (bots.ts 392-393, when \<open>spawnPlayer\<close> returns nothing for lack of a
  Respawner) is assumed to change nothing (\<open>set_entity_position\<close> with \<open>None\<close>);
  the claim about maps without spawn points depends on it. The engine runs the listeners of a
  command one after another, each to completion, in an order the code does not fix
  (\<open>dispatch_hit\<close> takes it as a parameter).

  \<^bold>\<open>Loops, bounds and fuel.\<close> Every loop of the source iterates a finite list (a
  \<open>for ... of\<close> over a collection read once, or a counter up to a bound), so each is
  structural recursion on that list or count and needs no fuel; the recursion-based
  definitions are total. Randomness is a parameter: each \<open>Math.random()\<close> value is a
  field of a rolls record and the properties assume the values lie in [0, 1).

  \<^bold>\<open>Not modelled.\<close> Presentation code, which changes no state the game logic reads:
  the CSS text of the elements \<open>client/ui.ts\<close> creates at game start,
  the emoji texts and CSS of \<open>progression.ts\<close> (recorded by their table index),
  the tints, glows, scales, rotations and angular velocities of \<open>effects.ts\<close> and
  \<open>debris.ts\<close> and \<open>particles.ts\<close>, the rotation and glow of \<open>pickup.ts\<close>, sounds, glow, tint, scale and the
  visibility of props. The quaternion that \<open>quat.fromMat3\<close> and \<open>mat4.lookAt\<close> compute is recorded by the
  frame or the point looked at that determines it; \<open>player.ts\<close> is modelled whole but for its sounds. \<open>Math.exp\<close> and
  \<open>Math.sin\<close> of the bow wobble are the real \<open>exp\<close> and \<open>sin\<close>. The
  engine itself (physics, pathfinding, ray casts, the network) is a parameter: physics
  appears only as the \<open>EngineMoves\<close> and \<open>Physics\<close> events that move bodies.
\<close>

text \<open>C37: the nameplates and the leaderboard crown the same player: the nameplate scan
  finds the first player of the leaderboard's stable order, and that player's nameplate is
  crowned exactly when it has a kill, while the leaderboard's first row always has the crown.\<close>

theorem nameplate_crown_is_leader:
  assumes "\<forall>e t. w_player w e = Some t \<longrightarrow> 0 \<le> kills t" "player_entries w \<noteq> []"
  shows "fst (top_player_loop (player_entries w) None (-1)) = Some (stat_id (hd (leaderboard_order w)))
     \<and> row_crown (hd (leaderboard_rows l tab w))
     \<and> (\<forall>e t. e \<in> set (players_of w) \<longrightarrow> w_player w e = Some t \<longrightarrow> name t \<noteq> [] \<longrightarrow>
          (\<exists>np. nameplates_tick w plates e = Some np
             \<and> (np_crowned np \<longleftrightarrow> e = stat_id (hd (leaderboard_order w))
                                  \<and> 0 < stat_kills (hd (leaderboard_order w)))))"
proof -
  obtain y where y: "argmin_first kills_key (player_entries w) = Some y"
    using assms(2) by (cases "argmin_first kills_key (player_entries w)") auto
  have "w_player w (fst y) = Some (snd y)"
    using argmin_first_in [OF y] player_entries_trait [of "fst y" "snd y" w] by simp
  then have k: "0 \<le> kills (snd y)" using assms(1) by blast
  have loop: "top_player_loop (player_entries w) None (-1) = (Some (fst y), kills (snd y))"
    unfolding top_player_loop_argmax using y k by simp
  have hd: "stat_id (hd (leaderboard_order w)) = fst y" "stat_kills (hd (leaderboard_order w)) = kills (snd y)"
    using hd_leaderboard_order [OF y] by simp_all
  have "player_stats w \<noteq> []" using assms(2) by (simp add: player_stats_entries)
  then have "leaderboard_rows l tab w \<noteq> []"
    using leaderboard_rows_fields(3) [of l tab w] by (cases tab) (auto simp: min_def split: if_splits)
  then have crown: "row_crown (hd (leaderboard_rows l tab w))" by (rule leaderboard_first_crowned)
  have plates: "\<exists>np. nameplates_tick w plates e = Some np
      \<and> (np_crowned np \<longleftrightarrow> e = fst y \<and> 0 < kills (snd y))"
    if "e \<in> set (players_of w)" "w_player w e = Some t" "name t \<noteq> []" for e t
    using nameplate_loop_set [OF player_entries_intro [OF that(1,2)] that(3), of "Some (fst y)"
        "kills (snd y)" plates]
    by (auto simp: nameplates_tick_def loop)
  show ?thesis using loop hd crown plates by simp
qed

theorem nameplate_crown_is_leader_witness:
  "row_crown (hd (leaderboard_rows 2 False demo_world))
   \<and> (\<exists>np. nameplates_tick demo_world Map.empty 1 = Some np \<and> \<not> np_crowned np)"
proof -
  have h: "\<forall>e t. w_player demo_world e = Some t \<longrightarrow> 0 \<le> kills t" "player_entries demo_world \<noteq> []"
    by (auto simp: demo_world_def demo_player_def player_entries_def players_of_def List.map_filter_def)
  have p: "(1::nat) \<in> set (players_of demo_world)" "w_player demo_world 1 = Some demo_player"
    "name demo_player \<noteq> []"
    by (simp_all add: demo_world_def demo_player_def players_of_def)
  have "stat_kills (hd (leaderboard_order demo_world)) = 0"
    by (simp add: leaderboard_order_def player_stats_def players_of_def demo_world_def demo_player_def
        List.map_filter_def)
  moreover note T = nameplate_crown_is_leader [OF h, of 2 False Map.empty]
  moreover from T p obtain np where "nameplates_tick demo_world Map.empty 1 = Some np"
    "np_crowned np \<longleftrightarrow> 1 = stat_id (hd (leaderboard_order demo_world))
       \<and> 0 < stat_kills (hd (leaderboard_order demo_world))"
    by blast
  ultimately show ?thesis by auto
qed

text \<open>C38: In every state the server reaches from a map without player traits, by any
  sequence of game starts, joins, commands, pickup collisions, game ticks (pickup
  spawners, bots, respawns) and engine moves, every player trait is well typed: its kills,
  deaths and kill streak are naturals, it holds between 0 and maxArrows arrows, and
  maxArrows is 3.\<close>

theorem server_traits_typed:
  assumes "server_reach h S" "w_player (ss_world S) e = Some p"
  shows "0 \<le> arrowCount p \<and> arrowCount p \<le> maxArrows p \<and> maxArrows p = 3
    \<and> 0 \<le> kills p \<and> 0 \<le> deathCount p \<and> 0 \<le> killStreak p"
proof -
  from assms(1) have "trait_inv (ss_world S)"
  proof (induction rule: server_reach.induct)
    case (boot S)
    then show ?case by (simp add: trait_inv_def trait_typed_def)
  next
    case (step S e)
    from step.IH show ?case by (rule server_step_ammo)
  qed
  with assms(2) show ?thesis unfolding trait_inv_def trait_typed_def by auto
qed

theorem server_traits_typed_witness:
  "\<exists>p. w_player (ss_world (server_step demo_host (PlayerJoined 1)
        \<lparr>ss_roster = demo_roster, ss_world = demo_world\<lparr>w_player := Map.empty\<rparr>, ss_spawns = []\<rparr>)) 1 = Some p
     \<and> 0 \<le> arrowCount p \<and> arrowCount p \<le> maxArrows p"
proof -
  let ?S0 = "\<lparr>ss_roster = demo_roster, ss_world = demo_world\<lparr>w_player := Map.empty\<rparr>, ss_spawns = []\<rparr>"
  let ?S1 = "server_step demo_host (PlayerJoined 1) ?S0"
  have r: "server_reach demo_host ?S1" by (rule server_reach.step, rule server_reach.boot) simp
  obtain p where p: "w_player (ss_world ?S1) 1 = Some p"
    by (simp add: onPlayerJoin_def spawnPlayer_def init_player_trait_def world_ops_defs Let_def)
  from server_traits_typed [OF r p] p show ?thesis by blast
qed

text \<open>C39: The bot's aim solver assumes an arrow speed of 50 * draw * 1.5, but every client
  spawns the relayed arrow at arrow_speed draw = 50 * (0.5 + draw), which is faster for
  every draw the bot samples (0.7 <= draw < 1): the solver's drop compensation exceeds the
  drop of the arrow actually flying, so bot arrows pass above the target's aim point (less
  the jitter).\<close>

theorem aim_drop_overestimated:
  assumes "0 \<le> r" "r < 1" "0 < tdist"
  shows "vy (aim_target P tdist ro (aim_draw r)) - vy P - aim_offset ro
           > 0.5 * 9.81 * (tdist / arrow_speed (aim_draw r)) ^ 2"
proof -
  let ?d = "aim_draw r"
  have d: "0.7 \<le> ?d" "?d < 1" using assms(1,2) by (simp_all add: aim_draw_def)
  have s: "0 < 50 * ?d * 1.5" "50 * ?d * 1.5 < arrow_speed ?d" using d by (simp_all add: arrow_speed_def)
  have q: "tdist / arrow_speed ?d < tdist / (50 * ?d * 1.5)"
    using s assms(3) by (intro divide_strict_left_mono) simp_all
  have q0: "0 \<le> tdist / arrow_speed ?d" using s assms(3) by simp
  have "(tdist / arrow_speed ?d) ^ 2 < (tdist / (50 * ?d * 1.5)) ^ 2"
    using q q0 by (rule power_strict_mono) simp
  then show ?thesis by (simp add: aim_target_def Let_def power2_eq_square)
qed

theorem aim_drop_overestimated_witness:
  "vy (aim_target (0, 0, 0) 30 0 (aim_draw 0)) - vy (0::real, 0::real, 0::real) - aim_offset 0
     > 0.5 * 9.81 * (30 / arrow_speed (aim_draw 0)) ^ 2"
  by (rule aim_drop_overestimated) simp_all

end
